(* ===== verification/Asm_Prelude.thy ===== *)
theory Asm_Prelude
  imports Main "HOL-Library.Word"
begin

text \<open>
  Shared vocabulary of the development: the machine integers of the C code as words of
  their width, little-endian byte strings, the C string operations the program uses on
  bounded buffers, and the theorem collections the component theories extend.
\<close>

unbundle bit_operations_syntax

section \<open>Machine integers\<close>

type_synonym u8 = "8 word"
type_synonym u16 = "16 word"
type_synonym u32 = "32 word"
type_synonym u64 = "64 word"

text \<open>Collections: \<open>emitter_intro\<close> holds the rules that establish the emission contract of
  a command, \<open>emits_intro\<close> the rules that compute the exact bytes a command appends.\<close>

named_theorems emitter_intro
named_theorems emits_intro

section \<open>Little-endian byte strings\<close>

text \<open>The bytes of a 16, 32 and 64 bit value, lowest first, with the masks and shifts the
  emitters write out.\<close>

definition le16 :: "u16 \<Rightarrow> u8 list" where
  "le16 w = [ucast (w AND 0xFF), ucast (drop_bit 8 w AND 0xFF)]"

definition le32 :: "u32 \<Rightarrow> u8 list" where
  "le32 w = [ucast (w AND 0xFF), ucast (drop_bit 8 w AND 0xFF),
             ucast (drop_bit 16 w AND 0xFF), ucast (drop_bit 24 w AND 0xFF)]"

definition le64 :: "u64 \<Rightarrow> u8 list" where
  "le64 w = map (\<lambda>i. ucast (drop_bit (i * 8) w AND 0xFF)) [0..<8]"

text \<open>Reading back: the bytes shifted into place and or-ed.\<close>

definition of_le16 :: "u8 \<Rightarrow> u8 \<Rightarrow> u16" where
  "of_le16 b0 b1 = ucast b0 OR push_bit 8 (ucast b1)"

definition of_le32 :: "u8 \<Rightarrow> u8 \<Rightarrow> u8 \<Rightarrow> u8 \<Rightarrow> u32" where
  "of_le32 b0 b1 b2 b3 =
     ucast b0 OR push_bit 8 (ucast b1) OR push_bit 16 (ucast b2) OR push_bit 24 (ucast b3)"

definition of_le64 :: "u8 list \<Rightarrow> u64" where
  "of_le64 bs = foldr (\<lambda>i v. push_bit (8 * i) (ucast (bs ! i)) OR v) [0..<8] 0"

lemma mask_byte: "w AND 0xFF = take_bit 8 w" for w :: "'a::len word"
  by (simp add: take_bit_eq_mask mask_eq_exp_minus_1)

lemma length_le16 [simp]: "length (le16 w) = 2"
  by (simp add: le16_def)

lemma length_le32 [simp]: "length (le32 w) = 4"
  by (simp add: le32_def)

lemma length_le64 [simp]: "length (le64 w) = 8"
  by (simp add: le64_def)

lemma of_le16_nth_le16 [simp]: "of_le16 (le16 w ! 0) (le16 w ! Suc 0) = w"
  unfolding of_le16_def le16_def mask_byte
  by (intro bit_word_eqI) (auto simp: bit_simps)

lemma of_le32_nth_le32 [simp]:
  "of_le32 (le32 w ! 0) (le32 w ! Suc 0) (le32 w ! 2) (le32 w ! 3) = w"
  unfolding of_le32_def le32_def mask_byte
proof (rule bit_word_eqI, goal_cases)
  case (1 n)
  then consider "n < 8" | "8 \<le> n" "n < 16" | "16 \<le> n" "n < 24" | "24 \<le> n" "n < 32"
    by fastforce
  then show ?case by cases (auto simp: bit_simps)
qed

lemma of_le32_le32 [simp]:
  "le32 w = [b0, b1, b2, b3] \<Longrightarrow> of_le32 b0 b1 b2 b3 = w"
  using of_le32_nth_le32 [of w] by simp

lemma bit_or_bytes:
  "bit (foldr (\<lambda>i v. push_bit (8 * i) (ucast (f i :: u8)) OR v) is (0 :: u64)) n \<longleftrightarrow>
     (\<exists>i \<in> set is. 8 * i \<le> n \<and> n < 64 \<and> bit (f i) (n - 8 * i))"
  by (induction "is") (auto simp: bit_simps dest: bit_imp_le_length)

lemma le64_nth: "i < 8 \<Longrightarrow> le64 w ! i = ucast (drop_bit (i * 8) w)"
  by (simp add: le64_def mask_byte) (rule bit_word_eqI, simp add: bit_simps)

lemma of_le64_le64 [simp]: "of_le64 (le64 w) = w"
proof (rule bit_word_eqI)
  fix n assume n: "n < LENGTH(64)"
  have "bit (of_le64 (le64 w)) n \<longleftrightarrow>
      (\<exists>i \<in> {0..<8}. 8 * i \<le> n \<and> n < 64 \<and> n - 8 * i < 8 \<and> bit w (i * 8 + (n - 8 * i)))"
    unfolding of_le64_def bit_or_bytes by (auto simp: le64_nth bit_simps)
  also have "\<dots> \<longleftrightarrow> bit w n"
  proof
    assume "bit w n"
    with n show "\<exists>i \<in> {0..<8}. 8 * i \<le> n \<and> n < 64 \<and> n - 8 * i < 8 \<and> bit w (i * 8 + (n - 8 * i))"
      by (intro bexI [of _ "n div 8"]) (auto simp: minus_mult_div_eq_mod [symmetric])
  qed (auto simp: mult.commute)
  finally show "bit (of_le64 (le64 w)) n = bit w n" .
qed

text \<open>A value in the signed range of a narrower type survives the cast there and back.\<close>

lemma scast_ucast_id:
  fixes v :: "'a::len word"
  assumes len: "LENGTH('b::len) \<le> LENGTH('a)"
    and range: "- (2 ^ (LENGTH('b) - Suc 0)) \<le> sint v" "sint v < 2 ^ (LENGTH('b) - Suc 0)"
  shows "scast (ucast v :: 'b word) = v"
proof -
  have "sint (ucast v :: 'b word) = signed_take_bit (LENGTH('b) - Suc 0) (uint v)"
    by (simp add: signed_ucast_eq)
  also have "\<dots> = signed_take_bit (LENGTH('b) - Suc 0) (sint v)"
    using len by (simp add: sint_uint signed_take_bit_signed_take_bit min_def)
  also have "\<dots> = sint v"
    using range by (rule signed_take_bit_int_eq_self)
  finally show ?thesis by (simp add: scast_eq)
qed

section \<open>C strings in bounded buffers\<close>

text \<open>\<open>strncpy(dst, src, n - 1); dst[n - 1] = 0\<close> and the program's bounded copies keep
  the first \<open>n - 1\<close> characters.\<close>

definition copy_bounded_text :: "nat \<Rightarrow> string \<Rightarrow> string" where
  "copy_bounded_text dst_size src = (if dst_size = 0 then [] else take (dst_size - 1) src)"

lemma copy_bounded_text_id: "length s < n \<Longrightarrow> copy_bounded_text n s = s"
  by (simp add: copy_bounded_text_def)

lemma length_copy_bounded_text: "0 < n \<Longrightarrow> length (copy_bounded_text n s) < n"
  by (simp add: copy_bounded_text_def)

text \<open>\<open>tolower\<close> on one byte (the C locale: only \<open>A\<close> to \<open>Z\<close> change), and \<open>strcasecmp(a, b) == 0\<close>.\<close>

definition c_tolower :: "char \<Rightarrow> char" where
  "c_tolower c = (let n = (of_char c :: nat) in if 65 \<le> n \<and> n \<le> 90 then char_of (n + 32) else c)"

definition strcase_eq :: "string \<Rightarrow> string \<Rightarrow> bool" where
  "strcase_eq a b \<longleftrightarrow> map c_tolower a = map c_tolower b"

lemma strcase_eq_refl [simp]: "strcase_eq a a"
  by (simp add: strcase_eq_def)

lemma strcase_eq_sym: "strcase_eq a b \<longleftrightarrow> strcase_eq b a"
  by (auto simp: strcase_eq_def)

section \<open>Searching a list\<close>

lemma find_SomeD: "find P xs = Some x \<Longrightarrow> x \<in> set xs \<and> P x"
  by (induction xs) (auto split: if_splits)

lemma find_by_key:
  assumes "distinct (map f xs)" "x \<in> set xs"
  shows "find (\<lambda>y. f x = f y) xs = Some x"
  using assms by (induction xs) (auto simp: image_iff)

section \<open>Overwriting a range of a byte buffer\<close>

definition patch :: "nat \<Rightarrow> 'a list \<Rightarrow> 'a list \<Rightarrow> 'a list" where
  "patch off bs xs = take off xs @ bs @ drop (off + length bs) xs"

lemma length_patch [simp]: "off + length bs \<le> length xs \<Longrightarrow> length (patch off bs xs) = length xs"
  by (simp add: patch_def)

lemma nth_patch:
  assumes "off + length bs \<le> length xs" "i < length xs"
  shows "patch off bs xs ! i = (if off \<le> i \<and> i < off + length bs then bs ! (i - off) else xs ! i)"
  using assms by (auto simp: patch_def nth_append min_def)

end
