(* ===== verification/Asm_Types.thy ===== *)
theory Asm_Types
  imports Asm_Prelude
begin

text \<open>
  The data of the assembler (include/x86_64_asm/x86_64_asm.h and src/x86_64_asm.h): register
  numbers and sizes, operands, the instruction type enumeration, parsed instructions, the
  symbol table entries, the fixup and listing entries and the assembler context, followed by
  the shape of an operation on the context and its sequencing. A C array with a count is the
  list of its used entries where entries past the count are never read; the fixup array, whose
  slots keep stale fields from an earlier pass, is a function from slots.
\<close>

section \<open>Registers\<close>

text \<open>\<open>reg_t\<close> is an enumeration with many aliases of the same value (\<open>RAX\<close>, \<open>EAX\<close>, \<open>AX\<close> and
  \<open>AL\<close> are all 0) and a negative member, and the code compares and masks the values: it is
  an integer here, with the members the code mentions by name.\<close>

type_synonym reg_t = int

abbreviation (input) RAX :: reg_t where "RAX \<equiv> 0"
abbreviation (input) XMM0 :: reg_t where "XMM0 \<equiv> 16"
abbreviation (input) XMM8 :: reg_t where "XMM8 \<equiv> 24"
abbreviation (input) XMM15 :: reg_t where "XMM15 \<equiv> 31"
abbreviation (input) RIP :: reg_t where "RIP \<equiv> 32"
abbreviation (input) REG_NONE :: reg_t where "REG_NONE \<equiv> -1"

datatype reg_size_t =
  REG_SIZE_8 | REG_SIZE_8H | REG_SIZE_16 | REG_SIZE_32 | REG_SIZE_64 | REG_SIZE_XMM

section \<open>Operands\<close>

datatype operand_type_t =
  OPERAND_NONE | OPERAND_REG | OPERAND_IMM | OPERAND_MEM | OPERAND_LABEL
  | OPERAND_LABEL_DIFF | OPERAND_STRING

datatype mem_segment_t = MEM_SEG_DEFAULT | MEM_SEG_FS | MEM_SEG_GS

record mem_operand =
  mem_base :: reg_t
  mem_index :: reg_t
  mem_scale :: int
  mem_displacement :: u32
  mem_has_base :: bool
  mem_has_index :: bool
  mem_has_displacement :: bool
  mem_is_absolute :: bool
  mem_is_rip_relative :: bool
  mem_segment_override :: mem_segment_t
  mem_label :: string

record operand =
  op_type :: operand_type_t
  op_reg :: reg_t
  op_reg_size :: reg_size_t
  op_immediate :: u64
  op_mem :: mem_operand
  op_label :: string
  op_label_rhs :: string
  op_string :: string

section \<open>Instruction types\<close>

text \<open>
  \<open>instruction_type_t\<close>: the 181 members keep their names. They are grouped by the encoder
  that handles them (the groups of the dispatch switch), one small enumeration per group; the
  instructions with an encoder of their own are \<open>Single_family\<close>. The members from \<open>INST_JA\<close> to
  \<open>INST_JS\<close>, which the code selects by a range comparison of enumeration values, are exactly
  \<open>Jcc_family\<close>.
\<close>

datatype mov_kind =
  INST_MOV | INST_MOVZX | INST_MOVSX

datatype stack_kind =
  INST_PUSH | INST_POP

datatype arith_kind =
  INST_ADD | INST_ADC | INST_SUB | INST_SBB | INST_CMP | INST_XOR | INST_OR | INST_AND

datatype unary_kind =
  INST_INC | INST_DEC | INST_NEG | INST_NOT

datatype muldiv_kind =
  INST_MUL | INST_DIV | INST_IDIV

datatype shift_kind =
  INST_SHL | INST_SHR | INST_SAL | INST_SAR | INST_ROL | INST_ROR | INST_RCL | INST_RCR

datatype dshift_kind =
  INST_SHLD | INST_SHRD

datatype bit_kind =
  INST_BT | INST_BTS | INST_BTR | INST_BTC

datatype scan_kind =
  INST_BSF | INST_BSR

datatype jcc_kind =
  INST_JA | INST_JAE | INST_JB | INST_JBE | INST_JE | INST_JG | INST_JGE | INST_JL
  | INST_JLE | INST_JNE | INST_JNZ | INST_JNO | INST_JNP | INST_JNS | INST_JO | INST_JP
  | INST_JS

datatype callret_kind =
  INST_CALL | INST_RET

datatype cmov_kind =
  INST_CMOVA | INST_CMOVAE | INST_CMOVB | INST_CMOVBE | INST_CMOVE | INST_CMOVG
  | INST_CMOVGE | INST_CMOVL | INST_CMOVLE | INST_CMOVNE | INST_CMOVNO | INST_CMOVNP
  | INST_CMOVNS | INST_CMOVO | INST_CMOVP | INST_CMOVS

datatype setcc_kind =
  INST_SETA | INST_SETAE | INST_SETB | INST_SETBE | INST_SETE | INST_SETG | INST_SETGE
  | INST_SETL | INST_SETLE | INST_SETNE | INST_SETNO | INST_SETNP | INST_SETNS | INST_SETO
  | INST_SETP | INST_SETS

datatype cwd_kind =
  INST_CWD | INST_CDQ | INST_CQO

datatype cbw_kind =
  INST_CBW | INST_CWDE | INST_CDQE

datatype flag_kind =
  INST_CLC | INST_STC | INST_CMC | INST_CLD | INST_STD | INST_CLI | INST_STI

datatype string_kind =
  INST_MOVSB | INST_MOVSW | INST_MOVSD | INST_MOVSQ

datatype sse_mov_kind =
  INST_MOVAPS | INST_MOVUPS | INST_MOVSS | INST_MOVAPD | INST_MOVUPD | INST_MOVSD_XMM
  | INST_MOVDQA | INST_MOVDQU

datatype sse_arith_kind =
  INST_ADDSS | INST_ADDPS | INST_ADDSD | INST_ADDPD | INST_SUBSS | INST_SUBPS | INST_SUBSD
  | INST_SUBPD | INST_MULSS | INST_MULPS | INST_MULSD | INST_MULPD | INST_DIVSS
  | INST_DIVPS | INST_DIVSD | INST_DIVPD

datatype packed_kind =
  INST_PADDB | INST_PADDW | INST_PADDD | INST_PADDQ | INST_PSUBB | INST_PSUBW | INST_PSUBD
  | INST_PSUBQ

datatype pcmp_kind =
  INST_PCMPEQB | INST_PCMPEQW | INST_PCMPEQD | INST_PCMPEQQ | INST_PCMPGTB | INST_PCMPGTW
  | INST_PCMPGTD | INST_PCMPGTQ

datatype plogic_kind =
  INST_PAND | INST_PANDNPD | INST_POR | INST_PXOR

datatype data_kind =
  INST_DB | INST_DW | INST_DD | INST_DQ

datatype reserve_kind =
  INST_RESB | INST_RESW | INST_RESD | INST_RESQ

datatype common_kind =
  INST_COMM | INST_LCOMM

datatype directive_kind =
  INST_EQU | INST_TIMES | INST_ALIGN | INST_INCBIN | INST_SECTION

datatype single_kind =
  INST_LEA | INST_XCHG | INST_BSWAP | INST_IMUL | INST_TEST | INST_JMP | INST_INT
  | INST_SYSCALL | INST_SYSRET | INST_LEAVE | INST_ENTER | INST_NOP | INST_HLT

datatype symdir_kind =
  INST_GLOBAL | INST_EXTERN | INST_WEAK | INST_HIDDEN

datatype instruction_type =
  Mov_family mov_kind | Stack_family stack_kind | Arith_family arith_kind
  | Unary_family unary_kind | Muldiv_family muldiv_kind | Shift_family shift_kind
  | Dshift_family dshift_kind | Bit_family bit_kind | Scan_family scan_kind
  | Jcc_family jcc_kind | Callret_family callret_kind | Cmov_family cmov_kind
  | Setcc_family setcc_kind | Cwd_family cwd_kind | Cbw_family cbw_kind
  | Flag_family flag_kind | String_family string_kind | Sse_mov_family sse_mov_kind
  | Sse_arith_family sse_arith_kind | Packed_family packed_kind | Pcmp_family pcmp_kind
  | Plogic_family plogic_kind | Data_family data_kind | Reserve_family reserve_kind
  | Common_family common_kind | Directive_family directive_kind
  | Single_family single_kind | Symdir_family symdir_kind | INST_UNKNOWN


text \<open>\<open>operand_count\<close> is the length of the operand list.\<close>

record parsed_instruction =
  inst_type :: instruction_type
  inst_label :: string
  inst_has_label :: bool
  inst_label_column :: int
  inst_operands :: "operand list"
  inst_address :: u64
  inst_line_number :: int
  inst_original_line :: string

section \<open>Symbols, fixups, listing entries\<close>

abbreviation MAX_LABEL_LENGTH :: nat where "MAX_LABEL_LENGTH \<equiv> 256"
abbreviation MAX_LINE_LENGTH :: nat where "MAX_LINE_LENGTH \<equiv> 1024"
abbreviation MAX_SYMBOLS :: nat where "MAX_SYMBOLS \<equiv> 4096"
abbreviation MAX_LINE_MAP :: nat where "MAX_LINE_MAP \<equiv> 8192"
abbreviation MAX_OUTPUT_SIZE :: nat where "MAX_OUTPUT_SIZE \<equiv> 1048576"
abbreviation HASH_TABLE_SIZE :: u32 where "HASH_TABLE_SIZE \<equiv> 1024"

record symbol =
  sym_name :: string
  sym_address :: u64
  sym_decl_line :: int
  sym_decl_column :: int
  sym_is_resolved :: bool
  sym_is_external :: bool
  sym_is_global :: bool
  sym_is_weak :: bool
  sym_is_hidden :: bool
  sym_is_function :: bool
  sym_section :: int

record hash_entry =
  he_name :: string
  he_address :: u64
  he_is_resolved :: bool
  he_is_global :: bool
  he_is_external :: bool
  he_section :: int

record fixup =
  fx_label :: string
  fx_location :: u64
  fx_instruction_type :: instruction_type
  fx_operand_index :: int
  fx_size :: int
  fx_is_rip_relative :: bool
  fx_section :: int

record listing_entry =
  le_line_number :: int
  le_address :: u64
  le_bytes :: "u8 list"
  le_source_line :: string

section \<open>The assembler context\<close>

text \<open>\<open>text_section\<close> and \<open>data_section\<close> hold the bytes up to \<open>text_size\<close> and \<open>data_size\<close>;
  a hash bucket is the chain of its entries, newest first.\<close>

record asm_ctx =
  text_section :: "u8 list"
  text_capacity :: nat
  data_section :: "u8 list"
  data_capacity :: nat
  symbols :: "symbol list"
  symbol_hash_table :: "nat \<Rightarrow> hash_entry list"
  fixups :: "nat \<Rightarrow> fixup"
  fixup_count :: nat
  current_address :: u64
  current_section :: int
  base_address :: u64
  listing_entries :: "listing_entry list"
  listing_active_index :: int
  listing_active :: bool
  emit_listing :: bool
  enable_forward_short_branches :: bool
  line_map :: "(u64 \<times> int) list"

definition zero_fixup :: fixup where
  "zero_fixup = \<lparr>fx_label = [], fx_location = 0, fx_instruction_type = Mov_family INST_MOV,
     fx_operand_index = 0, fx_size = 0, fx_is_rip_relative = False, fx_section = 0\<rparr>"

text \<open>\<open>asm_init\<close>: a zeroed context with both section buffers allocated.\<close>

definition asm_init :: asm_ctx where
  "asm_init = \<lparr>text_section = [], text_capacity = MAX_OUTPUT_SIZE, data_section = [],
     data_capacity = MAX_OUTPUT_SIZE, symbols = [], symbol_hash_table = (\<lambda>_. []),
     fixups = (\<lambda>_. zero_fixup), fixup_count = 0, current_address = 0, current_section = 0,
     base_address = 0x400000, listing_entries = [], listing_active_index = -1,
     listing_active = False, emit_listing = False, enable_forward_short_branches = True,
     line_map = []\<rparr>"

section \<open>Operations on the context\<close>

text \<open>
  An operation returns 0 or a negative status and leaves its effects in the context, also
  when it fails. The error value is the category that the diagnostic prints; an encoder
  that returns -1 without a diagnostic reports \<open>Silent_Error\<close>, and \<open>Memory_Fault\<close> marks an
  access outside a buffer, which has no meaning in C (the theorems show it cannot be reached).
\<close>

datatype asm_error =
  Memory_Error | Operand_Error | Encoding_Error | Constraint_Error | Symbol_Error
  | Fixup_Error | Directive_Error | IO_Error | Internal_Error | Silent_Error | Memory_Fault

datatype status = Done | Fail asm_error

type_synonym cmd = "asm_ctx \<Rightarrow> status \<times> asm_ctx"

text \<open>\<open>if (op(ctx) < 0) return -1;\<close> in sequence, and a guarded operation.\<close>

fun run_seq :: "cmd list \<Rightarrow> cmd" where
  "run_seq [] ctx = (Done, ctx)"
| "run_seq (c # cs) ctx =
     (case c ctx of (Done, ctx') \<Rightarrow> run_seq cs ctx' | (Fail e, ctx') \<Rightarrow> (Fail e, ctx'))"

definition emit_if :: "bool \<Rightarrow> cmd \<Rightarrow> cmd" where
  "emit_if b c ctx = (if b then c ctx else (Done, ctx))"

definition fail :: "asm_error \<Rightarrow> cmd" where
  "fail e ctx = (Fail e, ctx)"

text \<open>Calls whose status the caller ignores.\<close>

definition run_ignoring :: "cmd list \<Rightarrow> asm_ctx \<Rightarrow> asm_ctx" where
  "run_ignoring cs ctx = fold (\<lambda>c s. snd (c s)) cs ctx"

lemma run_seq_append:
  "run_seq (cs @ ds) ctx =
     (case run_seq cs ctx of (Done, ctx') \<Rightarrow> run_seq ds ctx' | (Fail e, ctx') \<Rightarrow> (Fail e, ctx'))"
  by (induction cs arbitrary: ctx) (auto split: status.splits prod.splits)

lemma run_ignoring_simps [simp]:
  "run_ignoring [] ctx = ctx"
  "run_ignoring (c # cs) ctx = run_ignoring cs (snd (c ctx))"
  by (simp_all add: run_ignoring_def)

end
