(* ===== verification/Symbols.thy ===== *)
theory Symbols
  imports Asm_Types
begin

text \<open>
  The symbol table (src/x86_64_asm.c): the FNV-1a hash table, the symbol array beside it, the
  operations that add, find and redefine symbols, the equ directive, and the operations that
  record fixups. The interface of the table is the locale \<open>symbol_map\<close>: a lookup function and
  two writers whose promises are those of a finite map; the hash table is its interpretation.
\<close>

section \<open>The hash table\<close>

definition fnv1a_hash :: "string \<Rightarrow> u32" where
  "fnv1a_hash str = foldl (\<lambda>hash c. (hash XOR of_char c) * 16777619) 2166136261 str"

definition hash_index :: "string \<Rightarrow> nat" where
  "hash_index name = unat (fnv1a_hash name mod HASH_TABLE_SIZE)"

definition symbol_hash_lookup :: "string \<Rightarrow> asm_ctx \<Rightarrow> hash_entry option" where
  "symbol_hash_lookup name ctx = find (\<lambda>e. he_name e = name) (symbol_hash_table ctx (hash_index name))"

definition symbol_hash_insert :: "string \<Rightarrow> u64 \<Rightarrow> bool \<Rightarrow> bool \<Rightarrow> int \<Rightarrow> cmd" where
  "symbol_hash_insert name address is_global is_external section ctx =
     (let idx = hash_index name;
          entry = \<lparr>he_name = copy_bounded_text MAX_LABEL_LENGTH name, he_address = address,
            he_is_resolved = True, he_is_global = is_global, he_is_external = is_external,
            he_section = section\<rparr>
      in (Done, ctx\<lparr>symbol_hash_table := (symbol_hash_table ctx)(idx := entry # symbol_hash_table ctx idx)\<rparr>))"

text \<open>Writing through the pointer a search returned: the first match changes.\<close>

fun update_first :: "('a \<Rightarrow> bool) \<Rightarrow> ('a \<Rightarrow> 'a) \<Rightarrow> 'a list \<Rightarrow> 'a list" where
  "update_first P f [] = []"
| "update_first P f (x # xs) = (if P x then f x # xs else x # update_first P f xs)"

definition update_entry :: "string \<Rightarrow> (hash_entry \<Rightarrow> hash_entry) \<Rightarrow> asm_ctx \<Rightarrow> asm_ctx" where
  "update_entry name f ctx =
     (let idx = hash_index name
      in ctx\<lparr>symbol_hash_table := (symbol_hash_table ctx)
           (idx := update_first (\<lambda>e. he_name e = name) f (symbol_hash_table ctx idx))\<rparr>)"

definition symbol_hash_update :: "string \<Rightarrow> u64 \<Rightarrow> bool \<Rightarrow> bool \<Rightarrow> int \<Rightarrow> cmd" where
  "symbol_hash_update name address is_global is_external section ctx =
     (case symbol_hash_lookup name ctx of
        Some _ \<Rightarrow> (Done, update_entry name
          (\<lambda>e. e\<lparr>he_address := address, he_is_resolved := True, he_is_global := is_global,
                 he_is_external := is_external, he_section := section\<rparr>) ctx)
      | None \<Rightarrow> (Fail Silent_Error, ctx))"

definition find_symbol_address :: "string \<Rightarrow> asm_ctx \<Rightarrow> u64 option" where
  "find_symbol_address name ctx =
     (case symbol_hash_lookup name ctx of
        Some entry \<Rightarrow> if he_is_resolved entry then Some (he_address entry) else None
      | None \<Rightarrow> None)"

definition symbol_exists :: "string \<Rightarrow> asm_ctx \<Rightarrow> bool" where
  "symbol_exists name ctx \<longleftrightarrow> symbol_hash_lookup name ctx \<noteq> None"

definition get_symbol_info :: "string \<Rightarrow> asm_ctx \<Rightarrow> hash_entry option" where
  "get_symbol_info name ctx = symbol_hash_lookup name ctx"

section \<open>The symbol array\<close>

definition find_symbol_entry :: "string \<Rightarrow> asm_ctx \<Rightarrow> symbol option" where
  "find_symbol_entry name ctx = find (\<lambda>s. sym_name s = name) (symbols ctx)"

definition add_symbol :: "string \<Rightarrow> u64 \<Rightarrow> bool \<Rightarrow> bool \<Rightarrow> int \<Rightarrow> cmd" where
  "add_symbol name address is_global is_external section ctx =
     (if MAX_SYMBOLS \<le> length (symbols ctx) then (Fail Symbol_Error, ctx)
      else case symbol_hash_lookup name ctx of
        Some existing \<Rightarrow>
          if \<not> he_is_resolved existing then
            (Done, (update_entry name
               (\<lambda>e. e\<lparr>he_address := address, he_is_resolved := True, he_is_global := is_global,
                      he_is_external := is_external, he_section := section\<rparr>) ctx)
               \<lparr>symbols := update_first (\<lambda>s. sym_name s = name)
                  (\<lambda>s. s\<lparr>sym_address := address, sym_is_resolved := True\<rparr>) (symbols ctx)\<rparr>)
          else (Fail Symbol_Error, ctx)
      | None \<Rightarrow>
          symbol_hash_insert name address is_global is_external section
            (ctx\<lparr>symbols := symbols ctx @
               [\<lparr>sym_name = copy_bounded_text MAX_LABEL_LENGTH name, sym_address = address,
                 sym_decl_line = 0, sym_decl_column = 1, sym_is_resolved = True,
                 sym_is_external = is_external, sym_is_global = is_global, sym_is_weak = False,
                 sym_is_hidden = False, sym_is_function = False, sym_section = section\<rparr>]\<rparr>))"

definition upsert_constant_symbol :: "string \<Rightarrow> u64 \<Rightarrow> cmd" where
  "upsert_constant_symbol name v ctx =
     (case symbol_hash_lookup name ctx of
        Some existing \<Rightarrow>
          if he_is_external existing then (Fail Symbol_Error, ctx)
          else (case symbol_hash_update name v (he_is_global existing) False (-1) ctx of
              (Fail e, ctx') \<Rightarrow> (Fail e, ctx')
            | (Done, ctx') \<Rightarrow>
                if find_symbol_entry name ctx' \<noteq> None then
                  (Done, ctx'\<lparr>symbols := update_first (\<lambda>s. sym_name s = name)
                     (\<lambda>s. s\<lparr>sym_address := v, sym_is_resolved := True,
                            sym_is_external := False, sym_section := -1\<rparr>) (symbols ctx')\<rparr>)
                else add_symbol name v False False (-1) ctx')
      | None \<Rightarrow> add_symbol name v False False (-1) ctx)"

text \<open>One equ directive of \<open>resolve_equ_symbol_values\<close>, then the loop over the instructions.\<close>

definition resolve_equ_one :: "parsed_instruction \<Rightarrow> cmd" where
  "resolve_equ_one inst ctx =
     (if inst_type inst \<noteq> Directive_family INST_EQU \<or> \<not> inst_has_label inst
        \<or> inst_operands inst = [] then (Done, ctx)
      else let op = hd (inst_operands inst) in
        if op_type op = OPERAND_IMM then
          upsert_constant_symbol (inst_label inst) (op_immediate op) ctx
        else if op_type op = OPERAND_LABEL then
          (case find_symbol_address (op_label op) ctx of
             None \<Rightarrow> (Fail Symbol_Error, ctx)
           | Some lhs \<Rightarrow> upsert_constant_symbol (inst_label inst) lhs ctx)
        else if op_type op = OPERAND_LABEL_DIFF then
          (case find_symbol_address (op_label op) ctx of
             None \<Rightarrow> (Fail Symbol_Error, ctx)
           | Some lhs \<Rightarrow>
              (case find_symbol_address (op_label_rhs op) ctx of
                 None \<Rightarrow> (Fail Symbol_Error, ctx)
               | Some rhs \<Rightarrow> upsert_constant_symbol (inst_label inst) (lhs - rhs) ctx))
        else (Fail Directive_Error, ctx))"

definition resolve_equ_symbol_values :: "parsed_instruction list \<Rightarrow> cmd" where
  "resolve_equ_symbol_values insts = run_seq (map resolve_equ_one insts)"

definition rewrite_constant_operand :: "asm_ctx \<Rightarrow> operand \<Rightarrow> operand" where
  "rewrite_constant_operand ctx op =
     (if op_type op \<noteq> OPERAND_LABEL then op
      else case get_symbol_info (op_label op) ctx of
        None \<Rightarrow> op
      | Some entry \<Rightarrow>
          if \<not> he_is_resolved entry \<or> he_section entry \<noteq> -1 then op
          else op\<lparr>op_type := OPERAND_IMM, op_immediate := he_address entry\<rparr>)"

definition rewrite_constant_label_operands ::
  "asm_ctx \<Rightarrow> parsed_instruction \<Rightarrow> parsed_instruction" where
  "rewrite_constant_label_operands ctx inst =
     inst\<lparr>inst_operands := map (rewrite_constant_operand ctx) (inst_operands inst)\<rparr>"

fun apply_symbol_attributes :: "string list \<Rightarrow> bool \<Rightarrow> bool \<Rightarrow> cmd" where
  "apply_symbol_attributes [] mark_weak mark_hidden ctx = (Done, ctx)"
| "apply_symbol_attributes (attr # attrs) mark_weak mark_hidden ctx =
     (if find_symbol_entry attr ctx = None then (Fail Symbol_Error, ctx)
      else apply_symbol_attributes attrs mark_weak mark_hidden
        (ctx\<lparr>symbols := update_first (\<lambda>s. sym_name s = attr)
           (\<lambda>s. s\<lparr>sym_is_weak := (mark_weak \<or> sym_is_weak s),
                  sym_is_hidden := (mark_hidden \<or> sym_is_hidden s)\<rparr>) (symbols ctx)\<rparr>))"

section \<open>Recording fixups\<close>

text \<open>A recorded fixup overwrites the named fields of its slot and leaves the others as the
  slot's previous use left them.\<close>

definition add_fixup :: "string \<Rightarrow> u64 \<Rightarrow> int \<Rightarrow> instruction_type \<Rightarrow> cmd" where
  "add_fixup label location sz ty ctx =
     (if MAX_SYMBOLS \<le> fixup_count ctx then (Fail Fixup_Error, ctx)
      else let n = fixup_count ctx in
        (Done, ctx\<lparr>fixups := (fixups ctx)(n := (fixups ctx n)
           \<lparr>fx_label := copy_bounded_text MAX_LABEL_LENGTH label, fx_location := location,
            fx_size := sz, fx_instruction_type := ty, fx_is_rip_relative := False,
            fx_section := 0\<rparr>), fixup_count := Suc n\<rparr>))"

definition add_fixup_rip_relative :: "string \<Rightarrow> u64 \<Rightarrow> int \<Rightarrow> cmd" where
  "add_fixup_rip_relative label location section ctx =
     (if MAX_SYMBOLS \<le> fixup_count ctx then (Fail Fixup_Error, ctx)
      else let n = fixup_count ctx in
        (Done, ctx\<lparr>fixups := (fixups ctx)(n := (fixups ctx n)
           \<lparr>fx_label := copy_bounded_text MAX_LABEL_LENGTH label, fx_location := location,
            fx_size := 4, fx_instruction_type := Mov_family INST_MOV, fx_is_rip_relative := True,
            fx_section := section\<rparr>), fixup_count := Suc n\<rparr>))"

section \<open>The symbol table as a finite map\<close>

text \<open>
  What the rest of the assembler relies on: a table read by name and two writers, one that
  binds a name and one that rebinds a bound name. \<open>fits\<close> is the length bound of the name
  buffers.
\<close>

locale symbol_map =
  fixes lookup :: "'s \<Rightarrow> string \<Rightarrow> 'e option"
    and bind_new :: "string \<Rightarrow> 'e \<Rightarrow> 's \<Rightarrow> 's"
    and rebind :: "string \<Rightarrow> 'e \<Rightarrow> 's \<Rightarrow> 's"
    and fits :: "string \<Rightarrow> bool"
  assumes lookup_bind_new: "fits n \<Longrightarrow> lookup (bind_new n e s) = (lookup s)(n \<mapsto> e)"
    and lookup_rebind: "fits n \<Longrightarrow> lookup s n \<noteq> None \<Longrightarrow> lookup (rebind n e s) = (lookup s)(n \<mapsto> e)"
begin

text \<open>The redefinition policy of the table: bind an unbound name, refuse a bound one.\<close>

definition declare_name :: "string \<Rightarrow> 'e \<Rightarrow> 's \<Rightarrow> 's option" where
  "declare_name n e s = (if lookup s n = None then Some (bind_new n e s) else None)"

lemma declare_name_extends:
  assumes "fits n" "declare_name n e s = Some s'"
  shows "lookup s \<subseteq>\<^sub>m lookup s'" "lookup s' n = Some e" "dom (lookup s') = insert n (dom (lookup s))"
  using assms by (auto simp: declare_name_def lookup_bind_new map_le_def split: if_splits)

lemma declare_name_once:
  "fits n \<Longrightarrow> declare_name n e s = Some s' \<Longrightarrow> declare_name n e' s' = None"
  by (auto simp: declare_name_def lookup_bind_new split: if_splits)

text \<open>Declaring a list of names with their entries gives the map of the list.\<close>

fun declare_all :: "(string \<times> 'e) list \<Rightarrow> 's \<Rightarrow> 's option" where
  "declare_all [] s = Some s"
| "declare_all ((n, e) # ps) s =
     (case declare_name n e s of None \<Rightarrow> None | Some s' \<Rightarrow> declare_all ps s')"

lemma declare_all_fresh:
  assumes "\<forall>p \<in> set ps. fits (fst p)" "declare_all ps s = Some s'" "n \<in> dom (lookup s)"
  shows "n \<notin> fst ` set ps"
  using assms
proof (induction ps arbitrary: s)
  case (Cons p ps)
  obtain k e where p: "p = (k, e)" by (cases p)
  with Cons.prems obtain s1 where s1: "declare_name k e s = Some s1" "declare_all ps s1 = Some s'"
    by (auto split: option.splits)
  with Cons.prems p have "k \<noteq> n" "n \<in> dom (lookup s1)"
    by (auto simp: declare_name_def lookup_bind_new split: if_splits)
  with Cons.IH [OF _ s1(2)] Cons.prems(1) p show ?case by auto
qed simp

lemma declare_all_lookup:
  assumes "\<forall>p \<in> set ps. fits (fst p)" "declare_all ps s = Some s'"
  shows "lookup s' = lookup s ++ map_of ps"
  using assms
proof (induction ps arbitrary: s)
  case (Cons p ps)
  obtain n e where p: "p = (n, e)" by (cases p)
  with Cons.prems obtain s1 where s1: "declare_name n e s = Some s1" "declare_all ps s1 = Some s'"
    by (auto split: option.splits)
  have fit: "fits n" "\<forall>p \<in> set ps. fits (fst p)" using Cons.prems p by auto
  from Cons.IH [OF fit(2) s1(2)] have "lookup s' = lookup s1 ++ map_of ps" .
  moreover have "n \<notin> fst ` set ps"
    using declare_all_fresh [OF fit(2) s1(2)] declare_name_extends(2) [OF fit(1) s1(1)] by blast
  then have "map_of ps n = None" by (simp add: map_of_eq_None_iff)
  moreover have "lookup s1 = (lookup s)(n \<mapsto> e)"
    using s1(1) fit(1) by (auto simp: declare_name_def lookup_bind_new split: if_splits)
  ultimately show ?case
    using p by (auto simp: map_add_def fun_eq_iff split: option.splits)
qed simp

end

section \<open>The hash table implements the map\<close>

lemma find_update_first:
  assumes "\<And>e. P (f e) = P e" "find P xs = Some e"
  shows "find P (update_first P f xs) = Some (f e)"
  using assms(2) by (induction xs) (auto simp: assms(1) split: if_splits)

lemma find_update_first_other:
  assumes "\<And>e. P e \<Longrightarrow> \<not> Q e" "\<And>e. P e \<Longrightarrow> \<not> Q (f e)"
  shows "find Q (update_first P f xs) = find Q xs"
  by (induction xs) (auto simp: assms)

lemma update_first_absent: "find P xs = None \<Longrightarrow> update_first P f xs = xs"
  by (induction xs) (auto split: if_splits)

lemma map_update_first: "(\<And>x. g (f x) = g x) \<Longrightarrow> map g (update_first P f xs) = map g xs"
  by (induction xs) auto

lemma find_name_some: "find (\<lambda>e. g e = n) xs = Some e \<Longrightarrow> g e = n \<and> e \<in> set xs"
  by (auto simp: find_Some_iff)

lemma find_name_None: "find (\<lambda>e. g e = n) xs = None \<longleftrightarrow> n \<notin> g ` set xs"
  by (auto simp: find_None_iff)

definition name_fits :: "string \<Rightarrow> bool" where
  "name_fits n \<longleftrightarrow> length n < MAX_LABEL_LENGTH"

lemma copy_name_fits [simp]: "name_fits n \<Longrightarrow> copy_bounded_text MAX_LABEL_LENGTH n = n"
  by (simp add: name_fits_def copy_bounded_text_id)

lemma symbol_hash_lookup_name: "symbol_hash_lookup n ctx = Some e \<Longrightarrow> he_name e = n"
  unfolding symbol_hash_lookup_def by (blast dest: find_name_some)

lemma symbol_hash_insert_done [simp]: "fst (symbol_hash_insert n a g x sec ctx) = Done"
  by (simp add: symbol_hash_insert_def Let_def)

lemma lookup_insert:
  assumes "name_fits n"
  shows "symbol_hash_lookup m (snd (symbol_hash_insert n a g x sec ctx)) =
    (if m = n then Some \<lparr>he_name = n, he_address = a, he_is_resolved = True, he_is_global = g,
       he_is_external = x, he_section = sec\<rparr> else symbol_hash_lookup m ctx)"
  using assms by (auto simp: symbol_hash_insert_def symbol_hash_lookup_def Let_def)

lemma lookup_update_entry:
  assumes "\<And>e. he_name (f e) = he_name e" "symbol_hash_lookup n ctx = Some e"
  shows "symbol_hash_lookup m (update_entry n f ctx) =
    (if m = n then Some (f e) else symbol_hash_lookup m ctx)"
proof (cases "m = n")
  case True
  then show ?thesis
    using assms by (simp add: symbol_hash_lookup_def update_entry_def Let_def find_update_first)
next
  case False
  then show ?thesis
    using assms(1)
    by (auto simp: symbol_hash_lookup_def update_entry_def Let_def intro!: find_update_first_other)
qed

text \<open>The value a name is bound to: address, visibility flags and section.\<close>

type_synonym sym_value = "u64 \<times> bool \<times> bool \<times> int"

definition entry_value :: "hash_entry \<Rightarrow> sym_value" where
  "entry_value e = (he_address e, he_is_global e, he_is_external e, he_section e)"

definition sym_view :: "asm_ctx \<Rightarrow> string \<Rightarrow> sym_value option" where
  "sym_view ctx n = map_option entry_value (symbol_hash_lookup n ctx)"

definition insert_value :: "string \<Rightarrow> sym_value \<Rightarrow> asm_ctx \<Rightarrow> asm_ctx" where
  "insert_value n v ctx = (case v of (a, g, x, sec) \<Rightarrow> snd (symbol_hash_insert n a g x sec ctx))"

definition update_value :: "string \<Rightarrow> sym_value \<Rightarrow> asm_ctx \<Rightarrow> asm_ctx" where
  "update_value n v ctx = (case v of (a, g, x, sec) \<Rightarrow> snd (symbol_hash_update n a g x sec ctx))"

lemma sym_view_insert:
  "name_fits n \<Longrightarrow> sym_view (insert_value n v ctx) = (sym_view ctx)(n \<mapsto> v)"
  by (cases v) (auto simp: sym_view_def insert_value_def lookup_insert entry_value_def)

lemma symbol_hash_update_done:
  "symbol_hash_lookup n ctx \<noteq> None \<Longrightarrow> fst (symbol_hash_update n a g x sec ctx) = Done"
  by (auto simp: symbol_hash_update_def)

lemma lookup_update:
  "symbol_hash_lookup n ctx = Some e \<Longrightarrow>
   symbol_hash_lookup m (snd (symbol_hash_update n a g x sec ctx)) =
     (if m = n then Some (e\<lparr>he_address := a, he_is_resolved := True, he_is_global := g,
        he_is_external := x, he_section := sec\<rparr>) else symbol_hash_lookup m ctx)"
  by (simp add: symbol_hash_update_def lookup_update_entry)

lemma sym_view_update:
  "sym_view ctx n \<noteq> None \<Longrightarrow> sym_view (update_value n v ctx) = (sym_view ctx)(n \<mapsto> v)"
  by (cases v) (auto simp: sym_view_def update_value_def lookup_update entry_value_def)

interpretation symtab: symbol_map sym_view insert_value update_value name_fits
  by unfold_locales (simp_all add: sym_view_insert sym_view_update)

end
