(* ===== verification/Emission.thy ===== *)
theory Emission
  imports Symbols
begin

text \<open>
  The byte emitters and the listing recorder of src/x86_64_encoding_core.c, and the contracts
  the instruction encoders are proved against: what any emission may change (\<open>emitter\<close>),
  which exact bytes an emission appends when there is room (\<open>emits\<close>), and that fixups stay
  inside the emitted text (\<open>safe\<close>). Each contract is closed under sequencing.
\<close>

section \<open>Listing\<close>

definition listing_start_instruction :: "int \<Rightarrow> string \<Rightarrow> asm_ctx \<Rightarrow> asm_ctx" where
  "listing_start_instruction line_number source ctx =
     (if \<not> emit_listing ctx then ctx
      else ctx\<lparr>listing_entries := listing_entries ctx @
               [\<lparr>le_line_number = (if 0 < line_number then line_number else 1),
                 le_address = current_address ctx, le_bytes = [],
                 le_source_line = copy_bounded_text MAX_LINE_LENGTH source\<rparr>],
             listing_active_index := int (length (listing_entries ctx)),
             listing_active := True\<rparr>)"

definition listing_emit_byte :: "u8 \<Rightarrow> asm_ctx \<Rightarrow> asm_ctx" where
  "listing_emit_byte byte ctx =
     (if \<not> emit_listing ctx \<or> \<not> listing_active ctx then ctx
      else if listing_active_index ctx < 0
           \<or> int (length (listing_entries ctx)) \<le> listing_active_index ctx then ctx
      else let i = nat (listing_active_index ctx); entry = listing_entries ctx ! i in
        if length (le_bytes entry) < 16 then
          ctx\<lparr>listing_entries := (listing_entries ctx)
                [i := entry\<lparr>le_bytes := le_bytes entry @ [byte]\<rparr>]\<rparr>
        else ctx)"

definition listing_end_instruction :: "asm_ctx \<Rightarrow> asm_ctx" where
  "listing_end_instruction ctx =
     (if \<not> emit_listing ctx \<or> \<not> listing_active ctx then ctx
      else let idx = listing_active_index ctx; n = int (length (listing_entries ctx)) in
        (if 0 \<le> idx \<and> idx < n \<and> le_bytes (listing_entries ctx ! nat idx) = [] \<and> idx = n - 1
         then ctx\<lparr>listing_entries := butlast (listing_entries ctx)\<rparr> else ctx)
        \<lparr>listing_active := False, listing_active_index := -1\<rparr>)"

section \<open>Emitting bytes\<close>

definition emit_byte :: "u8 \<Rightarrow> cmd" where
  "emit_byte byte ctx =
     (if current_section ctx = 1 then
        if data_capacity ctx \<le> length (data_section ctx) then (Fail Memory_Error, ctx)
        else (Done, listing_emit_byte byte
               (ctx\<lparr>data_section := data_section ctx @ [byte],
                    current_address := current_address ctx + 1\<rparr>))
      else if text_capacity ctx \<le> length (text_section ctx) then (Fail Memory_Error, ctx)
      else (Done, listing_emit_byte byte
             (ctx\<lparr>text_section := text_section ctx @ [byte],
                  current_address := current_address ctx + 1\<rparr>)))"

definition emit_bytes :: "u8 list \<Rightarrow> cmd" where
  "emit_bytes bytes = run_seq (map emit_byte bytes)"

definition emit_word :: "u16 \<Rightarrow> cmd" where
  "emit_word word = emit_bytes (le16 word)"

definition emit_dword :: "u32 \<Rightarrow> cmd" where
  "emit_dword dword = emit_bytes (le32 dword)"

definition emit_qword :: "u64 \<Rightarrow> cmd" where
  "emit_qword qword = emit_bytes (le64 qword)"

definition emit_le16 :: "u16 \<Rightarrow> cmd" where
  "emit_le16 val = emit_word val"

definition emit_le32 :: "u32 \<Rightarrow> cmd" where
  "emit_le32 val = emit_dword val"

definition emit_le64 :: "u64 \<Rightarrow> cmd" where
  "emit_le64 val = emit_qword val"

section \<open>What an emission may change\<close>

text \<open>
  \<open>grows s t\<close>: from \<open>s\<close> to \<open>t\<close> bytes were appended to the current section only, the
  address advanced by their number, no buffer went over its capacity, fixups were only added,
  and every field an encoder has no business with is unchanged.
\<close>

definition same_config :: "asm_ctx \<Rightarrow> asm_ctx \<Rightarrow> bool" where
  "same_config s t \<longleftrightarrow>
     symbols t = symbols s \<and> symbol_hash_table t = symbol_hash_table s \<and> base_address t = base_address s \<and>
     text_capacity t = text_capacity s \<and> data_capacity t = data_capacity s \<and>
     current_section t = current_section s \<and> emit_listing t = emit_listing s \<and>
     listing_active t = listing_active s \<and> listing_active_index t = listing_active_index s \<and>
     length (listing_entries t) = length (listing_entries s) \<and>
     enable_forward_short_branches t = enable_forward_short_branches s"

definition appended :: "asm_ctx \<Rightarrow> asm_ctx \<Rightarrow> bool" where
  "appended s t \<longleftrightarrow> (\<exists>bs. current_address t = current_address s + of_nat (length bs) \<and>
     (if current_section s = 1
      then text_section t = text_section s \<and> data_section t = data_section s @ bs
      else text_section t = text_section s @ bs \<and> data_section t = data_section s))"

definition within_capacity :: "asm_ctx \<Rightarrow> asm_ctx \<Rightarrow> bool" where
  "within_capacity s t \<longleftrightarrow>
     length (text_section t) \<le> max (length (text_section s)) (text_capacity s) \<and>
     length (data_section t) \<le> max (length (data_section s)) (data_capacity s)"

definition fixups_extended :: "asm_ctx \<Rightarrow> asm_ctx \<Rightarrow> bool" where
  "fixups_extended s t \<longleftrightarrow> fixup_count s \<le> fixup_count t \<and>
     fixup_count t \<le> max (fixup_count s) MAX_SYMBOLS \<and>
     (\<forall>i < fixup_count s. fixups t i = fixups s i)"

definition grows :: "asm_ctx \<Rightarrow> asm_ctx \<Rightarrow> bool" where
  "grows s t \<longleftrightarrow> same_config s t \<and> appended s t \<and> within_capacity s t \<and> fixups_extended s t"

lemmas grows_defs = grows_def same_config_def within_capacity_def fixups_extended_def

lemma appended_refl [simp]: "appended s s"
  unfolding appended_def by (rule exI [of _ "[]"]) simp

lemma appended_trans:
  assumes "appended s t" "appended t u" "current_section t = current_section s"
  shows "appended s u"
proof -
  from assms(1) obtain bs where bs: "current_address t = current_address s + of_nat (length bs)"
    "if current_section s = 1 then text_section t = text_section s \<and> data_section t = data_section s @ bs
     else text_section t = text_section s @ bs \<and> data_section t = data_section s"
    by (auto simp: appended_def)
  from assms(2,3) obtain cs where cs: "current_address u = current_address t + of_nat (length cs)"
    "if current_section s = 1 then text_section u = text_section t \<and> data_section u = data_section t @ cs
     else text_section u = text_section t @ cs \<and> data_section u = data_section t"
    by (auto simp: appended_def)
  show ?thesis unfolding appended_def
    using bs cs by (intro exI [of _ "bs @ cs"]) (auto split: if_splits)
qed

lemma grows_refl [simp]: "grows s s"
  by (simp add: grows_defs)

lemma grows_trans: "grows s t \<Longrightarrow> grows t u \<Longrightarrow> grows s u"
  by (auto simp: grows_defs max_def intro: appended_trans split: if_splits)

section \<open>The emission contract\<close>

definition emitter :: "cmd \<Rightarrow> bool" where
  "emitter c \<longleftrightarrow> (\<forall>ctx. grows ctx (snd (c ctx)))"

lemma emitterI: "(\<And>ctx. grows ctx (snd (c ctx))) \<Longrightarrow> emitter c"
  by (simp add: emitter_def)

lemma emitterD: "emitter c \<Longrightarrow> c ctx = (r, ctx') \<Longrightarrow> grows ctx ctx'"
  by (metis emitter_def snd_conv)

lemma emitter_run_seq [emitter_intro]: "list_all emitter cs \<Longrightarrow> emitter (run_seq cs)"
proof (induction cs)
  case (Cons c cs)
  show ?case
  proof (rule emitterI)
    fix ctx
    obtain r ctx1 where c: "c ctx = (r, ctx1)" by fastforce
    with Cons.prems have "grows ctx ctx1" by (auto dest: emitterD)
    moreover from Cons have "grows ctx1 (snd (run_seq cs ctx1))" by (auto simp: emitter_def)
    ultimately show "grows ctx (snd (run_seq (c # cs) ctx))"
      using c by (auto split: status.splits intro: grows_trans)
  qed
qed (simp add: emitter_def)

lemma emitter_fail [emitter_intro]: "emitter (fail e)"
  by (simp add: emitter_def fail_def)

lemma emitter_emit_if [emitter_intro]: "emitter c \<Longrightarrow> emitter (emit_if b c)"
  by (simp add: emitter_def emit_if_def)

lemma emitter_if [emitter_intro]: "emitter c \<Longrightarrow> emitter d \<Longrightarrow> emitter (if b then c else d)"
  by simp

lemma emitter_dep: "(\<And>s. emitter (c s)) \<Longrightarrow> emitter (\<lambda>ctx. c ctx ctx)"
  by (simp add: emitter_def)

lemma listing_emit_byte_fields [simp]:
  "text_section (listing_emit_byte b s) = text_section s"
  "data_section (listing_emit_byte b s) = data_section s"
  "text_capacity (listing_emit_byte b s) = text_capacity s"
  "data_capacity (listing_emit_byte b s) = data_capacity s"
  "current_address (listing_emit_byte b s) = current_address s"
  "current_section (listing_emit_byte b s) = current_section s"
  "base_address (listing_emit_byte b s) = base_address s"
  "symbols (listing_emit_byte b s) = symbols s"
  "symbol_hash_table (listing_emit_byte b s) = symbol_hash_table s"
  "fixups (listing_emit_byte b s) = fixups s"
  "fixup_count (listing_emit_byte b s) = fixup_count s"
  "emit_listing (listing_emit_byte b s) = emit_listing s"
  "listing_active (listing_emit_byte b s) = listing_active s"
  "listing_active_index (listing_emit_byte b s) = listing_active_index s"
  "length (listing_entries (listing_emit_byte b s)) = length (listing_entries s)"
  "enable_forward_short_branches (listing_emit_byte b s) = enable_forward_short_branches s"
  by (simp_all add: listing_emit_byte_def Let_def)

lemma emitter_emit_byte [emitter_intro]: "emitter (emit_byte b)"
proof (rule emitterI)
  fix s
  show "grows s (snd (emit_byte b s))"
    unfolding grows_def
  proof (intro conjI)
    show "appended s (snd (emit_byte b s))"
      unfolding appended_def emit_byte_def
      by (cases "fst (emit_byte b s) = Done")
        (auto simp: emit_byte_def intro: exI [of _ "[b]"] split: if_splits)
  qed (auto simp: emit_byte_def same_config_def within_capacity_def fixups_extended_def)
qed

lemma emitter_emit_bytes [emitter_intro]: "emitter (emit_bytes bs)"
  unfolding emit_bytes_def
  by (rule emitter_run_seq) (simp add: list_all_iff emitter_emit_byte)

lemma emitter_emit_le [emitter_intro]:
  "emitter (emit_le16 v)" "emitter (emit_le32 w)" "emitter (emit_le64 x)"
  by (simp_all add: emit_le16_def emit_le32_def emit_le64_def emit_word_def emit_dword_def
      emit_qword_def emitter_emit_bytes)

lemma emitter_add_fixup_rip_relative [emitter_intro]:
  "emitter (add_fixup_rip_relative l loc sec)"
  by (rule emitterI)
    (auto simp: add_fixup_rip_relative_def grows_defs appended_def Let_def intro: exI [of _ "[]"])

lemma emitter_add_fixup [emitter_intro]: "emitter (add_fixup l loc sz ty)"
  by (rule emitterI)
    (auto simp: add_fixup_def grows_defs appended_def Let_def intro: exI [of _ "[]"])

section \<open>Exact bytes\<close>

definition put_byte :: "u8 \<Rightarrow> asm_ctx \<Rightarrow> asm_ctx" where
  "put_byte b ctx = listing_emit_byte b
     (ctx\<lparr>text_section := text_section ctx @ [b], current_address := current_address ctx + 1\<rparr>)"

definition put_text :: "u8 list \<Rightarrow> asm_ctx \<Rightarrow> asm_ctx" where
  "put_text bs ctx = fold put_byte bs ctx"

lemma put_text_simps [simp]:
  "put_text [] s = s"
  "put_text (b # bs) s = put_text bs (put_byte b s)"
  "put_text (as @ bs) s = put_text bs (put_text as s)"
  by (simp_all add: put_text_def)

lemma put_byte_fields [simp]:
  "text_section (put_byte b s) = text_section s @ [b]"
  "current_address (put_byte b s) = current_address s + 1"
  "current_section (put_byte b s) = current_section s"
  "text_capacity (put_byte b s) = text_capacity s"
  "symbols (put_byte b s) = symbols s"
  "symbol_hash_table (put_byte b s) = symbol_hash_table s"
  "fixup_count (put_byte b s) = fixup_count s"
  "fixups (put_byte b s) = fixups s"
  "base_address (put_byte b s) = base_address s"
  by (simp_all add: put_byte_def)

lemma put_text_fields [simp]:
  "text_section (put_text bs s) = text_section s @ bs"
  "current_section (put_text bs s) = current_section s"
  "text_capacity (put_text bs s) = text_capacity s"
  "symbols (put_text bs s) = symbols s"
  "symbol_hash_table (put_text bs s) = symbol_hash_table s"
  "fixup_count (put_text bs s) = fixup_count s"
  "fixups (put_text bs s) = fixups s"
  "base_address (put_text bs s) = base_address s"
  by (induction bs arbitrary: s) simp_all

lemma put_text_address [simp]:
  "current_address (put_text bs s) = current_address s + of_nat (length bs)"
  by (induction bs arbitrary: s) (simp_all add: algebra_simps)

text \<open>There is room for \<open>n\<close> more bytes of text.\<close>

definition room :: "nat \<Rightarrow> asm_ctx \<Rightarrow> bool" where
  "room n s \<longleftrightarrow> current_section s \<noteq> 1 \<and> length (text_section s) + n \<le> text_capacity s"

definition emits :: "cmd \<Rightarrow> u8 list \<Rightarrow> bool" where
  "emits c bs \<longleftrightarrow> (\<forall>s. room (length bs) s \<longrightarrow> c s = (Done, put_text bs s))"

lemma emitsI: "(\<And>s. room (length bs) s \<Longrightarrow> c s = (Done, put_text bs s)) \<Longrightarrow> emits c bs"
  by (simp add: emits_def)

lemma emitsD: "emits c bs \<Longrightarrow> room (length bs) s \<Longrightarrow> c s = (Done, put_text bs s)"
  by (simp add: emits_def)

lemma emits_emit_byte [emits_intro]: "emits (emit_byte b) [b]"
  by (simp add: emits_def room_def emit_byte_def put_byte_def)

lemma emits_Nil [emits_intro]: "emits (run_seq []) []"
  by (simp add: emits_def)

lemma emits_Cons [emits_intro]:
  assumes "emits c as" "emits (run_seq cs) bs"
  shows "emits (run_seq (c # cs)) (as @ bs)"
  using assms by (auto simp: emits_def room_def)

lemma emits_emit_if [emits_intro]:
  "(b \<Longrightarrow> emits c bs) \<Longrightarrow> emits (emit_if b c) (if b then bs else [])"
  by (simp add: emits_def emit_if_def)

lemma emits_if [emits_intro]:
  "(b \<Longrightarrow> emits c as) \<Longrightarrow> (\<not> b \<Longrightarrow> emits d bs) \<Longrightarrow> emits (if b then c else d) (if b then as else bs)"
  by simp

lemma emits_emit_bytes [emits_intro]: "emits (emit_bytes bs) bs"
proof (induction bs)
  case (Cons b bs)
  from emits_Cons [OF emits_emit_byte [of b] Cons.IH [unfolded emit_bytes_def]]
  show ?case by (simp add: emit_bytes_def del: run_seq.simps)
qed (simp add: emit_bytes_def emits_def)

lemma emits_emit_le [emits_intro]:
  "emits (emit_le16 v) (le16 v)" "emits (emit_le32 w) (le32 w)" "emits (emit_le64 x) (le64 x)"
  by (simp_all add: emit_le16_def emit_le32_def emit_le64_def emit_word_def emit_dword_def
      emit_qword_def emits_emit_bytes)

text \<open>Turning a computed byte list into the stated one.\<close>

lemma emits_eq: "emits c as \<Longrightarrow> as = bs \<Longrightarrow> emits c bs"
  by simp

lemma emits_text:
  "emits c bs \<Longrightarrow> room (length bs) s \<Longrightarrow>
   fst (c s) = Done \<and> text_section (snd (c s)) = text_section s @ bs"
  by (simp add: emits_def)

section \<open>Fixups stay inside the text\<close>

text \<open>
  The state of a text pass: the address is the base plus the number of bytes emitted, the
  buffer fits, every recorded fixup names four bytes already emitted, and the fixups are in
  the order of their bytes and do not overlap.
\<close>

definition anchored :: "asm_ctx \<Rightarrow> bool" where
  "anchored s \<longleftrightarrow> current_address s = base_address s + of_nat (length (text_section s))"

definition fixup_offset :: "asm_ctx \<Rightarrow> fixup \<Rightarrow> nat" where
  "fixup_offset s f = unat (fx_location f - base_address s)"

definition fixup_in_text :: "asm_ctx \<Rightarrow> fixup \<Rightarrow> bool" where
  "fixup_in_text s f \<longleftrightarrow> fx_size f = 4 \<and> fixup_offset s f + 4 \<le> length (text_section s)"

definition text_wf :: "asm_ctx \<Rightarrow> bool" where
  "text_wf s \<longleftrightarrow> current_section s \<noteq> 1 \<and> anchored s \<and>
     text_capacity s \<le> MAX_OUTPUT_SIZE \<and> length (text_section s) \<le> text_capacity s \<and>
     fixup_count s \<le> MAX_SYMBOLS \<and> (\<forall>i < fixup_count s. fixup_in_text s (fixups s i)) \<and>
     (\<forall>j < fixup_count s. \<forall>i < j. fixup_offset s (fixups s i) + 4 \<le> fixup_offset s (fixups s j))"

text \<open>How a command may carry a text on: by more bytes and more fixups, each new fixup inside the
  new bytes.\<close>

definition text_extends :: "asm_ctx \<Rightarrow> asm_ctx \<Rightarrow> bool" where
  "text_extends s t \<longleftrightarrow> text_wf t \<and> base_address t = base_address s \<and>
     (\<exists>more. text_section t = text_section s @ more) \<and> fixup_count s \<le> fixup_count t \<and>
     (\<forall>i < fixup_count s. fixups t i = fixups s i) \<and>
     (\<forall>i. fixup_count s \<le> i \<and> i < fixup_count t \<longrightarrow>
        length (text_section s) \<le> fixup_offset t (fixups t i))"

lemma text_extends_refl: "text_wf s \<Longrightarrow> text_extends s s"
  by (simp add: text_extends_def)

lemma fixup_offset_base: "base_address t = base_address s \<Longrightarrow> fixup_offset t f = fixup_offset s f"
  by (simp add: fixup_offset_def)

lemma text_extends_trans:
  assumes st: "text_extends s t" and tu: "text_extends t u"
  shows "text_extends s u"
proof -
  have base: "base_address u = base_address t" "base_address t = base_address s"
    using st tu unfolding text_extends_def by blast+
  obtain m1 m2 where texts: "text_section u = text_section t @ m2" "text_section t = text_section s @ m1"
    using st tu unfolding text_extends_def by blast
  have n: "fixup_count s \<le> fixup_count t" "fixup_count t \<le> fixup_count u"
    using st tu unfolding text_extends_def by blast+
  have old: "fixups t i = fixups s i" if "i < fixup_count s" for i
    using st that unfolding text_extends_def by blast
  have old': "fixups u i = fixups t i" if "i < fixup_count t" for i
    using tu that unfolding text_extends_def by blast
  have "length (text_section s) \<le> fixup_offset u (fixups u i)"
    if i: "fixup_count s \<le> i" "i < fixup_count u" for i
  proof (cases "i < fixup_count t")
    case True
    with st i have "length (text_section s) \<le> fixup_offset t (fixups t i)"
      unfolding text_extends_def by blast
    with True show ?thesis by (simp add: old' fixup_offset_base [OF base(1)])
  next
    case False
    with tu i have "length (text_section t) \<le> fixup_offset u (fixups u i)"
      unfolding text_extends_def by (meson not_less)
    then show ?thesis by (simp add: texts(2))
  qed
  moreover have "fixups u i = fixups s i" if "i < fixup_count s" for i
    using old old' n(1) that by simp
  ultimately show ?thesis
    using tu n base texts unfolding text_extends_def by simp
qed

definition safe :: "cmd \<Rightarrow> bool" where
  "safe c \<longleftrightarrow> (\<forall>s t. text_wf s \<and> c s = (Done, t) \<longrightarrow> text_extends s t)"

named_theorems safe_intro

lemma safeI: "(\<And>s t. text_wf s \<Longrightarrow> c s = (Done, t) \<Longrightarrow> text_extends s t) \<Longrightarrow> safe c"
  unfolding safe_def by blast

lemma safe_extends: "safe c \<Longrightarrow> text_wf s \<Longrightarrow> c s = (Done, t) \<Longrightarrow> text_extends s t"
  unfolding safe_def by blast

lemma safeD: "safe c \<Longrightarrow> text_wf s \<Longrightarrow> c s = (Done, t) \<Longrightarrow> text_wf t"
  unfolding safe_def text_extends_def by blast

lemma safe_run_seq [safe_intro]: "list_all safe cs \<Longrightarrow> safe (run_seq cs)"
proof (induction cs)
  case (Cons c cs)
  then have c: "safe c" and cs: "safe (run_seq cs)" by simp_all
  show ?case
  proof (rule safeI)
    fix s t assume wf: "text_wf s" and run: "run_seq (c # cs) s = (Done, t)"
    then obtain s1 where s1: "c s = (Done, s1)" "run_seq cs s1 = (Done, t)"
      by (auto split: prod.splits status.splits)
    from text_extends_trans [OF safe_extends [OF c wf s1(1)] safe_extends [OF cs safeD [OF c wf s1(1)] s1(2)]]
    show "text_extends s t" .
  qed
qed (simp add: safe_def text_extends_refl)

lemma safe_fail [safe_intro]: "safe (fail e)"
  by (simp add: safe_def fail_def)

lemma safe_emit_if [safe_intro]: "safe c \<Longrightarrow> safe (emit_if b c)"
  by (simp add: safe_def emit_if_def text_extends_refl)

lemma safe_if [safe_intro]: "safe c \<Longrightarrow> safe d \<Longrightarrow> safe (if b then c else d)"
  by simp

lemma safe_dep: "(\<And>s. safe (c s)) \<Longrightarrow> safe (\<lambda>ctx. c ctx ctx)"
  unfolding safe_def by blast

lemma safe_emit_byte [safe_intro]: "safe (emit_byte b)"
proof (rule safeI)
  fix s t assume wf: "text_wf s" and run: "emit_byte b s = (Done, t)"
  have sec: "current_section s \<noteq> 1" using wf by (simp add: text_wf_def)
  have room: "\<not> text_capacity s \<le> length (text_section s)"
    using run sec by (auto simp: emit_byte_def)
  with run sec have t: "t = put_byte b s" by (simp add: emit_byte_def put_byte_def)
  with wf room show "text_extends s t"
    by (auto simp: text_extends_def text_wf_def anchored_def fixup_in_text_def fixup_offset_def)
qed

lemma safe_emit_bytes [safe_intro]: "safe (emit_bytes bs)"
  unfolding emit_bytes_def by (rule safe_run_seq) (simp add: list_all_iff safe_emit_byte)

lemma safe_emit_le [safe_intro]:
  "safe (emit_le16 v)" "safe (emit_le32 w)" "safe (emit_le64 x)"
  by (simp_all add: emit_le16_def emit_le32_def emit_le64_def emit_word_def emit_dword_def
      emit_qword_def safe_emit_bytes)

text \<open>
  The one way fixups are recorded: at the current address, with the four bytes of the
  displacement emitted next. \<open>record\<close> is any recorder that fills one slot with size 4.
\<close>

definition records_fixup_here :: "cmd \<Rightarrow> bool" where
  "records_fixup_here c \<longleftrightarrow> (\<forall>s t. c s = (Done, t) \<longrightarrow>
     fixup_count s < MAX_SYMBOLS \<and>
     (\<exists>f. fx_size f = 4 \<and> fx_location f = current_address s \<and>
        t = s\<lparr>fixups := (fixups s)(fixup_count s := f), fixup_count := Suc (fixup_count s)\<rparr>))"

lemma emit_le32_done:
  assumes "emit_le32 d s = (Done, t)" "current_section s \<noteq> 1"
  shows "length (text_section s) + 4 \<le> text_capacity s \<and> t = put_text (le32 d) s"
proof -
  have "run_seq (map emit_byte bs) s = (Done, t) \<Longrightarrow> current_section s \<noteq> 1 \<Longrightarrow> bs \<noteq> [] \<Longrightarrow>
      length (text_section s) + length bs \<le> text_capacity s" for bs s
  proof (induction bs arbitrary: s)
    case (Cons b bs)
    then have "\<not> text_capacity s \<le> length (text_section s)"
      by (auto simp: emit_byte_def)
    with Cons.prems Cons.IH [of "put_byte b s"] show ?case
      by (cases "bs = []") (auto simp: emit_byte_def put_byte_def)
  qed simp
  from this [of "le32 d" s] assms have "room (length (le32 d)) s"
    by (auto simp: room_def emit_le32_def emit_dword_def emit_bytes_def simp flip: length_0_conv)
  with emitsD [OF emits_emit_le(2) [of d], of s] assms show ?thesis
    by (auto simp: room_def)
qed

lemma safe_fixup_disp32:
  assumes "records_fixup_here c"
  shows "safe (run_seq [c, emit_le32 d])"
proof (rule safeI)
  fix s t assume wf: "text_wf s" and run: "run_seq [c, emit_le32 d] s = (Done, t)"
  then obtain s1 where s1: "c s = (Done, s1)" and le: "emit_le32 d s1 = (Done, t)"
    by (auto split: prod.splits status.splits)
  from assms s1 obtain f where f: "fixup_count s < MAX_SYMBOLS" "fx_size f = 4"
    "fx_location f = current_address s"
    "s1 = s\<lparr>fixups := (fixups s)(fixup_count s := f), fixup_count := Suc (fixup_count s)\<rparr>"
    unfolding records_fixup_here_def by blast
  from le f wf have t: "t = put_text (le32 d) s1"
    and cap: "length (text_section s) + 4 \<le> text_capacity s"
    using emit_le32_done [OF le] by (auto simp: text_wf_def)
  have "unat (fx_location f - base_address s) = length (text_section s)"
    using wf f(3) cap by (simp add: text_wf_def anchored_def unat_of_nat)
  with wf f t cap show "text_extends s t"
    by (auto simp: text_extends_def text_wf_def anchored_def fixup_in_text_def fixup_offset_def less_Suc_eq)
qed

lemma records_fixupI:
  assumes "\<And>s t. c s = (Done, t) \<Longrightarrow> fixup_count s < MAX_SYMBOLS \<and>
      t = s\<lparr>fixups := (fixups s)(fixup_count s := F s), fixup_count := Suc (fixup_count s)\<rparr>"
    and "\<And>s. fx_size (F s) = 4" "\<And>s. fx_location (F s) = current_address s"
  shows "records_fixup_here c"
  unfolding records_fixup_here_def
proof (intro allI impI)
  fix s t assume "c s = (Done, t)"
  from assms(1) [OF this] show "fixup_count s < MAX_SYMBOLS \<and>
     (\<exists>f. fx_size f = 4 \<and> fx_location f = current_address s \<and>
        t = s\<lparr>fixups := (fixups s)(fixup_count s := f), fixup_count := Suc (fixup_count s)\<rparr>)"
    by (intro conjI exI [of _ "F s"]) (simp_all add: assms(2,3))
qed

lemma records_fixup_rip_relative:
  "records_fixup_here (\<lambda>ctx. add_fixup_rip_relative l (current_address ctx) (current_section ctx) ctx)"
  by (rule records_fixupI [where F = "\<lambda>s. (fixups s (fixup_count s))
        \<lparr>fx_label := copy_bounded_text MAX_LABEL_LENGTH l, fx_location := current_address s,
         fx_size := 4, fx_instruction_type := Mov_family INST_MOV, fx_is_rip_relative := True,
         fx_section := current_section s\<rparr>"])
    (auto simp: add_fixup_rip_relative_def Let_def split: if_splits)

lemma records_fixup_abs: "records_fixup_here (\<lambda>ctx. add_fixup l (current_address ctx) 4 ty ctx)"
  by (rule records_fixupI [where F = "\<lambda>s. (fixups s (fixup_count s))
        \<lparr>fx_label := copy_bounded_text MAX_LABEL_LENGTH l, fx_location := current_address s,
         fx_size := 4, fx_instruction_type := ty, fx_is_rip_relative := False, fx_section := 0\<rparr>"])
    (auto simp: add_fixup_def Let_def split: if_splits)

end
