(* ===== verification/Encoding_Core.thy ===== *)
theory Encoding_Core
  imports Emission
begin

text \<open>
  The shared encoding primitives of src/x86_64_encoding_core.c: the register table, REX, ModRM
  and SIB bytes, and the addressing-form selection of \<open>emit_modrm_sib\<close>. Every primitive meets
  the emission contract, and \<open>rex_bytes\<close> and \<open>modrm_sib_bytes\<close> are the bytes of the label-free
  forms as functions of the operands alone.
\<close>

section \<open>Registers\<close>

definition reg_table :: "(string \<times> reg_t \<times> reg_size_t) list" where
  "reg_table =
    [(''rax'', 0, REG_SIZE_64), (''rcx'', 1, REG_SIZE_64), (''rdx'', 2, REG_SIZE_64),
     (''rbx'', 3, REG_SIZE_64), (''rsp'', 4, REG_SIZE_64), (''rbp'', 5, REG_SIZE_64),
     (''rsi'', 6, REG_SIZE_64), (''rdi'', 7, REG_SIZE_64), (''r8'', 8, REG_SIZE_64),
     (''r9'', 9, REG_SIZE_64), (''r10'', 10, REG_SIZE_64), (''r11'', 11, REG_SIZE_64),
     (''r12'', 12, REG_SIZE_64), (''r13'', 13, REG_SIZE_64), (''r14'', 14, REG_SIZE_64),
     (''r15'', 15, REG_SIZE_64),
     (''eax'', 0, REG_SIZE_32), (''ecx'', 1, REG_SIZE_32), (''edx'', 2, REG_SIZE_32),
     (''ebx'', 3, REG_SIZE_32), (''esp'', 4, REG_SIZE_32), (''ebp'', 5, REG_SIZE_32),
     (''esi'', 6, REG_SIZE_32), (''edi'', 7, REG_SIZE_32), (''r8d'', 8, REG_SIZE_32),
     (''r9d'', 9, REG_SIZE_32), (''r10d'', 10, REG_SIZE_32), (''r11d'', 11, REG_SIZE_32),
     (''r12d'', 12, REG_SIZE_32), (''r13d'', 13, REG_SIZE_32), (''r14d'', 14, REG_SIZE_32),
     (''r15d'', 15, REG_SIZE_32),
     (''ax'', 0, REG_SIZE_16), (''cx'', 1, REG_SIZE_16), (''dx'', 2, REG_SIZE_16),
     (''bx'', 3, REG_SIZE_16), (''sp'', 4, REG_SIZE_16), (''bp'', 5, REG_SIZE_16),
     (''si'', 6, REG_SIZE_16), (''di'', 7, REG_SIZE_16), (''r8w'', 8, REG_SIZE_16),
     (''r9w'', 9, REG_SIZE_16), (''r10w'', 10, REG_SIZE_16), (''r11w'', 11, REG_SIZE_16),
     (''r12w'', 12, REG_SIZE_16), (''r13w'', 13, REG_SIZE_16), (''r14w'', 14, REG_SIZE_16),
     (''r15w'', 15, REG_SIZE_16),
     (''al'', 0, REG_SIZE_8), (''cl'', 1, REG_SIZE_8), (''dl'', 2, REG_SIZE_8),
     (''bl'', 3, REG_SIZE_8), (''spl'', 4, REG_SIZE_8), (''bpl'', 5, REG_SIZE_8),
     (''sil'', 6, REG_SIZE_8), (''dil'', 7, REG_SIZE_8), (''r8b'', 8, REG_SIZE_8),
     (''r9b'', 9, REG_SIZE_8), (''r10b'', 10, REG_SIZE_8), (''r11b'', 11, REG_SIZE_8),
     (''r12b'', 12, REG_SIZE_8), (''r13b'', 13, REG_SIZE_8), (''r14b'', 14, REG_SIZE_8),
     (''r15b'', 15, REG_SIZE_8),
     (''ah'', 4, REG_SIZE_8H), (''ch'', 5, REG_SIZE_8H), (''dh'', 6, REG_SIZE_8H),
     (''bh'', 7, REG_SIZE_8H),
     (''rip'', 32, REG_SIZE_64),
     (''xmm0'', 16, REG_SIZE_XMM), (''xmm1'', 17, REG_SIZE_XMM), (''xmm2'', 18, REG_SIZE_XMM),
     (''xmm3'', 19, REG_SIZE_XMM), (''xmm4'', 20, REG_SIZE_XMM), (''xmm5'', 21, REG_SIZE_XMM),
     (''xmm6'', 22, REG_SIZE_XMM), (''xmm7'', 23, REG_SIZE_XMM), (''xmm8'', 24, REG_SIZE_XMM),
     (''xmm9'', 25, REG_SIZE_XMM), (''xmm10'', 26, REG_SIZE_XMM), (''xmm11'', 27, REG_SIZE_XMM),
     (''xmm12'', 28, REG_SIZE_XMM), (''xmm13'', 29, REG_SIZE_XMM), (''xmm14'', 30, REG_SIZE_XMM),
     (''xmm15'', 31, REG_SIZE_XMM)]"

text \<open>The size is written through a pointer: the result is the pair.\<close>

definition parse_register :: "string \<Rightarrow> reg_t \<times> reg_size_t" where
  "parse_register name =
     (case find (\<lambda>e. strcase_eq name (fst e)) reg_table of
        Some (_, reg, sz) \<Rightarrow> (reg, sz)
      | None \<Rightarrow> (REG_NONE, REG_SIZE_64))"

definition register_name :: "reg_t \<Rightarrow> reg_size_t \<Rightarrow> string" where
  "register_name reg sz =
     (case find (\<lambda>e. fst (snd e) = reg \<and> snd (snd e) = sz) reg_table of
        Some (name, _) \<Rightarrow> name
      | None \<Rightarrow> ''???'')"

lemma reg_names_distinct: "distinct (map fst reg_table)"
  unfolding reg_table_def by (simp only: list.map fst_conv) simp

lemma reg_names_lower: "\<forall>e\<in>set reg_table. map c_tolower (fst e) = fst e"
  unfolding reg_table_def by (simp add: c_tolower_def)

lemma parse_listed_name:
  assumes "(n, r, sz) \<in> set reg_table" "strcase_eq name n"
  shows "parse_register name = (r, sz)"
proof -
  have "find (\<lambda>e. strcase_eq name (fst e)) reg_table = find (\<lambda>e. fst (n, r, sz) = fst e) reg_table"
    by (rule find_cong) (use assms reg_names_lower in \<open>auto simp: strcase_eq_def\<close>)
  with find_by_key [OF reg_names_distinct assms(1)] show ?thesis
    by (simp add: parse_register_def)
qed

lemma register_name_listed:
  assumes "register_name r sz \<noteq> ''???''"
  shows "(register_name r sz, r, sz) \<in> set reg_table"
proof (cases "find (\<lambda>e. fst (snd e) = r \<and> snd (snd e) = sz) reg_table")
  case (Some e)
  then show ?thesis
    using find_SomeD [OF Some] by (cases e) (simp add: register_name_def)
qed (use assms in \<open>simp add: register_name_def\<close>)

fun get_reg_size_bytes :: "reg_size_t \<Rightarrow> int" where
  "get_reg_size_bytes REG_SIZE_8 = 1"
| "get_reg_size_bytes REG_SIZE_8H = 1"
| "get_reg_size_bytes REG_SIZE_16 = 2"
| "get_reg_size_bytes REG_SIZE_32 = 4"
| "get_reg_size_bytes REG_SIZE_64 = 8"
| "get_reg_size_bytes REG_SIZE_XMM = 16"

section \<open>Prefix and form bytes\<close>

definition needs_rex :: "operand \<Rightarrow> bool" where
  "needs_rex op \<longleftrightarrow>
     (if op_type op = OPERAND_REG then
        op_reg op \<ge> 8 \<or> (op_reg_size op = REG_SIZE_8 \<and> op_reg op \<ge> 4)
      else if op_type op = OPERAND_MEM then
        mem_base (op_mem op) \<ge> 8 \<or> mem_index (op_mem op) \<ge> 8
      else False)"

definition make_rex :: "bool \<Rightarrow> bool \<Rightarrow> bool \<Rightarrow> bool \<Rightarrow> u8" where
  "make_rex w r x b = 0x40 OR (if w then 0x08 else 0) OR (if r then 0x04 else 0) OR
     (if x then 0x02 else 0) OR (if b then 0x01 else 0)"

definition make_modrm :: "u8 \<Rightarrow> u8 \<Rightarrow> u8 \<Rightarrow> u8" where
  "make_modrm md reg rm = push_bit 6 (md AND 3) OR push_bit 3 (reg AND 7) OR (rm AND 7)"

definition make_sib :: "u8 \<Rightarrow> u8 \<Rightarrow> u8 \<Rightarrow> u8" where
  "make_sib scale index base =
     (let scale_bits = (if scale = 8 then 3 else if scale = 4 then 2 else if scale = 2 then 1 else 0)
      in push_bit 6 scale_bits OR push_bit 3 (index AND 7) OR (base AND 7))"

definition fits_in_int8 :: "u32 \<Rightarrow> bool" where
  "fits_in_int8 val \<longleftrightarrow> sint val \<ge> -128 \<and> sint val \<le> 127"

text \<open>\<open>(uint8_t)(reg & 7)\<close>.\<close>

definition low3 :: "reg_t \<Rightarrow> u8" where
  "low3 r = word_of_int (r AND 7)"

definition rex_r_bit :: "operand option \<Rightarrow> bool" where
  "rex_r_bit reg_op \<longleftrightarrow>
     (case reg_op of Some op \<Rightarrow> op_type op = OPERAND_REG \<and> op_reg op \<ge> 8 | None \<Rightarrow> False)"

definition rex_x_bit :: "operand option \<Rightarrow> operand option \<Rightarrow> bool" where
  "rex_x_bit rm_op sib_index_op \<longleftrightarrow>
     (case sib_index_op of Some op \<Rightarrow> op_type op = OPERAND_REG \<and> op_reg op \<ge> 8 | None \<Rightarrow> False) \<or>
     (case rm_op of Some op \<Rightarrow> op_type op = OPERAND_MEM \<and> mem_has_index (op_mem op) \<and>
        mem_index (op_mem op) \<ge> 8 | None \<Rightarrow> False)"

definition rex_b_bit :: "operand option \<Rightarrow> bool" where
  "rex_b_bit rm_op \<longleftrightarrow>
     (case rm_op of
        Some op \<Rightarrow> (op_type op = OPERAND_REG \<and> op_reg op \<ge> 8) \<or>
          (op_type op = OPERAND_MEM \<and> mem_has_base (op_mem op) \<and> mem_base (op_mem op) \<ge> 8)
      | None \<Rightarrow> False)"

definition emit_rex ::
  "bool \<Rightarrow> operand option \<Rightarrow> operand option \<Rightarrow> operand option \<Rightarrow> cmd" where
  "emit_rex w reg_op rm_op sib_index_op =
     (let r = rex_r_bit reg_op; x = rex_x_bit rm_op sib_index_op; b = rex_b_bit rm_op
      in if \<not> w \<and> \<not> r \<and> \<not> x \<and> \<not> b then run_seq [] else emit_byte (make_rex w r x b))"

section \<open>Memory and register operands\<close>

text \<open>The fixup of a label reference, followed by its four displacement bytes.\<close>

definition rip_label_disp32 :: "string \<Rightarrow> u32 \<Rightarrow> cmd" where
  "rip_label_disp32 label disp = run_seq
     [\<lambda>ctx. add_fixup_rip_relative label (current_address ctx) (current_section ctx) ctx,
      emit_le32 disp]"

definition abs_label_disp32 :: "string \<Rightarrow> u32 \<Rightarrow> cmd" where
  "abs_label_disp32 label disp = run_seq
     [\<lambda>ctx. add_fixup label (current_address ctx) 4 (Mov_family INST_MOV) ctx,
      emit_le32 disp]"

definition emit_mem_base_only :: "u8 \<Rightarrow> mem_operand \<Rightarrow> cmd" where
  "emit_mem_base_only reg_opcode mem =
     (let base_reg = (if mem_has_base mem then low3 (mem_base mem) else 5);
          disp = mem_displacement mem in
      if \<not> mem_has_displacement mem \<and> mem_has_base mem \<and> base_reg \<noteq> 4 \<and> base_reg \<noteq> 5 then
        emit_byte (make_modrm 0 reg_opcode base_reg)
      else if \<not> mem_has_displacement mem \<and> mem_has_base mem \<and> base_reg = 5 then
        run_seq [emit_byte (make_modrm 1 reg_opcode 5), emit_byte 0]
      else if mem_has_displacement mem \<and> fits_in_int8 disp then
        run_seq [emit_byte (make_modrm 1 reg_opcode base_reg),
          emit_if (base_reg = 4) (emit_byte (make_sib 1 4 base_reg)),
          emit_byte (ucast disp)]
      else
        run_seq [emit_byte (make_modrm (if mem_has_base mem then 2 else 0) reg_opcode base_reg),
          emit_if (base_reg = 4 \<and> mem_has_base mem) (emit_byte (make_sib 1 4 base_reg)),
          emit_le32 disp])"

definition emit_mem_indexed :: "u8 \<Rightarrow> mem_operand \<Rightarrow> cmd" where
  "emit_mem_indexed reg_opcode mem =
     (let base_reg = (if mem_has_base mem then low3 (mem_base mem) else 5);
          index_reg = low3 (mem_index mem);
          disp = mem_displacement mem;
          scale = word_of_int (mem_scale mem);
          need_sib_disp = ((\<not> mem_has_base mem \<or> base_reg = 5) \<and> disp = 0) in
      if mem_has_displacement mem \<and> fits_in_int8 disp \<and> \<not> need_sib_disp then
        run_seq [emit_byte (make_modrm 1 reg_opcode 4),
          emit_byte (make_sib scale index_reg base_reg), emit_byte (ucast disp)]
      else let md = (if mem_has_displacement mem \<or> \<not> mem_has_base mem then 2 else 0) in
        run_seq [emit_byte (make_modrm md reg_opcode 4),
          emit_byte (make_sib scale index_reg base_reg),
          emit_if (md \<noteq> 0 \<or> \<not> mem_has_base mem) (emit_le32 disp)])"

definition emit_modrm_sib :: "u8 \<Rightarrow> operand \<Rightarrow> reg_size_t \<Rightarrow> cmd" where
  "emit_modrm_sib reg_opcode op sz =
     (let mem = op_mem op in
      if op_type op = OPERAND_REG then emit_byte (make_modrm 3 reg_opcode (low3 (op_reg op)))
      else if op_type op \<noteq> OPERAND_MEM then fail Operand_Error
      else if mem_has_index mem \<and> mem_scale mem \<notin> {1, 2, 4, 8} then fail Operand_Error
      else if mem_is_rip_relative mem \<and> (mem_has_index mem \<or> mem_has_base mem) then
        fail Operand_Error
      else if mem_is_rip_relative mem then
        run_seq [emit_byte (make_modrm 0 reg_opcode 5),
          (if mem_label mem \<noteq> [] then rip_label_disp32 (mem_label mem) (mem_displacement mem)
           else emit_le32 (mem_displacement mem))]
      else if \<not> mem_has_base mem \<and> \<not> mem_has_index mem then
        run_seq [emit_byte (make_modrm 0 reg_opcode 4), emit_byte (make_sib 1 4 5),
          (if mem_label mem \<noteq> [] then abs_label_disp32 (mem_label mem) (mem_displacement mem)
           else emit_le32 (mem_displacement mem))]
      else if \<not> mem_has_index mem then emit_mem_base_only reg_opcode mem
      else emit_mem_indexed reg_opcode mem)"

section \<open>The primitives meet the contracts\<close>

text \<open>A command built from emissions: both the growth contract and the fixup contract.\<close>

definition encoder_cmd :: "cmd \<Rightarrow> bool" where
  "encoder_cmd c \<longleftrightarrow> emitter c \<and> safe c"

named_theorems enc_intro

lemma enc_fail [enc_intro]: "encoder_cmd (fail e)"
  by (simp add: encoder_cmd_def emitter_fail safe_fail)

lemma enc_emit_byte [enc_intro]: "encoder_cmd (emit_byte b)"
  by (simp add: encoder_cmd_def emitter_emit_byte safe_emit_byte)

lemma enc_emit_le [enc_intro]:
  "encoder_cmd (emit_le16 v)" "encoder_cmd (emit_le32 w)" "encoder_cmd (emit_le64 x)"
  by (simp_all add: encoder_cmd_def emitter_emit_le safe_emit_le)

lemma enc_nil [enc_intro]: "encoder_cmd (run_seq [])"
  by (simp add: encoder_cmd_def emitter_run_seq safe_run_seq)

lemma enc_cons [enc_intro]:
  "encoder_cmd c \<Longrightarrow> encoder_cmd (run_seq cs) \<Longrightarrow> encoder_cmd (run_seq (c # cs))"
proof -
  assume c: "encoder_cmd c" and cs: "encoder_cmd (run_seq cs)"
  have eq: "run_seq (c # cs) = run_seq [c, run_seq cs]"
    by (rule ext) (simp split: status.splits prod.splits)
  have "emitter (run_seq [c, run_seq cs])" "safe (run_seq [c, run_seq cs])"
    using c cs unfolding encoder_cmd_def
    by (auto intro!: emitter_run_seq safe_run_seq simp del: run_seq.simps)
  then show "encoder_cmd (run_seq (c # cs))"
    by (simp only: encoder_cmd_def eq [symmetric])
qed

lemma enc_emit_if [enc_intro]: "encoder_cmd c \<Longrightarrow> encoder_cmd (emit_if b c)"
  by (simp add: encoder_cmd_def emitter_emit_if safe_emit_if)

lemma enc_if [enc_intro]: "encoder_cmd c \<Longrightarrow> encoder_cmd d \<Longrightarrow> encoder_cmd (if b then c else d)"
  by simp

lemma enc_dep: "(\<And>s. encoder_cmd (c s)) \<Longrightarrow> encoder_cmd (\<lambda>ctx. c ctx ctx)"
  unfolding encoder_cmd_def using emitter_dep safe_dep by blast

lemma enc_option [enc_intro]:
  "encoder_cmd c \<Longrightarrow> (\<And>x. encoder_cmd (d x)) \<Longrightarrow> encoder_cmd (case opt of None \<Rightarrow> c | Some x \<Rightarrow> d x)"
  by (cases opt) simp_all

lemma enc_list2 [enc_intro]:
  "encoder_cmd c \<Longrightarrow> (\<And>x y. encoder_cmd (d x y)) \<Longrightarrow>
   encoder_cmd (case xs of [x, y] \<Rightarrow> d x y | _ \<Rightarrow> c)"
  by (simp split: list.split)

lemma enc_list1 [enc_intro]:
  "encoder_cmd c \<Longrightarrow> (\<And>x. encoder_cmd (d x)) \<Longrightarrow> encoder_cmd (case xs of [x] \<Rightarrow> d x | _ \<Rightarrow> c)"
  by (simp split: list.split)

lemma enc_list3 [enc_intro]:
  "encoder_cmd c \<Longrightarrow> (\<And>x y z. encoder_cmd (d x y z)) \<Longrightarrow>
   encoder_cmd (case xs of [x, y, z] \<Rightarrow> d x y z | _ \<Rightarrow> c)"
  by (simp split: list.split)

lemma enc_fixup_disp32:
  assumes "emitter c" "records_fixup_here c"
  shows "encoder_cmd (run_seq [c, emit_le32 d])"
  unfolding encoder_cmd_def
proof
  show "emitter (run_seq [c, emit_le32 d])"
    using assms(1) by (intro emitter_run_seq) (simp add: emitter_emit_le)
  show "safe (run_seq [c, emit_le32 d])"
    using assms(2) by (rule safe_fixup_disp32)
qed

lemma emitter_fixup_here:
  "emitter (\<lambda>ctx. add_fixup_rip_relative l (current_address ctx) (current_section ctx) ctx)"
  "emitter (\<lambda>ctx. add_fixup l (current_address ctx) sz ty ctx)"
  using emitter_add_fixup_rip_relative emitter_add_fixup by (simp_all add: emitter_def)

lemma enc_label_disp32 [enc_intro]:
  "encoder_cmd (rip_label_disp32 l d)" "encoder_cmd (abs_label_disp32 l d)"
  unfolding rip_label_disp32_def abs_label_disp32_def
  by (rule enc_fixup_disp32 [OF emitter_fixup_here(1) records_fixup_rip_relative]
      enc_fixup_disp32 [OF emitter_fixup_here(2) records_fixup_abs])+

lemma enc_emit_rex [enc_intro]: "encoder_cmd (emit_rex w r m x)"
  unfolding emit_rex_def Let_def by (intro enc_intro)

lemma enc_emit_modrm_sib [enc_intro]: "encoder_cmd (emit_modrm_sib reg op sz)"
  unfolding emit_modrm_sib_def emit_mem_base_only_def emit_mem_indexed_def Let_def
  by (intro enc_intro)

end
