(* ===== verification/Encoder_GP.thy ===== *)
theory Encoder_GP
  imports Encoding_Core
begin

text \<open>
  The general-purpose encoders of src/x86_64_encoder.c (mov, push and pop, the group-1
  arithmetic, the unary group, lea, the string moves) with the group-1 and group-2 opcode
  tables of include/x86_64_asm/opcode_lookup.h. Every encoder takes the parsed instruction and
  acts on the context. The locale \<open>instruction_encoder\<close> is the interface the assembler's
  passes rely on; each encoder is an interpretation of it.
\<close>

section \<open>The interface of an instruction encoder\<close>

locale instruction_encoder =
  fixes encode :: "parsed_instruction \<Rightarrow> cmd"
  assumes encode_cmd: "encoder_cmd (encode inst)"
begin

lemma encode_grows: "encode inst s = (r, t) \<Longrightarrow> grows s t"
  using encode_cmd unfolding encoder_cmd_def by (blast dest: emitterD)

lemma encode_text_wf: "text_wf s \<Longrightarrow> encode inst s = (Done, t) \<Longrightarrow> text_wf t"
  using encode_cmd unfolding encoder_cmd_def by (blast dest: safeD)

text \<open>Emitted text is never rewritten, also when the encoder fails half way.\<close>

lemma encode_prefix:
  "encode inst s = (r, t) \<Longrightarrow> \<exists>bs. text_section t = text_section s @ bs"
  using encode_grows [of inst s r t]
  by (auto simp: grows_def appended_def split: if_splits)

text \<open>The address counter moves by exactly the number of bytes that were emitted.\<close>

lemma encode_address:
  assumes "encode inst s = (r, t)" "current_section s \<noteq> 1"
  shows "current_address t - current_address s =
    of_nat (length (text_section t) - length (text_section s))"
  using encode_grows [OF assms(1)] assms(2) by (auto simp: grows_def appended_def)

lemma encode_capacity:
  assumes "encode inst s = (r, t)" "length (text_section s) \<le> text_capacity s"
  shows "length (text_section t) \<le> text_capacity t"
  using encode_grows [OF assms(1)] assms(2) by (auto simp: grows_defs)

lemma encode_symbols:
  "encode inst s = (r, t) \<Longrightarrow> symbols t = symbols s \<and> symbol_hash_table t = symbol_hash_table s"
  using encode_grows [of inst s r t] by (auto simp: grows_defs)

text \<open>A run of instructions through the encoder, as a pass makes it.\<close>

lemma encode_all_grows: "grows s (snd (run_seq (map encode insts) s))"
proof (induction insts arbitrary: s)
  case (Cons i "is")
  obtain r s1 where s1: "encode i s = (r, s1)" by fastforce
  show ?case
    using encode_grows [OF s1] Cons.IH [of s1] s1 by (auto split: status.splits intro: grows_trans)
qed simp

lemma encode_all_text_wf:
  "text_wf s \<Longrightarrow> run_seq (map encode insts) s = (Done, t) \<Longrightarrow> text_wf t"
proof (induction insts arbitrary: s)
  case (Cons i "is")
  then obtain s1 where "encode i s = (Done, s1)" "run_seq (map encode is) s1 = (Done, t)"
    by (auto split: prod.splits status.splits)
  with Cons.IH encode_text_wf [OF Cons.prems(1)] show ?case by blast
qed simp

end

section \<open>Opcode tables\<close>

definition X86_GROUP1_TABLE :: "(arith_kind \<times> u8 \<times> string) list" where
  "X86_GROUP1_TABLE =
     [(INST_ADD, 0, ''add''), (INST_OR, 1, ''or''), (INST_ADC, 2, ''adc''), (INST_SBB, 3, ''sbb''),
      (INST_AND, 4, ''and''), (INST_SUB, 5, ''sub''), (INST_XOR, 6, ''xor''), (INST_CMP, 7, ''cmp'')]"

definition X86_GROUP2_TABLE :: "(u8 \<times> string) list" where
  "X86_GROUP2_TABLE = [(0, ''rol''), (1, ''ror''), (4, ''shl''), (5, ''shr''), (7, ''sar'')]"

definition x86_lookup_group1_reg_opcode :: "instruction_type \<Rightarrow> u8 option" where
  "x86_lookup_group1_reg_opcode inst =
     map_option (\<lambda>e. fst (snd e)) (find (\<lambda>e. Arith_family (fst e) = inst) X86_GROUP1_TABLE)"

definition x86_lookup_group1_mnemonic :: "u8 \<Rightarrow> string option" where
  "x86_lookup_group1_mnemonic reg_opcode =
     map_option (\<lambda>e. snd (snd e)) (find (\<lambda>e. fst (snd e) = reg_opcode) X86_GROUP1_TABLE)"

definition x86_lookup_group2_mnemonic :: "u8 \<Rightarrow> string option" where
  "x86_lookup_group2_mnemonic reg_opcode =
     map_option snd (find (\<lambda>e. fst e = reg_opcode) X86_GROUP2_TABLE)"

section \<open>Operand helpers\<close>

definition is_high_8bit_reg :: "operand option \<Rightarrow> bool" where
  "is_high_8bit_reg op \<longleftrightarrow>
     (case op of Some r \<Rightarrow> op_type r = OPERAND_REG \<and> op_reg_size r = REG_SIZE_8H | None \<Rightarrow> False)"

definition operand_at :: "parsed_instruction \<Rightarrow> int \<Rightarrow> operand option" where
  "operand_at inst i =
     (if 0 \<le> i \<and> i < int (length (inst_operands inst)) then Some (inst_operands inst ! nat i)
      else None)"

definition check_rex_conflict :: "parsed_instruction \<Rightarrow> int \<Rightarrow> int \<Rightarrow> bool" where
  "check_rex_conflict inst op1_idx op2_idx \<longleftrightarrow>
     (let op1 = operand_at inst op1_idx; op2 = operand_at inst op2_idx;
          needs = (\<lambda>op. case op of Some r \<Rightarrow> needs_rex r | None \<Rightarrow> False)
      in (is_high_8bit_reg op1 \<or> is_high_8bit_reg op2) \<and> (needs op1 \<or> needs op2))"

text \<open>The operation size of a two-operand instruction: the register operand's, destination first.\<close>

definition operation_size :: "operand \<Rightarrow> operand \<Rightarrow> reg_size_t" where
  "operation_size dst src =
     (if op_type dst = OPERAND_REG then op_reg_size dst
      else if op_type src = OPERAND_REG then op_reg_size src
      else REG_SIZE_64)"

definition register_size :: "operand \<Rightarrow> reg_size_t" where
  "register_size op = (if op_type op = OPERAND_REG then op_reg_size op else REG_SIZE_64)"

section \<open>mov\<close>

definition encode_mov_reg_label :: "operand \<Rightarrow> operand \<Rightarrow> cmd" where
  "encode_mov_reg_label dst src = run_seq
     [emit_rex True (Some dst) None None, emit_byte 0x8B,
      emit_byte (make_modrm 0 (low3 (op_reg dst)) 5),
      rip_label_disp32 (op_label src) 0]"

definition encode_mov_reg_imm :: "operand \<Rightarrow> operand \<Rightarrow> cmd" where
  "encode_mov_reg_imm dst src =
     (let sz = operation_size dst src;
          is_64bit = (sz = REG_SIZE_64);
          need_rex_prefix = (needs_rex dst \<or> needs_rex src);
          reg_val = low3 (op_reg dst);
          imm = op_immediate src;
          fits_u32 = (sint imm \<ge> 0 \<and> sint imm \<le> 4294967295) in
      if is_64bit \<and> fits_u32 then run_seq
        [emit_if (op_reg dst \<ge> 8) (emit_byte (make_rex False False False True)),
         emit_byte (0xB8 + reg_val), emit_le32 (ucast imm)]
      else if is_64bit \<and> (sint imm < -2147483648 \<or> sint imm > 2147483647) then run_seq
        [emit_rex True (Some dst) None None, emit_byte (0xB8 + reg_val), emit_le64 imm]
      else if is_64bit then run_seq
        [emit_rex True None (Some dst) None, emit_byte 0xC7, emit_modrm_sib 0 dst sz,
         emit_le32 (ucast imm)]
      else if sz = REG_SIZE_32 then run_seq
        [emit_if need_rex_prefix (emit_rex False (Some dst) None None),
         emit_byte (0xB8 + reg_val), emit_le32 (ucast imm)]
      else if sz = REG_SIZE_16 then run_seq
        [emit_byte 0x66, emit_if need_rex_prefix (emit_rex False (Some dst) None None),
         emit_byte (0xB8 + reg_val), emit_le16 (ucast imm)]
      else run_seq
        [(if op_reg_size dst = REG_SIZE_8H then emit_byte (0xB0 + reg_val)
          else run_seq [emit_rex False (Some dst) None None, emit_byte (0xB0 + reg_val)]),
         emit_byte (ucast imm)])"

definition encode_mov_mem_imm :: "operand \<Rightarrow> operand \<Rightarrow> cmd" where
  "encode_mov_mem_imm dst src =
     (let sz = operation_size dst src; is_64bit = (sz = REG_SIZE_64); imm = op_immediate src in
      run_seq
        [emit_if (sz = REG_SIZE_16) (emit_byte 0x66),
         emit_rex is_64bit None (Some dst) None,
         (if sz = REG_SIZE_8 then emit_byte 0xC6 else emit_byte 0xC7),
         emit_modrm_sib 0 dst sz,
         (if sz = REG_SIZE_8 then emit_byte (ucast imm)
          else if sz = REG_SIZE_16 then emit_le16 (ucast imm)
          else emit_le32 (ucast imm))])"

definition encode_mov :: "parsed_instruction \<Rightarrow> cmd" where
  "encode_mov inst =
     (case inst_operands inst of
        [dst, src] \<Rightarrow>
          if check_rex_conflict inst 0 1 then fail Constraint_Error
          else let sz = operation_size dst src; is_64bit = (sz = REG_SIZE_64) in
          if op_type dst = OPERAND_REG \<and> op_type src = OPERAND_LABEL then
            encode_mov_reg_label dst src
          else if op_type dst = OPERAND_REG \<and> op_type src = OPERAND_IMM then
            encode_mov_reg_imm dst src
          else if op_type dst = OPERAND_REG \<and> op_type src = OPERAND_REG then run_seq
            [emit_rex is_64bit (Some src) (Some dst) None, emit_byte 0x89,
             emit_modrm_sib (low3 (op_reg src)) dst sz]
          else if op_type dst = OPERAND_REG \<and> op_type src = OPERAND_MEM then run_seq
            [emit_rex is_64bit (Some dst) (Some src) None, emit_byte 0x8B,
             emit_modrm_sib (low3 (op_reg dst)) src sz]
          else if op_type dst = OPERAND_MEM \<and> op_type src = OPERAND_REG then run_seq
            [emit_rex is_64bit (Some src) (Some dst) None, emit_byte 0x89,
             emit_modrm_sib (low3 (op_reg src)) dst sz]
          else if op_type dst = OPERAND_MEM \<and> op_type src = OPERAND_IMM then
            encode_mov_mem_imm dst src
          else fail Encoding_Error
      | _ \<Rightarrow> fail Encoding_Error)"

section \<open>push and pop\<close>

definition encode_push_pop :: "parsed_instruction \<Rightarrow> cmd" where
  "encode_push_pop inst =
     (case inst_operands inst of
        [op] \<Rightarrow>
          let is_push = (inst_type inst = Stack_family INST_PUSH); reg = low3 (op_reg op) in
          if op_type op = OPERAND_REG then run_seq
            [emit_if (op_reg op \<ge> 8) (emit_byte (make_rex False False False True)),
             emit_byte (if is_push then 0x50 + reg else 0x58 + reg)]
          else if op_type op = OPERAND_IMM then
            if \<not> is_push then fail Encoding_Error
            else if fits_in_int8 (ucast (op_immediate op)) then
              run_seq [emit_byte 0x6A, emit_byte (ucast (op_immediate op))]
            else run_seq [emit_byte 0x68, emit_le32 (ucast (op_immediate op))]
          else if op_type op = OPERAND_MEM then run_seq
            [emit_rex True None (Some op) None, emit_byte (if is_push then 0xFF else 0x8F),
             emit_modrm_sib (if is_push then 6 else 0) op REG_SIZE_64]
          else fail Encoding_Error
      | _ \<Rightarrow> fail Encoding_Error)"

section \<open>Group-1 arithmetic\<close>

definition encode_arith_reg_imm :: "u8 \<Rightarrow> operand \<Rightarrow> operand \<Rightarrow> cmd" where
  "encode_arith_reg_imm reg_opcode dst src =
     (let sz = operation_size dst src;
          is_64bit = (sz = REG_SIZE_64);
          imm64 = op_immediate src;
          imm32 = (ucast imm64 :: u32);
          fits8 = fits_in_int8 imm32;
          fits_signed32 = (sint imm64 \<ge> -2147483648 \<and> sint imm64 \<le> 2147483647) in
      if op_reg dst = 0 \<and> \<not> fits8 \<and> (sz = REG_SIZE_64 \<or> sz = REG_SIZE_32) \<and>
         (sz \<noteq> REG_SIZE_64 \<or> fits_signed32) then run_seq
        [emit_if is_64bit (emit_rex True (Some dst) None None),
         emit_byte (0x05 + push_bit 3 reg_opcode), emit_le32 imm32]
      else if is_64bit \<and> \<not> fits_signed32 then fail Constraint_Error
      else if fits8 \<and> sz \<noteq> REG_SIZE_8 then run_seq
        [emit_if is_64bit (emit_rex True None (Some dst) None), emit_byte 0x83,
         emit_modrm_sib reg_opcode dst sz, emit_byte (ucast imm32)]
      else run_seq
        [emit_if is_64bit (emit_rex True None (Some dst) None), emit_byte 0x81,
         emit_modrm_sib reg_opcode dst sz, emit_le32 imm32])"

definition encode_arith_mem_imm :: "u8 \<Rightarrow> operand \<Rightarrow> operand \<Rightarrow> cmd" where
  "encode_arith_mem_imm reg_opcode dst src =
     (let sz = operation_size dst src;
          is_64bit = (sz = REG_SIZE_64);
          imm = (ucast (op_immediate src) :: u32) in
      if fits_in_int8 imm then run_seq
        [emit_rex is_64bit None (Some dst) None, emit_byte 0x83,
         emit_modrm_sib reg_opcode dst sz, emit_byte (ucast imm)]
      else run_seq
        [emit_rex is_64bit None (Some dst) None, emit_byte 0x81,
         emit_modrm_sib reg_opcode dst sz, emit_le32 imm])"

definition encode_arithmetic :: "parsed_instruction \<Rightarrow> cmd" where
  "encode_arithmetic inst =
     (case inst_operands inst of
        [dst, src] \<Rightarrow>
          if check_rex_conflict inst 0 1 then fail Constraint_Error
          else let sz = operation_size dst src; is_64bit = (sz = REG_SIZE_64) in
          (case x86_lookup_group1_reg_opcode (inst_type inst) of
             None \<Rightarrow> fail Encoding_Error
           | Some reg_opcode \<Rightarrow>
              if op_type dst = OPERAND_REG \<and> op_type src = OPERAND_IMM then
                encode_arith_reg_imm reg_opcode dst src
              else if op_type dst = OPERAND_REG \<and> op_type src = OPERAND_REG then run_seq
                [emit_rex is_64bit (Some src) (Some dst) None,
                 emit_byte (0x01 + push_bit 3 reg_opcode),
                 emit_modrm_sib (low3 (op_reg src)) dst sz]
              else if op_type dst = OPERAND_REG \<and> op_type src = OPERAND_MEM then run_seq
                [emit_rex is_64bit (Some dst) (Some src) None,
                 emit_byte (0x03 + push_bit 3 reg_opcode),
                 emit_modrm_sib (low3 (op_reg dst)) src sz]
              else if op_type dst = OPERAND_MEM \<and> op_type src = OPERAND_REG then run_seq
                [emit_rex is_64bit (Some src) (Some dst) None,
                 emit_byte (0x01 + push_bit 3 reg_opcode),
                 emit_modrm_sib (low3 (op_reg src)) dst sz]
              else if op_type dst = OPERAND_MEM \<and> op_type src = OPERAND_IMM then
                encode_arith_mem_imm reg_opcode dst src
              else fail Encoding_Error)
      | _ \<Rightarrow> fail Encoding_Error)"

section \<open>Unary arithmetic, lea, string moves\<close>

definition unary_reg_opcode :: "instruction_type \<Rightarrow> u8 option" where
  "unary_reg_opcode ty =
     (case ty of
        Unary_family INST_INC \<Rightarrow> Some 0
      | Unary_family INST_DEC \<Rightarrow> Some 1
      | Unary_family INST_NOT \<Rightarrow> Some 2
      | Unary_family INST_NEG \<Rightarrow> Some 3
      | _ \<Rightarrow> None)"

definition encode_unary_arithmetic :: "parsed_instruction \<Rightarrow> cmd" where
  "encode_unary_arithmetic inst =
     (case inst_operands inst of
        [op] \<Rightarrow>
          let sz = register_size op; is_64bit = (sz = REG_SIZE_64);
              opcode = (if inst_type inst = Unary_family INST_INC
                          \<or> inst_type inst = Unary_family INST_DEC then 0xFF else 0xF7) in
          (case unary_reg_opcode (inst_type inst) of
             None \<Rightarrow> fail Encoding_Error
           | Some reg_opcode \<Rightarrow>
              if op_type op = OPERAND_REG then run_seq
                [emit_rex is_64bit None (Some op) None, emit_byte opcode,
                 emit_modrm_sib reg_opcode op sz]
              else if op_type op = OPERAND_MEM then run_seq
                [emit_rex is_64bit None (Some op) None, emit_byte opcode,
                 emit_modrm_sib reg_opcode op sz]
              else fail Encoding_Error)
      | _ \<Rightarrow> fail Encoding_Error)"

definition encode_lea :: "parsed_instruction \<Rightarrow> cmd" where
  "encode_lea inst =
     (case inst_operands inst of
        [dst, src] \<Rightarrow>
          if op_type dst \<noteq> OPERAND_REG \<or> op_type src \<noteq> OPERAND_MEM then fail Encoding_Error
          else let sz = op_reg_size dst in
          if sz = REG_SIZE_8 \<or> sz = REG_SIZE_8H then fail Encoding_Error
          else run_seq
            [emit_if (sz = REG_SIZE_16) (emit_byte 0x66),
             emit_rex (sz = REG_SIZE_64) (Some dst) (Some src) None, emit_byte 0x8D,
             emit_modrm_sib (low3 (op_reg dst)) src sz]
      | _ \<Rightarrow> fail Encoding_Error)"

definition encode_string :: "parsed_instruction \<Rightarrow> cmd" where
  "encode_string inst =
     (if inst_operands inst \<noteq> [] then fail Encoding_Error
      else if inst_type inst = String_family INST_MOVSB then run_seq [emit_byte 0xA4]
      else if inst_type inst = String_family INST_MOVSW then
        run_seq [emit_byte 0x66, emit_byte 0xA5]
      else if inst_type inst = String_family INST_MOVSD then run_seq [emit_byte 0xA5]
      else if inst_type inst = String_family INST_MOVSQ then
        run_seq [emit_byte 0x48, emit_byte 0xA5]
      else fail Encoding_Error)"

section \<open>Every encoder implements the interface\<close>

interpretation mov_enc: instruction_encoder encode_mov
  by unfold_locales (unfold encode_mov_def encode_mov_reg_label_def encode_mov_reg_imm_def
      encode_mov_mem_imm_def Let_def, intro enc_intro)

interpretation push_pop_enc: instruction_encoder encode_push_pop
  by unfold_locales (unfold encode_push_pop_def Let_def, intro enc_intro)

interpretation arith_enc: instruction_encoder encode_arithmetic
  by unfold_locales (unfold encode_arithmetic_def encode_arith_reg_imm_def
      encode_arith_mem_imm_def Let_def, intro enc_intro)

interpretation unary_enc: instruction_encoder encode_unary_arithmetic
  by unfold_locales (unfold encode_unary_arithmetic_def Let_def, intro enc_intro)

interpretation lea_enc: instruction_encoder encode_lea
  by unfold_locales (unfold encode_lea_def Let_def, intro enc_intro)

interpretation string_enc: instruction_encoder encode_string
  by unfold_locales (unfold encode_string_def, intro enc_intro)

end
