(* ===== verification/Disassembler.thy ===== *)
theory Disassembler
  imports Encoder_GP
begin

text \<open>
  The instruction decoder and printer of src/x86_64_disassembler.c: register names, bounded
  reads, the ModRM operand parser and printer, \<open>decode_one\<close> and the loop over a code buffer.
  A decoder step answers \<open>Short\<close> where the C function returns -1, \<open>As_Data\<close> where it prints
  the first byte as \<open>db\<close>, and otherwise the text and the position after the instruction.
\<close>

section \<open>Printing\<close>

definition hex_digit :: "nat \<Rightarrow> char" where
  "hex_digit n = ''0123456789abcdef'' ! (n mod 16)"

text \<open>\<open>%llx\<close>.\<close>

fun hex_of :: "nat \<Rightarrow> string" where
  "hex_of n = (if n < 16 then [hex_digit n] else hex_of (n div 16) @ [hex_digit n])"

declare hex_of.simps [simp del]

text \<open>\<open>%02x\<close> on a byte and \<open>%016llx\<close>.\<close>

definition hex_byte :: "u8 \<Rightarrow> string" where
  "hex_byte b = [hex_digit (unat b div 16), hex_digit (unat b)]"

definition hex_address :: "u64 \<Rightarrow> string" where
  "hex_address a = (let s = hex_of (unat a) in replicate (16 - length s) CHR ''0'' @ s)"

definition hex_text :: "nat \<Rightarrow> string" where
  "hex_text n = ''0x'' @ hex_of n"

text \<open>A signed byte: \<open>-0x\<close> and the magnitude when negative.\<close>

definition imm8_text :: "u8 \<Rightarrow> string" where
  "imm8_text b = (if sint b < 0 then ''-'' @ hex_text (unat (- b)) else hex_text (unat b))"

definition append_with_sign :: "u64 \<Rightarrow> string" where
  "append_with_sign v =
     (if sint v < 0 then ''-'' @ hex_text (unat (- v))
      else if sint v > 0 then ''+'' @ hex_text (unat v) else ''+0x0'')"

section \<open>Register names\<close>

definition regs64 :: "string list" where
  "regs64 = [''rax'', ''rcx'', ''rdx'', ''rbx'', ''rsp'', ''rbp'', ''rsi'', ''rdi'',
     ''r8'', ''r9'', ''r10'', ''r11'', ''r12'', ''r13'', ''r14'', ''r15'']"

definition regs32 :: "string list" where
  "regs32 = [''eax'', ''ecx'', ''edx'', ''ebx'', ''esp'', ''ebp'', ''esi'', ''edi'',
     ''r8d'', ''r9d'', ''r10d'', ''r11d'', ''r12d'', ''r13d'', ''r14d'', ''r15d'']"

definition regs16 :: "string list" where
  "regs16 = [''ax'', ''cx'', ''dx'', ''bx'', ''sp'', ''bp'', ''si'', ''di'',
     ''r8w'', ''r9w'', ''r10w'', ''r11w'', ''r12w'', ''r13w'', ''r14w'', ''r15w'']"

definition regs_rex :: "string list" where
  "regs_rex = [''al'', ''cl'', ''dl'', ''bl'', ''spl'', ''bpl'', ''sil'', ''dil'',
     ''r8b'', ''r9b'', ''r10b'', ''r11b'', ''r12b'', ''r13b'', ''r14b'', ''r15b'']"

definition regs_no_rex :: "string list" where
  "regs_no_rex = [''al'', ''cl'', ''dl'', ''bl'', ''ah'', ''ch'', ''dh'', ''bh'',
     ''r8b'', ''r9b'', ''r10b'', ''r11b'', ''r12b'', ''r13b'', ''r14b'', ''r15b'']"

definition name_in :: "string list \<Rightarrow> nat \<Rightarrow> string" where
  "name_in regs reg_code = (if 15 < reg_code then ''?'' else regs ! reg_code)"

definition reg64_name :: "nat \<Rightarrow> string" where
  "reg64_name = name_in regs64"

definition reg32_name :: "nat \<Rightarrow> string" where
  "reg32_name = name_in regs32"

definition reg16_name :: "nat \<Rightarrow> string" where
  "reg16_name = name_in regs16"

definition reg8_name :: "nat \<Rightarrow> bool \<Rightarrow> string" where
  "reg8_name reg_code rex_present = name_in (if rex_present then regs_rex else regs_no_rex) reg_code"

definition select_reg_name :: "nat \<Rightarrow> nat \<Rightarrow> bool \<Rightarrow> string" where
  "select_reg_name reg_code size_bits rex_present =
     (if size_bits = 8 then reg8_name reg_code rex_present
      else if size_bits = 16 then reg16_name reg_code
      else if size_bits = 32 then reg32_name reg_code
      else reg64_name reg_code)"

section \<open>Bounded reads\<close>

definition byte_at :: "u8 list \<Rightarrow> nat \<Rightarrow> u8 option" where
  "byte_at buf pos = (if pos < length buf then Some (buf ! pos) else None)"

definition read_le16 :: "u8 list \<Rightarrow> nat \<Rightarrow> u16 option" where
  "read_le16 buf pos =
     (if pos + 2 > length buf then None else Some (of_le16 (buf ! pos) (buf ! (pos + 1))))"

definition read_le32 :: "u8 list \<Rightarrow> nat \<Rightarrow> u32 option" where
  "read_le32 buf pos =
     (if pos + 4 > length buf then None
      else Some (of_le32 (buf ! pos) (buf ! (pos + 1)) (buf ! (pos + 2)) (buf ! (pos + 3))))"

definition read_le64 :: "u8 list \<Rightarrow> nat \<Rightarrow> u64 option" where
  "read_le64 buf pos =
     (if pos + 8 > length buf then None else Some (of_le64 (drop pos buf)))"

section \<open>The register-or-memory operand\<close>

text \<open>What the ModRM byte, the SIB byte and the displacement say, before it is printed: a
  register code, or a memory operand with its displacement and the number of bytes it took.\<close>

record rm_mem =
  rm_base :: "nat option"
  rm_index :: "(nat \<times> nat) option"
  rm_rip :: bool
  rm_disp_size :: nat
  rm_disp :: u32

datatype rm_operand = Rm_Reg nat | Rm_Mem rm_mem

definition modrm_mod :: "u8 \<Rightarrow> nat" where
  "modrm_mod m = unat (drop_bit 6 m AND 3)"

definition modrm_reg :: "u8 \<Rightarrow> nat" where
  "modrm_reg m = unat (drop_bit 3 m AND 7)"

definition modrm_rm :: "u8 \<Rightarrow> nat" where
  "modrm_rm m = unat (m AND 7)"

text \<open>\<open>((rex >> i) & 1) << 3\<close>.\<close>

definition rex_ext :: "nat \<Rightarrow> u8 \<Rightarrow> nat" where
  "rex_ext i rex = (if bit rex i then 8 else 0)"

definition read_disp :: "u8 list \<Rightarrow> nat \<Rightarrow> nat \<Rightarrow> (u32 \<times> nat) option" where
  "read_disp code cursor disp_size =
     (if disp_size = 1 then map_option (\<lambda>b. (scast b, cursor + 1)) (byte_at code cursor)
      else if disp_size = 4 then map_option (\<lambda>d. (d, cursor + 4)) (read_le32 code cursor)
      else Some (0, cursor))"

definition parse_rm_mem :: "u8 list \<Rightarrow> nat \<Rightarrow> u8 \<Rightarrow> nat \<Rightarrow> nat \<Rightarrow> (rm_operand \<times> nat) option" where
  "parse_rm_mem code modrm_pos rex md rm =
     (let cursor = modrm_pos + 1;
          size_of = (\<lambda>zero_form. if md = 1 then 1 else if md = 2 then 4
                     else if zero_form then 4 else 0);
          with_disp = (\<lambda>base index rip disp_size cur.
            map_option (\<lambda>(disp, end). (Rm_Mem \<lparr>rm_base = base, rm_index = index, rm_rip = rip,
                rm_disp_size = disp_size, rm_disp = disp\<rparr>, end - modrm_pos))
              (read_disp code cur disp_size)) in
      if rm = 4 then
        (case byte_at code cursor of
           None \<Rightarrow> None
         | Some sib \<Rightarrow>
             let scale = 2 ^ modrm_mod sib; sib_index_raw = modrm_reg sib;
                 sib_base_raw = modrm_rm sib;
                 index = (if sib_index_raw = 4 then None
                          else Some (sib_index_raw + rex_ext 1 rex, scale));
                 no_base = (md = 0 \<and> sib_base_raw = 5)
             in with_disp (if no_base then None else Some (sib_base_raw + rex_ext 0 rex)) index False
                  (size_of no_base) (cursor + 1))
      else let rip = (md = 0 \<and> rm = 5)
           in with_disp (Some (rm + rex_ext 0 rex)) None rip (size_of rip) cursor)"

definition parse_rm :: "u8 list \<Rightarrow> nat \<Rightarrow> u8 \<Rightarrow> (rm_operand \<times> nat) option" where
  "parse_rm code modrm_pos rex =
     (case byte_at code modrm_pos of
        None \<Rightarrow> None
      | Some modrm \<Rightarrow>
          if modrm_mod modrm = 3 then Some (Rm_Reg (modrm_rm modrm + rex_ext 0 rex), 1)
          else parse_rm_mem code modrm_pos rex (modrm_mod modrm) (modrm_rm modrm))"

definition scale_text :: "nat \<Rightarrow> string" where
  "scale_text n = [hex_digit n]"

definition disp_text :: "bool \<Rightarrow> u32 \<Rightarrow> string" where
  "disp_text needs_plus disp =
     (if \<not> needs_plus then hex_text (unat disp)
      else if sint disp < 0 then ''-'' @ hex_text (unat (- disp))
      else ''+'' @ hex_text (unat disp))"

definition print_mem :: "rm_mem \<Rightarrow> string" where
  "print_mem m = ''['' @
     (if rm_rip m then ''rip'' @ append_with_sign (scast (rm_disp m))
      else (case rm_base m of Some b \<Rightarrow> reg64_name b | None \<Rightarrow> []) @
        (case rm_index m of
           Some (i, scale) \<Rightarrow> (if rm_base m \<noteq> None then ''+'' else []) @ reg64_name i @ ''*'' @ scale_text scale
         | None \<Rightarrow> []) @
        (if rm_disp_size m > 0 \<or> (rm_base m = None \<and> rm_index m = None)
         then disp_text (rm_base m \<noteq> None \<or> rm_index m \<noteq> None) (rm_disp m) else [])) @ '']''"

definition print_rm :: "rm_operand \<Rightarrow> nat \<Rightarrow> bool \<Rightarrow> string" where
  "print_rm opnd size_bits rex_present =
     (case opnd of Rm_Reg r \<Rightarrow> select_reg_name r size_bits rex_present | Rm_Mem m \<Rightarrow> print_mem m)"

definition format_rm_operand :: "u8 list \<Rightarrow> nat \<Rightarrow> u8 \<Rightarrow> nat \<Rightarrow> (string \<times> nat) option" where
  "format_rm_operand code modrm_pos rex size_bits =
     map_option (\<lambda>(opnd, rm_len). (print_rm opnd size_bits (rex \<noteq> 0), rm_len))
       (parse_rm code modrm_pos rex)"

section \<open>Decoding one instruction\<close>

text \<open>Where an instruction is decoded: the buffer, its base address, the start offset and what
  the prefixes set.\<close>

record dis_env =
  de_code :: "u8 list"
  de_base :: u64
  de_start :: nat
  de_override :: bool
  de_rex :: u8

datatype step_out = Short | As_Data | Text_To string nat

definition legacy_prefix :: "u8 \<Rightarrow> bool" where
  "legacy_prefix b \<longleftrightarrow> b \<in> {0x67, 0xF0, 0xF2, 0xF3, 0x2E, 0x36, 0x3E, 0x26, 0x64, 0x65}"

text \<open>The prefix loop over the bytes from the start: their number, the operand-size override
  and the last REX byte.\<close>

fun scan_prefixes :: "u8 list \<Rightarrow> bool \<Rightarrow> u8 \<Rightarrow> nat \<times> bool \<times> u8" where
  "scan_prefixes [] ov rex = (0, ov, rex)"
| "scan_prefixes (b # bs) ov rex =
     (if b = 0x66 then apfst Suc (scan_prefixes bs True rex)
      else if legacy_prefix b then apfst Suc (scan_prefixes bs ov rex)
      else if b \<ge> 0x40 \<and> b \<le> 0x4F then apfst Suc (scan_prefixes bs ov b)
      else (0, ov, rex))"

definition de_w :: "dis_env \<Rightarrow> bool" where
  "de_w e \<longleftrightarrow> bit (de_rex e) 3"

definition de_bits :: "dis_env \<Rightarrow> nat" where
  "de_bits e = (if de_w e then 64 else if de_override e then 16 else 32)"

definition de_reg :: "dis_env \<Rightarrow> u8 \<Rightarrow> nat" where
  "de_reg e modrm = modrm_reg modrm + rex_ext 2 (de_rex e)"

definition de_name :: "dis_env \<Rightarrow> nat \<Rightarrow> nat \<Rightarrow> string" where
  "de_name e r bits = select_reg_name r bits (de_rex e \<noteq> 0)"

text \<open>Reading a field and going on behind it; \<open>Short\<close> when the buffer ends first.\<close>

definition with_byte :: "dis_env \<Rightarrow> nat \<Rightarrow> (u8 \<Rightarrow> nat \<Rightarrow> step_out) \<Rightarrow> step_out" where
  "with_byte e cursor k =
     (case byte_at (de_code e) cursor of None \<Rightarrow> Short | Some b \<Rightarrow> k b (cursor + 1))"

definition with_imm16 :: "dis_env \<Rightarrow> nat \<Rightarrow> (u16 \<Rightarrow> nat \<Rightarrow> step_out) \<Rightarrow> step_out" where
  "with_imm16 e cursor k =
     (case read_le16 (de_code e) cursor of None \<Rightarrow> Short | Some w \<Rightarrow> k w (cursor + 2))"

definition with_imm32 :: "dis_env \<Rightarrow> nat \<Rightarrow> (u32 \<Rightarrow> nat \<Rightarrow> step_out) \<Rightarrow> step_out" where
  "with_imm32 e cursor k =
     (case read_le32 (de_code e) cursor of None \<Rightarrow> Short | Some w \<Rightarrow> k w (cursor + 4))"

definition with_imm64 :: "dis_env \<Rightarrow> nat \<Rightarrow> (u64 \<Rightarrow> nat \<Rightarrow> step_out) \<Rightarrow> step_out" where
  "with_imm64 e cursor k =
     (case read_le64 (de_code e) cursor of None \<Rightarrow> Short | Some w \<Rightarrow> k w (cursor + 8))"

definition with_modrm :: "dis_env \<Rightarrow> nat \<Rightarrow> (u8 \<Rightarrow> step_out) \<Rightarrow> step_out" where
  "with_modrm e cursor k =
     (case byte_at (de_code e) cursor of None \<Rightarrow> Short | Some modrm \<Rightarrow> k modrm)"

definition with_rm :: "dis_env \<Rightarrow> nat \<Rightarrow> nat \<Rightarrow> (string \<Rightarrow> nat \<Rightarrow> step_out) \<Rightarrow> step_out" where
  "with_rm e cursor bits k =
     (case format_rm_operand (de_code e) cursor (de_rex e) bits of
        None \<Rightarrow> Short
      | Some (rm_text, rm_len) \<Rightarrow> k rm_text (cursor + rm_len))"

definition jump_target :: "dis_env \<Rightarrow> nat \<Rightarrow> u64 \<Rightarrow> u64" where
  "jump_target e cursor rel =
     de_base e + of_nat (de_start e) + of_nat (cursor - de_start e) + rel"

definition cc_suffixes :: "string list" where
  "cc_suffixes = [''o'', ''no'', ''b'', ''ae'', ''e'', ''ne'', ''be'', ''a'',
     ''s'', ''ns'', ''p'', ''np'', ''l'', ''ge'', ''le'', ''g'']"

text \<open>The sixteen names \<open>jcc_names\<close>, \<open>cmov_names\<close> and \<open>set_names\<close>, by the low four bits.\<close>

definition cc_name :: "string \<Rightarrow> u8 \<Rightarrow> string" where
  "cc_name stem opcode = stem @ cc_suffixes ! unat (opcode AND 0xF)"

text \<open>\<open>mnemonic reg, r/m\<close> and \<open>mnemonic r/m, reg\<close> with operand sizes for the two operands.\<close>

definition reg_rm :: "dis_env \<Rightarrow> nat \<Rightarrow> string \<Rightarrow> nat \<Rightarrow> nat \<Rightarrow> step_out" where
  "reg_rm e cursor mn reg_bits rm_bits =
     with_modrm e cursor (\<lambda>modrm. with_rm e cursor rm_bits (\<lambda>t c.
       Text_To (mn @ '' '' @ de_name e (de_reg e modrm) reg_bits @ '', '' @ t) c))"

definition rm_reg :: "dis_env \<Rightarrow> nat \<Rightarrow> string \<Rightarrow> nat \<Rightarrow> nat \<Rightarrow> step_out" where
  "rm_reg e cursor mn reg_bits rm_bits =
     with_modrm e cursor (\<lambda>modrm. with_rm e cursor rm_bits (\<lambda>t c.
       Text_To (mn @ '' '' @ t @ '', '' @ de_name e (de_reg e modrm) reg_bits) c))"

definition bit_ext_mnemonic :: "nat \<Rightarrow> string option" where
  "bit_ext_mnemonic ext =
     (if ext = 4 then Some ''bt'' else if ext = 5 then Some ''bts''
      else if ext = 6 then Some ''btr'' else if ext = 7 then Some ''btc'' else None)"

definition decode_0f :: "dis_env \<Rightarrow> nat \<Rightarrow> step_out" where
  "decode_0f e cursor0 = with_byte e cursor0 (\<lambda>op2 cursor.
     if op2 = 0x05 then Text_To ''syscall'' cursor
     else if op2 = 0x1F then with_modrm e cursor (\<lambda>modrm.
       if modrm_reg modrm \<noteq> 0 then As_Data
       else with_rm e cursor 32 (\<lambda>t c.
         Text_To (if modrm_mod modrm = 3 then ''nop'' else ''nop '' @ t) c))
     else if op2 \<ge> 0x80 \<and> op2 \<le> 0x8F then with_imm32 e cursor (\<lambda>rel c.
       Text_To (cc_name ''j'' op2 @ '' '' @ hex_text (unat (jump_target e c (scast rel)))) c)
     else if op2 \<ge> 0x40 \<and> op2 \<le> 0x4F then
       reg_rm e cursor (cc_name ''cmov'' op2) (de_bits e) (de_bits e)
     else if op2 \<ge> 0x90 \<and> op2 \<le> 0x9F then with_rm e cursor 8 (\<lambda>t c.
       Text_To (cc_name ''set'' op2 @ '' '' @ t) c)
     else if op2 = 0xB6 \<or> op2 = 0xB7 then
       reg_rm e cursor ''movzx'' (de_bits e) (if op2 = 0xB6 then 8 else 16)
     else if op2 = 0xBE \<or> op2 = 0xBF then
       reg_rm e cursor ''movsx'' (de_bits e) (if op2 = 0xBE then 8 else 16)
     else if op2 = 0xAF then reg_rm e cursor ''imul'' (de_bits e) (de_bits e)
     else if op2 = 0xBC \<or> op2 = 0xBD then
       reg_rm e cursor (if op2 = 0xBC then ''bsf'' else ''bsr'') (de_bits e) (de_bits e)
     else if op2 = 0xC0 \<or> op2 = 0xC1 then
       let bits = (if op2 = 0xC0 then 8 else de_bits e) in rm_reg e cursor ''xadd'' bits bits
     else if op2 = 0xB0 \<or> op2 = 0xB1 then
       let bits = (if op2 = 0xB0 then 8 else de_bits e) in rm_reg e cursor ''cmpxchg'' bits bits
     else if op2 = 0xA3 \<or> op2 = 0xAB \<or> op2 = 0xB3 \<or> op2 = 0xBB then
       rm_reg e cursor (if op2 = 0xAB then ''bts'' else if op2 = 0xB3 then ''btr''
         else if op2 = 0xBB then ''btc'' else ''bt'') (de_bits e) (de_bits e)
     else if op2 = 0xBA then with_modrm e cursor (\<lambda>modrm.
       case bit_ext_mnemonic (modrm_reg modrm) of
         None \<Rightarrow> As_Data
       | Some mn \<Rightarrow> with_rm e cursor (de_bits e) (\<lambda>t c. with_byte e c (\<lambda>imm8 c'.
           Text_To (mn @ '' '' @ t @ '', '' @ hex_text (unat imm8)) c')))
     else As_Data)"

definition decode_mov_imm :: "dis_env \<Rightarrow> u8 \<Rightarrow> nat \<Rightarrow> step_out" where
  "decode_mov_imm e opcode cursor =
     (let reg = unat (opcode - 0xB8) + rex_ext 0 (de_rex e);
          out = (\<lambda>imm c. Text_To (''mov '' @ de_name e reg (de_bits e) @ '', '' @ hex_text imm) c) in
      if de_w e then with_imm64 e cursor (\<lambda>imm. out (unat imm))
      else if de_override e then with_imm16 e cursor (\<lambda>imm. out (unat imm))
      else with_imm32 e cursor (\<lambda>imm. out (unat imm)))"

section \<open>The ModRM group\<close>

definition modrm_group :: "u8 list" where
  "modrm_group = [0x80, 0x88, 0x8A, 0xC0, 0xC1, 0xC7, 0x81, 0x83, 0xFF, 0xF6, 0xF7, 0x8F,
     0x8D, 0x63, 0x89, 0x8B, 0x85, 0x01, 0x03, 0x29, 0x2B, 0x39, 0x3B, 0x31, 0x33, 0x21, 0x23,
     0x09, 0x0B]"

definition alu_mnemonic :: "u8 \<Rightarrow> (string \<times> bool) option" where
  "alu_mnemonic opcode = map_of
     [(0x01, (''add'', False)), (0x03, (''add'', True)), (0x29, (''sub'', False)),
      (0x2B, (''sub'', True)), (0x39, (''cmp'', False)), (0x3B, (''cmp'', True)),
      (0x31, (''xor'', False)), (0x33, (''xor'', True)), (0x21, (''and'', False)),
      (0x23, (''and'', True)), (0x09, (''or'', False)), (0x0B, (''or'', True))] opcode"

definition imm_for :: "dis_env \<Rightarrow> string \<Rightarrow> nat \<Rightarrow> step_out" where
  "imm_for e stem cursor =
     (if de_override e then with_imm16 e cursor (\<lambda>imm c. Text_To (stem @ hex_text (unat imm)) c)
      else with_imm32 e cursor (\<lambda>imm c. Text_To (stem @ hex_text (unat imm)) c))"

definition group1_imm :: "dis_env \<Rightarrow> u8 \<Rightarrow> string \<Rightarrow> nat \<Rightarrow> step_out" where
  "group1_imm e opcode stem cursor =
     (if opcode = 0x80 then with_byte e cursor (\<lambda>b c. Text_To (stem @ hex_text (unat b)) c)
      else if opcode = 0x81 then imm_for e stem cursor
      else with_byte e cursor (\<lambda>b c. Text_To (stem @ imm8_text b) c))"

definition group5_mnemonic :: "nat \<Rightarrow> string option" where
  "group5_mnemonic ext =
     (if ext = 0 then Some ''inc'' else if ext = 1 then Some ''dec'' else if ext = 2 then Some ''call''
      else if ext = 4 then Some ''jmp'' else if ext = 6 then Some ''push'' else None)"

definition group3_text :: "dis_env \<Rightarrow> u8 \<Rightarrow> nat \<Rightarrow> string \<Rightarrow> nat \<Rightarrow> step_out" where
  "group3_text e opcode ext t c =
     (if ext = 0 then
        let stem = ''test '' @ t @ '', '' in
        if opcode = 0xF6 then with_byte e c (\<lambda>b c'. Text_To (stem @ hex_text (unat b)) c')
        else if de_w e then with_imm32 e c (\<lambda>imm c'. Text_To (stem @ hex_text (unat imm)) c')
        else imm_for e stem c
      else if ext = 2 then Text_To (''not '' @ t) c
      else if ext = 3 then Text_To (''neg '' @ t) c
      else As_Data)"

text \<open>The text of one opcode of the group, given the operand text and the position behind it.\<close>

definition modrm_text :: "dis_env \<Rightarrow> u8 \<Rightarrow> u8 \<Rightarrow> string \<Rightarrow> nat \<Rightarrow> step_out" where
  "modrm_text e opcode modrm t c =
     (let ext = modrm_reg modrm;
          reg = (\<lambda>bits. de_name e (de_reg e modrm) bits);
          two = (\<lambda>mn a b. Text_To (mn @ '' '' @ a @ '', '' @ b) c) in
      if opcode = 0x8D then two ''lea'' (reg (de_bits e)) t
      else if opcode = 0x63 then two ''movsxd'' (reg64_name (de_reg e modrm)) t
      else if opcode = 0x89 then two ''mov'' t (reg (de_bits e))
      else if opcode = 0x8B then two ''mov'' (reg (de_bits e)) t
      else if opcode = 0x88 then two ''mov'' t (reg 8)
      else if opcode = 0x8A then two ''mov'' (reg 8) t
      else if opcode = 0x85 then two ''test'' t (reg (de_bits e))
      else if opcode = 0xC0 \<or> opcode = 0xC1 then
        (case x86_lookup_group2_mnemonic (of_nat ext) of
           None \<Rightarrow> As_Data
         | Some mn \<Rightarrow> with_byte e c (\<lambda>imm8 c'.
             Text_To (mn @ '' '' @ t @ '', '' @ hex_text (unat imm8)) c'))
      else if alu_mnemonic opcode \<noteq> None then
        (let (mn, reg_dst) = the (alu_mnemonic opcode) in
         if reg_dst then two mn (reg (de_bits e)) t else two mn t (reg (de_bits e)))
      else if opcode = 0xC7 then
        (if ext \<noteq> 0 then As_Data else imm_for e (''mov '' @ t @ '', '') c)
      else if opcode = 0x80 \<or> opcode = 0x81 \<or> opcode = 0x83 then
        (case x86_lookup_group1_mnemonic (of_nat ext) of
           None \<Rightarrow> As_Data
         | Some mn \<Rightarrow> group1_imm e opcode (mn @ '' '' @ t @ '', '') c)
      else if opcode = 0xFF then
        (case group5_mnemonic ext of None \<Rightarrow> As_Data | Some mn \<Rightarrow> Text_To (mn @ '' '' @ t) c)
      else if opcode = 0x8F then
        (if ext = 0 then Text_To (''pop '' @ t) c else As_Data)
      else group3_text e opcode ext t c)"

definition rm_bits_of :: "dis_env \<Rightarrow> u8 \<Rightarrow> nat" where
  "rm_bits_of e opcode =
     (if opcode = 0x63 then 32
      else if opcode \<in> {0x80, 0x88, 0x8A, 0xC0, 0xF6} then 8 else de_bits e)"

definition decode_modrm_group :: "dis_env \<Rightarrow> u8 \<Rightarrow> nat \<Rightarrow> step_out" where
  "decode_modrm_group e opcode cursor =
     with_modrm e cursor (\<lambda>modrm. with_rm e cursor (rm_bits_of e opcode) (modrm_text e opcode modrm))"

section \<open>The opcode switch\<close>

definition decode_opcode :: "dis_env \<Rightarrow> u8 \<Rightarrow> nat \<Rightarrow> step_out" where
  "decode_opcode e opcode cursor =
     (let reg_of = (\<lambda>low. reg64_name (unat (opcode - low) + rex_ext 0 (de_rex e)));
          rel8 = (\<lambda>mn. with_byte e cursor (\<lambda>b c.
            Text_To (mn @ '' '' @ hex_text (unat (jump_target e c (scast b)))) c)) in
      if opcode \<ge> 0x50 \<and> opcode \<le> 0x57 then Text_To (''push '' @ reg_of 0x50) cursor
      else if opcode \<ge> 0x58 \<and> opcode \<le> 0x5F then Text_To (''pop '' @ reg_of 0x58) cursor
      else if opcode = 0x6A then with_byte e cursor (\<lambda>b c. Text_To (''push '' @ imm8_text b) c)
      else if opcode = 0x68 then with_imm32 e cursor (\<lambda>imm c.
        Text_To (''push '' @ hex_text (unat imm)) c)
      else if opcode \<ge> 0x70 \<and> opcode \<le> 0x7F then rel8 (cc_name ''j'' opcode)
      else if opcode = 0xEB then rel8 ''jmp''
      else if opcode = 0x90 then Text_To ''nop'' cursor
      else if opcode = 0xC9 then Text_To ''leave'' cursor
      else if opcode = 0x0F then decode_0f e cursor
      else if opcode \<ge> 0xB8 \<and> opcode \<le> 0xBF then decode_mov_imm e opcode cursor
      else if opcode = 0xE8 \<or> opcode = 0xE9 then with_imm32 e cursor (\<lambda>rel c.
        Text_To ((if opcode = 0xE8 then ''call '' else ''jmp '')
          @ hex_text (unat (jump_target e c (scast rel)))) c)
      else if opcode = 0xC3 then Text_To ''ret'' cursor
      else if opcode \<in> set modrm_group then decode_modrm_group e opcode cursor
      else As_Data)"

record dis_decoded =
  dis_bytes :: "u8 list"
  dis_text :: string

text \<open>The result: the C function returns -1, it decodes (\<open>consumed\<close> and \<open>byte_count\<close> are both
  the number of bytes), or the copy of that many bytes into \<open>bytes[15]\<close> runs past that array.\<close>

datatype decode_result = No_Decode | Decoded dis_decoded | Bytes_Overrun nat

abbreviation DIS_MAX_INST_BYTES :: nat where "DIS_MAX_INST_BYTES \<equiv> 15"

definition finish_step :: "u8 list \<Rightarrow> nat \<Rightarrow> step_out \<Rightarrow> decode_result" where
  "finish_step code start out =
     (case out of
        Short \<Rightarrow> No_Decode
      | As_Data \<Rightarrow> Decoded \<lparr>dis_bytes = [code ! start], dis_text = ''db 0x'' @ hex_byte (code ! start)\<rparr>
      | Text_To t cursor \<Rightarrow>
          let n = cursor - start in
          if DIS_MAX_INST_BYTES < n then Bytes_Overrun n
          else Decoded \<lparr>dis_bytes = take n (drop start code), dis_text = t\<rparr>)"

definition decode_one :: "u8 list \<Rightarrow> u64 \<Rightarrow> nat \<Rightarrow> decode_result" where
  "decode_one code base start =
     (if length code \<le> start then No_Decode
      else case scan_prefixes (drop start code) False 0 of (n, ov, rex) \<Rightarrow>
        let e = \<lparr>de_code = code, de_base = base, de_start = start, de_override = ov, de_rex = rex\<rparr>
        in finish_step code start (with_byte e (start + n) (decode_opcode e)))"

section \<open>The loop over a code buffer\<close>

definition dis_line :: "u64 \<Rightarrow> u8 list \<Rightarrow> string \<Rightarrow> string" where
  "dis_line addr bs t =
     (let hex = concat (map (\<lambda>(i, b). (if i = 0 then [] else '' '') @ hex_byte b) (enumerate 0 bs))
      in hex_address addr @ '': '' @ hex @ replicate (43 - length hex) CHR '' '' @ '' '' @ t)"

definition dis_fallback_line :: "u64 \<Rightarrow> u8 \<Rightarrow> string" where
  "dis_fallback_line addr b =
     hex_address addr @ '': '' @ hex_byte b @ replicate 42 CHR '' '' @ ''db 0x'' @ hex_byte b"

text \<open>One line of output with the bytes it covers; \<open>None\<close> when a decode overran its buffer.\<close>

function disassemble_from :: "u8 list \<Rightarrow> u64 \<Rightarrow> nat \<Rightarrow> (u8 list \<times> string) list option" where
  "disassemble_from code base offset =
     (if length code \<le> offset then Some []
      else let addr = base + of_nat offset; b = code ! offset;
               single = (\<lambda>_::unit. map_option (Cons ([b], dis_fallback_line addr b))
                           (disassemble_from code base (offset + 1))) in
        (case decode_one code base offset of
           Bytes_Overrun _ \<Rightarrow> None
         | No_Decode \<Rightarrow> single ()
         | Decoded d \<Rightarrow>
             if dis_bytes d = [] then single ()
             else map_option (Cons (dis_bytes d, dis_line addr (dis_bytes d) (dis_text d)))
                    (disassemble_from code base (offset + length (dis_bytes d)))))"
  by pat_completeness auto
termination
  by (relation "measure (\<lambda>(code, base, offset). length code - offset)")
    (auto simp: neq_Nil_conv)

declare disassemble_from.simps [simp del]

definition disassemble_code_buffer :: "u8 list \<Rightarrow> u64 \<Rightarrow> string list option" where
  "disassemble_code_buffer code base = map_option (map snd) (disassemble_from code base 0)"

end
