(* ===== verification/Decode_Facts.thy ===== *)
theory Decode_Facts
  imports Disassembler
begin

text \<open>
  What holds of every decoder step: it consumes at least one and at most the bytes that are
  there, it stays within eleven bytes after the prefixes, and its text fits the 192 byte
  buffer. From these, the loop over a code buffer terminates and its lines partition the code.
\<close>

section \<open>Lengths of the printed pieces\<close>

lemma length_hex_of: "n < 16 ^ k \<Longrightarrow> 0 < k \<Longrightarrow> length (hex_of n) \<le> k"
proof (induction k arbitrary: n)
  case (Suc k)
  show ?case
  proof (cases "n < 16")
    case True
    then show ?thesis by (simp add: hex_of.simps [of n])
  next
    case False
    with Suc.prems(1) have k: "0 < k" by (cases k) simp_all
    have "n div 16 < 16 ^ k" using Suc.prems(1) by (simp add: less_mult_imp_div_less mult.commute)
    from Suc.IH [OF this k] False show ?thesis by (simp add: hex_of.simps [of n])
  qed
qed simp

lemma unat_bound: "unat w < 2 ^ LENGTH('a)" for w :: "'a::len word"
  by (rule unsigned_less)

lemma length_hex_word:
  "length (hex_of (unat (b :: u8))) \<le> 2" "length (hex_of (unat (w :: u16))) \<le> 4"
  "length (hex_of (unat (d :: u32))) \<le> 8" "length (hex_of (unat (q :: u64))) \<le> 16"
  using unat_bound [of b] unat_bound [of w] unat_bound [of d] unat_bound [of q]
  by (auto intro!: length_hex_of)

lemma length_hex_byte [simp]: "length (hex_byte b) = 2"
  by (simp add: hex_byte_def)

lemma length_hex_text:
  "length (hex_text (unat (b :: u8))) \<le> 4" "length (hex_text (unat (w :: u16))) \<le> 6"
  "length (hex_text (unat (d :: u32))) \<le> 10" "length (hex_text (unat (q :: u64))) \<le> 18"
  using length_hex_word by (auto simp: hex_text_def add_leD2)

lemma length_imm8_text: "length (imm8_text b) \<le> 5"
  using length_hex_text(1) [of b] length_hex_text(1) [of "- b"] by (auto simp: imm8_text_def)

lemma length_append_with_sign: "length (append_with_sign v) \<le> 19"
  using length_hex_text(4) [of v] length_hex_text(4) [of "- v"] by (auto simp: append_with_sign_def)

lemma length_disp_text: "length (disp_text p d) \<le> 11"
  using length_hex_text(3) [of d] length_hex_text(3) [of "- d"] by (auto simp: disp_text_def)

lemma length_name_in:
  "\<forall>s \<in> set regs. length s \<le> 4 \<Longrightarrow> 16 \<le> length regs \<Longrightarrow> length (name_in regs r) \<le> 4"
  by (auto simp: name_in_def intro: nth_mem)

lemma length_reg_names:
  "length (reg64_name r) \<le> 4" "length (reg32_name r) \<le> 4" "length (reg16_name r) \<le> 4"
  "length (reg8_name r p) \<le> 4"
  by (simp_all add: reg64_name_def reg32_name_def reg16_name_def reg8_name_def regs64_def
      regs32_def regs16_def regs_rex_def regs_no_rex_def length_name_in)

lemma length_select_reg_name: "length (select_reg_name r bits p) \<le> 4"
  by (simp add: select_reg_name_def length_reg_names)

lemma length_print_mem: "length (print_mem m) \<le> 30"
proof -
  have "length (reg64_name b) \<le> 4" "length (append_with_sign d) \<le> 19" "length (disp_text p w) \<le> 11"
    for b d p w
    using length_reg_names(1) length_append_with_sign length_disp_text by blast+
  note len = this
  show ?thesis
  proof (cases "rm_rip m")
    case True
    then show ?thesis using len(2) [of "scast (rm_disp m)"] by (simp add: print_mem_def)
  next
    case False
    have base: "length (case rm_base m of Some b \<Rightarrow> reg64_name b | None \<Rightarrow> []) \<le> 4"
      by (simp add: len(1) split: option.split)
    have index: "length (case rm_index m of
           Some (i, scale) \<Rightarrow> (if rm_base m \<noteq> None then ''+'' else []) @ reg64_name i @ ''*'' @ scale_text scale
         | None \<Rightarrow> []) \<le> 7"
      using le_trans [OF len(1), of 5] len(1) by (auto simp: scale_text_def split: option.split)
    show ?thesis
      using False base index len(3) [of "rm_base m \<noteq> None \<or> rm_index m \<noteq> None" "rm_disp m"]
      by (simp add: print_mem_def)
  qed
qed

lemma length_print_rm: "length (print_rm r bits p) \<le> 30"
  using length_print_mem length_select_reg_name [THEN le_trans, of 30]
  by (simp add: print_rm_def split: rm_operand.split)

section \<open>Every step stays inside the code and the text buffer\<close>

definition step_ok :: "dis_env \<Rightarrow> nat \<Rightarrow> nat \<Rightarrow> step_out \<Rightarrow> bool" where
  "step_ok e lo hi out \<longleftrightarrow>
     (\<forall>t c. out = Text_To t c \<longrightarrow> lo < c \<and> c \<le> hi \<and> c \<le> length (de_code e) \<and> length t < 192)"

named_theorems step_intro

text \<open>\<open>len_le n t\<close>: a bound on a printed text, built up along the text.\<close>

definition len_le :: "nat \<Rightarrow> string \<Rightarrow> bool" where
  "len_le n t \<longleftrightarrow> length t \<le> n"

named_theorems len_intro

lemma len_le_build [len_intro]:
  "len_le 0 []" "len_le n t \<Longrightarrow> len_le (Suc n) (c # t)"
  "len_le n t \<Longrightarrow> len_le m u \<Longrightarrow> len_le (n + m) (t @ u)"
  "len_le n t \<Longrightarrow> len_le m u \<Longrightarrow> len_le (n + m) (if b then t else u)"
  by (auto simp: len_le_def)

lemma step_ok_Short [step_intro]: "step_ok e lo hi Short"
  by (simp add: step_ok_def)

lemma step_ok_As_Data [step_intro]: "step_ok e lo hi As_Data"
  by (simp add: step_ok_def)

lemma step_ok_Text [step_intro]:
  "len_le n t \<Longrightarrow> n < 192 \<Longrightarrow> lo < c \<Longrightarrow> c \<le> hi \<Longrightarrow> c \<le> length (de_code e) \<Longrightarrow>
   step_ok e lo hi (Text_To t c)"
  by (simp add: step_ok_def len_le_def)

lemma step_ok_if [step_intro]:
  "(b \<Longrightarrow> step_ok e lo hi x) \<Longrightarrow> (\<not> b \<Longrightarrow> step_ok e lo hi y) \<Longrightarrow> step_ok e lo hi (if b then x else y)"
  by simp

lemma step_ok_option [step_intro]:
  "step_ok e lo hi x \<Longrightarrow> (\<And>v. opt = Some v \<Longrightarrow> step_ok e lo hi (y v)) \<Longrightarrow>
   step_ok e lo hi (case opt of None \<Rightarrow> x | Some v \<Rightarrow> y v)"
  by (cases opt) simp_all

lemma step_ok_with_byte [step_intro]:
  "(\<And>b. cursor + 1 \<le> length (de_code e) \<Longrightarrow> step_ok e lo hi (k b (cursor + 1))) \<Longrightarrow>
   step_ok e lo hi (with_byte e cursor k)"
  by (simp add: with_byte_def byte_at_def step_ok_Short)

lemma step_ok_with_modrm [step_intro]:
  "(\<And>b. cursor < length (de_code e) \<Longrightarrow> step_ok e lo hi (k b)) \<Longrightarrow>
   step_ok e lo hi (with_modrm e cursor k)"
  by (simp add: with_modrm_def byte_at_def step_ok_Short)

lemma step_ok_with_imm [step_intro]:
  "(\<And>w. cursor + 2 \<le> length (de_code e) \<Longrightarrow> step_ok e lo hi (k16 w (cursor + 2))) \<Longrightarrow>
   step_ok e lo hi (with_imm16 e cursor k16)"
  "(\<And>w. cursor + 4 \<le> length (de_code e) \<Longrightarrow> step_ok e lo hi (k32 w (cursor + 4))) \<Longrightarrow>
   step_ok e lo hi (with_imm32 e cursor k32)"
  "(\<And>w. cursor + 8 \<le> length (de_code e) \<Longrightarrow> step_ok e lo hi (k64 w (cursor + 8))) \<Longrightarrow>
   step_ok e lo hi (with_imm64 e cursor k64)"
  by (simp_all add: with_imm16_def with_imm32_def with_imm64_def read_le16_def read_le32_def
      read_le64_def step_ok_Short)

lemma read_disp_bounds:
  "read_disp code cursor n = Some (d, c) \<Longrightarrow> cursor \<le> length code \<Longrightarrow>
   cursor \<le> c \<and> c \<le> cursor + 4 \<and> c \<le> length code"
  by (auto simp: read_disp_def byte_at_def read_le32_def split: if_splits)

lemma parse_rm_bounds:
  assumes "parse_rm code pos rex = Some (r, n)"
  shows "0 < n \<and> n \<le> 6 \<and> pos + n \<le> length code"
proof (cases "modrm_mod (code ! pos) = 3")
  case True
  with assms show ?thesis by (auto simp: parse_rm_def byte_at_def split: if_splits)
next
  case False
  with assms have pos: "pos < length code"
    and mem: "parse_rm_mem code pos rex (modrm_mod (code ! pos)) (modrm_rm (code ! pos)) = Some (r, n)"
    by (auto simp: parse_rm_def byte_at_def split: if_splits)
  from mem obtain cur z d c where "read_disp code cur z = Some (d, c)" "n = c - pos"
    "cur = pos + 1 \<or> (cur = pos + 2 \<and> pos + 1 < length code)"
    by (auto simp: parse_rm_mem_def Let_def byte_at_def split: if_splits option.splits)
  with read_disp_bounds [of code cur z d c] pos show ?thesis by auto
qed

lemma step_ok_with_rm [step_intro]:
  assumes "\<And>t c. cursor < c \<Longrightarrow> c \<le> cursor + 6 \<Longrightarrow> c \<le> length (de_code e) \<Longrightarrow> len_le 30 t \<Longrightarrow>
    step_ok e lo hi (k t c)"
  shows "step_ok e lo hi (with_rm e cursor bits k)"
proof (cases "parse_rm (de_code e) cursor (de_rex e)")
  case None
  then show ?thesis by (simp add: with_rm_def format_rm_operand_def step_ok_Short)
next
  case (Some p)
  obtain r n where p: "p = (r, n)" by fastforce
  with Some have "0 < n \<and> n \<le> 6 \<and> cursor + n \<le> length (de_code e)"
    using parse_rm_bounds by blast
  with Some p assms [of "cursor + n"] length_print_rm show ?thesis
    by (simp add: len_le_def with_rm_def format_rm_operand_def)
qed

lemma len_le_cc_name [len_intro]: "len_le n stem \<Longrightarrow> len_le (n + 2) (cc_name stem b)"
proof -
  have "unat (b AND 0xF) < 16"
    using word_and_le1 [of b "0xF"] by (simp add: word_le_nat_alt)
  then have "cc_suffixes ! unat (b AND 0xF) \<in> set cc_suffixes"
    by (intro nth_mem) (simp add: cc_suffixes_def)
  then have "length (cc_suffixes ! unat (b AND 0xF)) \<le> 2"
    by (auto simp: cc_suffixes_def)
  then show "len_le n stem \<Longrightarrow> len_le (n + 2) (cc_name stem b)"
    by (simp add: cc_name_def len_le_def)
qed

lemma len_le_pieces [len_intro]:
  "len_le 4 (de_name e r bits)" "len_le 5 (imm8_text b)" "len_le 4 (reg64_name r)"
  "len_le 4 (hex_text (unat (b :: u8)))" "len_le 6 (hex_text (unat (w :: u16)))"
  "len_le 10 (hex_text (unat (d :: u32)))" "len_le 18 (hex_text (unat (q :: u64)))"
  by (simp_all add: len_le_def de_name_def length_select_reg_name length_imm8_text length_hex_text
      length_reg_names)

lemma len_le_group_mnemonics:
  "x86_lookup_group1_mnemonic b = Some mn \<Longrightarrow> len_le 3 mn"
  "x86_lookup_group2_mnemonic b = Some mn \<Longrightarrow> len_le 3 mn"
  "bit_ext_mnemonic x = Some mn \<Longrightarrow> len_le 3 mn"
  "group5_mnemonic x = Some mn \<Longrightarrow> len_le 4 mn"
  by (auto simp: x86_lookup_group1_mnemonic_def X86_GROUP1_TABLE_def x86_lookup_group2_mnemonic_def
      X86_GROUP2_TABLE_def bit_ext_mnemonic_def group5_mnemonic_def len_le_def split: if_splits)

lemma step_ok_reg_rm [step_intro]:
  assumes "len_le n mn" "n < 100" "lo \<le> cursor" "cursor + 6 \<le> hi"
  shows "step_ok e lo hi (reg_rm e cursor mn b1 b2)" "step_ok e lo hi (rm_reg e cursor mn b1 b2)"
  unfolding reg_rm_def rm_reg_def
  by (rule step_intro len_intro assms(1) | assumption | (use assms(2-) in simp; fail))+

lemma step_ok_decode_0f [step_intro]:
  assumes "lo \<le> cursor" "cursor + 8 \<le> hi"
  shows "step_ok e lo hi (decode_0f e cursor)"
  unfolding decode_0f_def Let_def
  by (rule step_intro len_intro | assumption | erule len_le_group_mnemonics
      | (use assms in simp; fail))+

lemma step_ok_decode_mov_imm [step_intro]:
  assumes "lo \<le> cursor" "cursor + 8 \<le> hi"
  shows "step_ok e lo hi (decode_mov_imm e opcode cursor)"
  unfolding decode_mov_imm_def Let_def
  by (rule step_intro len_intro | assumption | (use assms in simp; fail))+

lemma step_ok_imm_for [step_intro]:
  assumes "len_le n stem" "n < 100" "lo < cursor" "cursor + 4 \<le> hi"
    and "cursor \<le> length (de_code e)"
  shows "step_ok e lo hi (imm_for e stem cursor)" "step_ok e lo hi (group1_imm e opcode stem cursor)"
  unfolding group1_imm_def imm_for_def
  by (rule step_intro len_intro assms(1) | assumption | (use assms(2-) in simp; fail))+

lemma len_le_alu: "alu_mnemonic b \<noteq> None \<Longrightarrow> len_le 3 (fst (the (alu_mnemonic b)))"
  by (auto simp: alu_mnemonic_def len_le_def split: if_splits)

lemma step_ok_modrm_text [step_intro]:
  assumes "len_le 30 t" "lo < c" "c + 4 \<le> hi" "c \<le> length (de_code e)"
  shows "step_ok e lo hi (modrm_text e opcode modrm t c)"
  unfolding modrm_text_def group3_text_def Let_def case_prod_unfold
  by (rule step_intro len_intro assms(1) | assumption
      | erule len_le_group_mnemonics len_le_alu | (use assms(2-) in simp; fail))+

lemma step_ok_group [step_intro]:
  assumes "lo \<le> cursor" "cursor + 10 \<le> hi"
  shows "step_ok e lo hi (decode_modrm_group e opcode cursor)"
  unfolding decode_modrm_group_def
  by (rule step_intro | assumption | (use assms in simp; fail))+

lemma step_ok_decode_opcode:
  assumes "lo < cursor" "cursor + 10 \<le> hi" "cursor \<le> length (de_code e)"
  shows "step_ok e lo hi (decode_opcode e opcode cursor)"
  unfolding decode_opcode_def Let_def
  by (rule step_intro len_intro | assumption | (use assms in simp; fail))+

section \<open>One instruction\<close>

text \<open>What the decoder hands to \<open>finish_step\<close>: after the prefixes, at most eleven more bytes.\<close>

lemma decode_one_cases:
  assumes "start < length code"
  obtains e out where
    "decode_one code base start = finish_step code start out" "de_code e = code"
    "step_ok e start (start + fst (scan_prefixes (drop start code) False 0) + 11) out"
proof -
  obtain n ov rex where scan: "scan_prefixes (drop start code) False 0 = (n, ov, rex)"
    by (metis prod.exhaust)
  define e where "e = \<lparr>de_code = code, de_base = base, de_start = start, de_override = ov, de_rex = rex\<rparr>"
  have "step_ok e start (start + n + 11) (with_byte e (start + n) (decode_opcode e))"
    by (rule step_ok_with_byte, rule step_ok_decode_opcode) (simp_all add: e_def)
  with assms scan show ?thesis
    by (intro that [of "with_byte e (start + n) (decode_opcode e)" e])
      (simp_all add: decode_one_def e_def Let_def)
qed

lemma decode_one_spec:
  assumes "decode_one code base start = Decoded d"
  shows "0 < length (dis_bytes d)" "length (dis_bytes d) \<le> DIS_MAX_INST_BYTES"
    "take (length (dis_bytes d)) (drop start code) = dis_bytes d"
    "start + length (dis_bytes d) \<le> length code" "length (dis_text d) < 192"
proof -
  have start: "start < length code"
    using assms by (simp add: decode_one_def split: if_splits)
  then obtain e out where out: "finish_step code start out = Decoded d" "de_code e = code"
    "step_ok e start (start + fst (scan_prefixes (drop start code) False 0) + 11) out"
    using assms by (metis decode_one_cases)
  show "0 < length (dis_bytes d)" "length (dis_bytes d) \<le> DIS_MAX_INST_BYTES"
    "take (length (dis_bytes d)) (drop start code) = dis_bytes d"
    "start + length (dis_bytes d) \<le> length code" "length (dis_text d) < 192"
    using out start
    by (cases out; auto simp: finish_step_def step_ok_def Let_def take_Suc_conv_app_nth
        Cons_nth_drop_Suc [symmetric] min_def split: if_splits)+
qed

lemma decode_one_no_overrun:
  assumes "fst (scan_prefixes (drop start code) False 0) \<le> 4"
  shows "decode_one code base start \<noteq> Bytes_Overrun n"
proof (cases "start < length code")
  case True
  then obtain e out where "decode_one code base start = finish_step code start out"
    "step_ok e start (start + fst (scan_prefixes (drop start code) False 0) + 11) out"
    by (metis decode_one_cases)
  with assms show ?thesis
    by (cases out) (auto simp: finish_step_def step_ok_def Let_def)
qed (simp add: decode_one_def)

section \<open>The loop\<close>

lemma disassemble_from_partition:
  "disassemble_from code base offset = Some items \<Longrightarrow> concat (map fst items) = drop offset code"
proof (induction code base offset arbitrary: items rule: disassemble_from.induct)
  case (1 code base offset)
  show ?case
  proof (cases "length code \<le> offset")
    case True
    with "1.prems" show ?thesis by (simp add: disassemble_from.simps [of code])
  next
    case False
    then have hd: "code ! offset # drop (offset + 1) code = drop offset code"
      by (simp add: Cons_nth_drop_Suc)
    show ?thesis
    proof (cases "\<exists>d. decode_one code base offset = Decoded d \<and> dis_bytes d \<noteq> []")
      case True
      then obtain d where d: "decode_one code base offset = Decoded d" "dis_bytes d \<noteq> []" by blast
      then obtain rest where rest:
        "disassemble_from code base (offset + length (dis_bytes d)) = Some rest"
        "items = (dis_bytes d, dis_line (base + of_nat offset) (dis_bytes d) (dis_text d)) # rest"
        using "1.prems" False by (auto simp: disassemble_from.simps [of code base offset] Let_def)
      have "concat (map fst rest) = drop (length (dis_bytes d)) (drop offset code)"
        using "1.IH" False d rest(1) by (simp add: add.commute)
      then show ?thesis
        using rest(2) append_take_drop_id [of "length (dis_bytes d)" "drop offset code"]
        by (simp only: decode_one_spec(3) [OF d(1)] list.map concat.simps fst_conv)
    next
      case other: False
      then obtain rest where rest: "disassemble_from code base (offset + 1) = Some rest"
        "items = ([code ! offset], dis_fallback_line (base + of_nat offset) (code ! offset)) # rest"
        using "1.prems" False
        by (auto simp: disassemble_from.simps [of code base offset] Let_def split: decode_result.splits)
      have "concat (map fst rest) = drop (offset + 1) code"
        using "1.IH" False other rest(1) by (cases "decode_one code base offset") auto
      then show ?thesis using rest(2) hd by simp
    qed
  qed
qed

lemma disassemble_from_total:
  "(\<And>o'. fst (scan_prefixes (drop o' code) False 0) \<le> 4) \<Longrightarrow> disassemble_from code base offset \<noteq> None"
proof (induction code base offset rule: disassemble_from.induct)
  case (1 code base offset)
  have "decode_one code base offset \<noteq> Bytes_Overrun n" for n
    using decode_one_no_overrun "1.prems" by blast
  with "1.IH" "1.prems" show ?case
    by (cases "decode_one code base offset")
      (auto simp: disassemble_from.simps [of code base offset] Let_def)
qed

section \<open>Hexadecimal output can be read back\<close>

definition hex_value :: "char \<Rightarrow> nat" where
  "hex_value c = (let n = of_char c in if n < 58 then n - 48 else n - 87)"

definition of_hex :: "string \<Rightarrow> nat" where
  "of_hex s = foldl (\<lambda>n c. 16 * n + hex_value c) 0 s"

lemma hex_value_digit: "hex_value (hex_digit n) = n mod 16"
proof -
  have "list_all (\<lambda>i. hex_value (''0123456789abcdef'' ! i) = i) [0..<16]"
    by code_simp
  then show ?thesis by (simp add: hex_digit_def list_all_iff)
qed

lemma of_hex_hex_of: "of_hex (hex_of n) = n"
proof (induction n rule: hex_of.induct)
  case (1 n)
  then show ?case
    by (cases "n < 16") (simp_all add: of_hex_def hex_of.simps [of n] hex_value_digit)
qed

end
