(* ===== verification/Operand_Forms.thy ===== *)
theory Operand_Forms
  imports Decode_Facts
begin

text \<open>
  The ModRM and SIB forms written by \<open>emit_modrm_sib\<close> and read by \<open>format_rm_operand\<close>. The bytes
  of the forms without a label are functions of the operand, and decoding them gives back the
  address the operand denotes, for every operand outside the forms that have no encoding of
  their own (an index without a base, or rbp or r13 with an index and no displacement); an index
  r12, which the decoder does not show, is treated at the end.
\<close>

section \<open>Bytes of the prefix and of the operand forms\<close>

definition rex_bytes :: "bool \<Rightarrow> operand option \<Rightarrow> operand option \<Rightarrow> operand option \<Rightarrow> u8 list" where
  "rex_bytes w reg_op rm_op x_op =
     (if \<not> w \<and> \<not> rex_r_bit reg_op \<and> \<not> rex_x_bit rm_op x_op \<and> \<not> rex_b_bit rm_op then []
      else [make_rex w (rex_r_bit reg_op) (rex_x_bit rm_op x_op) (rex_b_bit rm_op)])"

definition base_only_bytes :: "u8 \<Rightarrow> mem_operand \<Rightarrow> u8 list" where
  "base_only_bytes reg mem =
     (let base = low3 (mem_base mem); disp = mem_displacement mem in
      if \<not> mem_has_displacement mem \<and> base \<noteq> 4 \<and> base \<noteq> 5 then [make_modrm 0 reg base]
      else if \<not> mem_has_displacement mem \<and> base = 5 then [make_modrm 1 reg 5, 0]
      else if mem_has_displacement mem \<and> fits_in_int8 disp then
        make_modrm 1 reg base # (if base = 4 then [make_sib 1 4 base] else []) @ [ucast disp]
      else make_modrm 2 reg base # (if base = 4 then [make_sib 1 4 base] else []) @ le32 disp)"

definition indexed_bytes :: "u8 \<Rightarrow> mem_operand \<Rightarrow> u8 list" where
  "indexed_bytes reg mem =
     (let base = low3 (mem_base mem); disp = mem_displacement mem;
          sib = make_sib (word_of_int (mem_scale mem)) (low3 (mem_index mem)) base in
      if mem_has_displacement mem \<and> fits_in_int8 disp \<and> \<not> (base = 5 \<and> disp = 0) then
        [make_modrm 1 reg 4, sib, ucast disp]
      else if mem_has_displacement mem then make_modrm 2 reg 4 # sib # le32 disp
      else [make_modrm 0 reg 4, sib])"

definition operand_bytes :: "u8 \<Rightarrow> operand \<Rightarrow> u8 list" where
  "operand_bytes reg op =
     (let mem = op_mem op in
      if op_type op = OPERAND_REG then [make_modrm 3 reg (low3 (op_reg op))]
      else if mem_is_rip_relative mem then make_modrm 0 reg 5 # le32 (mem_displacement mem)
      else if \<not> mem_has_base mem \<and> \<not> mem_has_index mem then
        make_modrm 0 reg 4 # make_sib 1 4 5 # le32 (mem_displacement mem)
      else if \<not> mem_has_index mem then base_only_bytes reg mem
      else indexed_bytes reg mem)"

text \<open>The operands that are read back: registers, and memory operands without a label, with a valid
  scale, whose index comes with a base and, on rbp and r13, with a displacement; rsp cannot be an
  index, and the decoder does not read r12 as one.\<close>

definition reg_code_ok :: "reg_t \<Rightarrow> bool" where
  "reg_code_ok r \<longleftrightarrow> 0 \<le> r \<and> r < 16"

definition mem_ok :: "mem_operand \<Rightarrow> bool" where
  "mem_ok mem \<longleftrightarrow>
     mem_label mem = [] \<and>
     (mem_has_base mem \<longrightarrow> reg_code_ok (mem_base mem)) \<and>
     (mem_has_index mem \<longrightarrow> reg_code_ok (mem_index mem) \<and> low3 (mem_index mem) \<noteq> 4 \<and>
        mem_scale mem \<in> {1, 2, 4, 8} \<and> mem_has_base mem \<and>
        (mem_has_displacement mem \<or> low3 (mem_base mem) \<noteq> 5)) \<and>
     (mem_is_rip_relative mem \<longrightarrow> \<not> mem_has_base mem \<and> \<not> mem_has_index mem) \<and>
     (mem_has_base mem \<and> \<not> mem_has_displacement mem \<longrightarrow> mem_displacement mem = 0)"

definition operand_ok :: "operand \<Rightarrow> bool" where
  "operand_ok op \<longleftrightarrow>
     (op_type op = OPERAND_REG \<and> reg_code_ok (op_reg op)) \<or>
     (op_type op = OPERAND_MEM \<and> mem_ok (op_mem op))"

lemma emits_rex [emits_intro]: "emits (emit_rex w r m x) (rex_bytes w r m x)"
  by (auto simp: emit_rex_def rex_bytes_def Let_def emits_Nil emits_emit_byte)

lemma emits_run_seq2: "emits c as \<Longrightarrow> emits d bs \<Longrightarrow> emits (run_seq [c, d]) (as @ bs)"
  using emits_Cons [of c as "[d]" bs] emits_Cons [of d bs "[]" "[]"] emits_Nil
  by (simp del: run_seq.simps)

lemma emits_run_seq1: "emits d bs \<Longrightarrow> emits (run_seq [d]) bs"
  using emits_Cons [of d bs "[]" "[]"] emits_Nil by (simp del: run_seq.simps)

lemma emits_base_only:
  "mem_has_base mem \<Longrightarrow> emits (emit_mem_base_only reg mem) (base_only_bytes reg mem)"
  unfolding emit_mem_base_only_def base_only_bytes_def Let_def
  by (auto simp del: run_seq.simps intro!: emits_eq [OF emits_Cons] emits_intro
      simp: emit_if_def)

lemma emits_indexed:
  "mem_has_base mem \<Longrightarrow> emits (emit_mem_indexed reg mem) (indexed_bytes reg mem)"
  unfolding emit_mem_indexed_def indexed_bytes_def Let_def
  by (auto simp del: run_seq.simps intro!: emits_eq [OF emits_Cons] emits_intro
      simp: emit_if_def)

lemma emits_disp_form:
  "emits (run_seq [emit_byte b, emit_le32 d]) (b # le32 d)"
  "emits (run_seq [emit_byte b, emit_byte c, emit_le32 d]) (b # c # le32 d)"
  using emits_Cons [OF emits_emit_byte, of "[emit_byte c, emit_le32 d]" "c # le32 d" b]
    emits_run_seq2 [OF emits_emit_byte emits_emit_le(2)]
  by (simp_all del: run_seq.simps)

lemma emits_operand:
  assumes "operand_ok op"
  shows "emits (emit_modrm_sib reg op sz) (operand_bytes reg op)"
proof (cases "op_type op = OPERAND_REG")
  case True
  then show ?thesis by (simp add: emit_modrm_sib_def operand_bytes_def emits_emit_byte)
next
  case False
  with assms have mem: "op_type op = OPERAND_MEM" "mem_ok (op_mem op)"
    by (auto simp: operand_ok_def)
  let ?m = "op_mem op"
  consider "mem_is_rip_relative ?m" "\<not> mem_has_base ?m" "\<not> mem_has_index ?m"
    | "\<not> mem_is_rip_relative ?m" "\<not> mem_has_base ?m" "\<not> mem_has_index ?m"
    | "\<not> mem_is_rip_relative ?m" "mem_has_base ?m" "\<not> mem_has_index ?m"
    | "\<not> mem_is_rip_relative ?m" "mem_has_base ?m" "mem_has_index ?m" "mem_scale ?m \<in> {1, 2, 4, 8}"
    using mem(2) unfolding mem_ok_def by blast
  then show ?thesis
    by cases (use mem in \<open>simp_all add: emit_modrm_sib_def operand_bytes_def mem_ok_def
        emits_disp_form emits_base_only emits_indexed Let_def del: run_seq.simps insert_iff\<close>)
qed

section \<open>Reading the form bytes\<close>

lemma modrm_fields:
  "modrm_mod (make_modrm md reg rm) = unat (md AND 3)"
  "modrm_reg (make_modrm md reg rm) = unat (reg AND 7)"
  "modrm_rm (make_modrm md reg rm) = unat (rm AND 7)"
proof -
  have "(3 :: u8) = mask 2" "(7 :: u8) = mask 3" by (simp_all add: mask_eq_exp_minus_1)
  note m = this
  show "modrm_mod (make_modrm md reg rm) = unat (md AND 3)"
    unfolding modrm_mod_def make_modrm_def m
    by (rule arg_cong [where f = unat], rule bit_word_eqI) (auto simp: bit_simps)
  show "modrm_reg (make_modrm md reg rm) = unat (reg AND 7)"
    unfolding modrm_reg_def make_modrm_def m
    by (rule arg_cong [where f = unat], rule bit_word_eqI) (auto simp: bit_simps)
  show "modrm_rm (make_modrm md reg rm) = unat (rm AND 7)"
    unfolding modrm_rm_def make_modrm_def m
    by (rule arg_cong [where f = unat], rule bit_word_eqI) (auto simp: bit_simps)
qed

lemma make_sib_as_modrm:
  "make_sib scale index base = make_modrm
     (if scale = 8 then 3 else if scale = 4 then 2 else if scale = 2 then 1 else 0) index base"
  by (simp add: make_sib_def make_modrm_def Let_def)

lemma low3_bits: "low3 r = word_of_int (r mod 8)"
  using take_bit_eq_mask [of 3 r] by (simp add: low3_def take_bit_eq_mod mask_eq_exp_minus_1)

lemma unat_low3: "unat (low3 r) = nat (r mod 8)"
proof -
  have "0 \<le> r mod 8" "r mod 8 < 8" by simp_all
  then have "r mod 8 mod 2 ^ 8 = r mod 8" by (intro mod_pos_pos_trivial) simp_all
  then have "uint (low3 r) = r mod 8"
    by (simp only: low3_bits uint_word_of_int) simp
  then show ?thesis by (simp only: unat_eq_nat_uint)
qed

lemma low3_and_7 [simp]: "low3 r AND 7 = low3 r"
proof -
  have "(7 :: int) = mask 3" "(7 :: u8) = mask 3" by (simp_all add: mask_eq_exp_minus_1)
  then show ?thesis
    unfolding low3_def by (intro bit_word_eqI) (auto simp: bit_simps)
qed

text \<open>A register code from its low bits and its extension bit.\<close>

lemma reg_code_split:
  assumes "reg_code_ok r"
  shows "unat (low3 r) + (if 8 \<le> r then 8 else 0) = nat r"
proof -
  from assms have r: "0 \<le> r" "r < 16" by (simp_all add: reg_code_ok_def)
  then have "r mod 8 = (if 8 \<le> r then r - 8 else r)" by presburger
  with r show ?thesis by (simp add: unat_low3 nat_diff_distrib)
qed

section \<open>Reads at a shifted position\<close>

lemma byte_at_shift [simp]: "byte_at (pre @ xs) (length pre + k) = byte_at xs k"
  by (simp add: byte_at_def)

lemma read_le32_shift [simp]: "read_le32 (pre @ xs) (length pre + k) = read_le32 xs k"
  by (simp add: read_le32_def nth_append)

lemma byte_at_Cons [simp]:
  "byte_at (b # bs) 0 = Some b" "byte_at (b # bs) (Suc k) = byte_at bs k"
  by (simp_all add: byte_at_def)

lemma read_le32_Cons [simp]:
  "read_le32 (b # bs) (Suc k) = read_le32 bs k" "read_le32 (le32 d @ post) 0 = Some d"
  using of_le32_nth_le32 [of d]
  by (simp_all add: read_le32_def nth_append add.commute [of k] numeral_2_eq_2)

lemma read_disp_shift [simp]:
  "read_disp (pre @ xs) (length pre + k) n = map_option (apsnd ((+) (length pre))) (read_disp xs k n)"
  using byte_at_shift [of pre xs k] read_le32_shift [of pre xs k]
  by (auto simp: read_disp_def option.map_comp comp_def intro: option.map_cong)

section \<open>The form bytes denote the operand\<close>

text \<open>The address an operand denotes, on the side of the assembler's operand and on the side
  of the decoder's result.\<close>

datatype location =
  Register nat
| Rip_Relative u32
| Address "nat option" "(nat \<times> nat) option" u32

definition operand_location :: "operand \<Rightarrow> location" where
  "operand_location op =
     (let mem = op_mem op in
      if op_type op = OPERAND_REG then Register (nat (op_reg op))
      else if mem_is_rip_relative mem then Rip_Relative (mem_displacement mem)
      else Address (if mem_has_base mem then Some (nat (mem_base mem)) else None)
        (if mem_has_index mem then Some (nat (mem_index mem), nat (mem_scale mem)) else None)
        (mem_displacement mem))"

definition decoded_location :: "rm_operand \<Rightarrow> location" where
  "decoded_location r =
     (case r of
        Rm_Reg c \<Rightarrow> Register c
      | Rm_Mem m \<Rightarrow> if rm_rip m then Rip_Relative (rm_disp m)
          else Address (rm_base m) (rm_index m) (rm_disp m))"

text \<open>The REX byte carries the high bits of the operand's registers.\<close>

definition rex_covers :: "u8 \<Rightarrow> operand \<Rightarrow> bool" where
  "rex_covers rex op \<longleftrightarrow>
     bit rex 0 = rex_b_bit (Some op) \<and> bit rex 1 = rex_x_bit (Some op) None"

definition decodes_to :: "u8 list \<Rightarrow> u8 \<Rightarrow> location \<Rightarrow> bool" where
  "decodes_to bs rex loc \<longleftrightarrow>
     (\<forall>post. \<exists>r. parse_rm (bs @ post) 0 rex = Some (r, length bs) \<and> decoded_location r = loc)"

lemma parse_rm_mem_shift:
  "parse_rm_mem (pre @ xs) (length pre) rex md rm = parse_rm_mem xs 0 rex md rm"
  by (auto simp: parse_rm_mem_def Let_def option.map_comp comp_def
      byte_at_shift [of pre xs 1, simplified] read_disp_shift [of pre xs 1, simplified]
      read_disp_shift [of pre xs 2, simplified] case_prod_unfold numeral_2_eq_2
      intro!: option.map_cong split: option.split)

lemma parse_rm_shift: "parse_rm (pre @ xs) (length pre) rex = parse_rm xs 0 rex"
  using byte_at_shift [of pre xs 0]
  by (simp add: parse_rm_def parse_rm_mem_shift split: option.split)

lemma scast_ucast_int8: "fits_in_int8 d \<Longrightarrow> scast (ucast d :: u8) = d"
  by (rule scast_ucast_id) (simp_all add: fits_in_int8_def)

lemma rex_ext_covers:
  "rex_covers rex op \<Longrightarrow> op_type op = OPERAND_MEM \<Longrightarrow>
   (mem_has_base (op_mem op) \<longrightarrow> rex_ext 0 rex = (if 8 \<le> mem_base (op_mem op) then 8 else 0)) \<and>
   (mem_has_index (op_mem op) \<longrightarrow> rex_ext 1 rex = (if 8 \<le> mem_index (op_mem op) then 8 else 0))"
  "rex_covers rex op \<Longrightarrow> op_type op = OPERAND_REG \<Longrightarrow>
   rex_ext 0 rex = (if 8 \<le> op_reg op then 8 else 0)"
  by (auto simp: rex_covers_def rex_ext_def rex_b_bit_def rex_x_bit_def)

lemma unat_u8_eq:
  "unat (w :: u8) = 4 \<longleftrightarrow> w = 4" "unat (w :: u8) = 5 \<longleftrightarrow> w = 5"
  by (simp_all add: word_unat_eq_iff)

lemma read_disp_forms:
  "read_disp (b # post) 0 (Suc 0) = Some (scast b, Suc 0)"
  "read_disp (le32 d @ post) 0 4 = Some (d, 4)"
  "read_disp xs k 0 = Some (0, k)"
  "read_disp (b # bs) (Suc k) n = map_option (apsnd Suc) (read_disp bs k n)"
  by (auto simp: read_disp_def option.map_comp comp_def intro: option.map_cong)

lemmas parse_form_simps = parse_rm_def parse_rm_mem_def Let_def modrm_fields make_sib_as_modrm
  unat_u8_eq read_disp_forms decoded_location_def operand_location_def scast_ucast_int8

lemma decodes_register:
  "reg_code_ok (op_reg op) \<Longrightarrow> op_type op = OPERAND_REG \<Longrightarrow> rex_covers rex op \<Longrightarrow>
   decodes_to (operand_bytes reg op) rex (operand_location op)"
  using reg_code_split [of "op_reg op"] rex_ext_covers(2) [of rex op]
  by (simp add: decodes_to_def operand_bytes_def parse_form_simps)

lemma decodes_base_only:
  assumes "op_type op = OPERAND_MEM" "mem_ok (op_mem op)" "rex_covers rex op"
    and "\<not> mem_is_rip_relative (op_mem op)" "mem_has_base (op_mem op)" "\<not> mem_has_index (op_mem op)"
  shows "decodes_to (operand_bytes reg op) rex (operand_location op)"
proof -
  have base: "unat (low3 (mem_base (op_mem op))) + rex_ext 0 rex = nat (mem_base (op_mem op))"
    using assms reg_code_split [of "mem_base (op_mem op)"] rex_ext_covers(1) [of rex op]
    by (simp add: mem_ok_def)
  show ?thesis
    using assms base
    by (auto simp: decodes_to_def operand_bytes_def base_only_bytes_def parse_form_simps mem_ok_def)
qed

lemma decodes_indexed:
  assumes "op_type op = OPERAND_MEM" "mem_ok (op_mem op)" "rex_covers rex op"
    and "\<not> mem_is_rip_relative (op_mem op)" "mem_has_base (op_mem op)" "mem_has_index (op_mem op)"
  shows "decodes_to (operand_bytes reg op) rex (operand_location op)"
proof -
  let ?m = "op_mem op"
  have base: "unat (low3 (mem_base ?m)) + rex_ext 0 rex = nat (mem_base ?m)"
    and index: "unat (low3 (mem_index ?m)) + rex_ext (Suc 0) rex = nat (mem_index ?m)"
    using assms reg_code_split [of "mem_base ?m"] reg_code_split [of "mem_index ?m"]
      rex_ext_covers(1) [of rex op]
    by (simp_all add: mem_ok_def)
  have scale: "mem_scale ?m = 1 \<or> mem_scale ?m = 2 \<or> mem_scale ?m = 4 \<or> mem_scale ?m = 8"
    and no4: "low3 (mem_index ?m) \<noteq> 4"
    and disp: "mem_has_displacement ?m \<or> low3 (mem_base ?m) \<noteq> 5"
      "\<not> mem_has_displacement ?m \<Longrightarrow> mem_displacement ?m = 0"
    using assms(2,5,6) by (auto simp: mem_ok_def)
  from scale show ?thesis
    by (elim disjE)
      (use assms(1,4-6) base index no4 disp in
        \<open>auto simp: decodes_to_def operand_bytes_def indexed_bytes_def parse_form_simps\<close>)
qed

lemma decodes_baseless:
  assumes "op_type op = OPERAND_MEM" "\<not> mem_has_base (op_mem op)" "\<not> mem_has_index (op_mem op)"
  shows "decodes_to (operand_bytes reg op) rex (operand_location op)"
  using assms by (auto simp: decodes_to_def operand_bytes_def parse_form_simps)

lemma operand_bytes_decode:
  assumes "operand_ok op" "rex_covers rex op"
  shows "decodes_to (operand_bytes reg op) rex (operand_location op)"
proof (cases "op_type op = OPERAND_REG")
  case True
  with assms show ?thesis by (auto simp: operand_ok_def intro: decodes_register)
next
  case False
  with assms(1) have mem: "op_type op = OPERAND_MEM" "mem_ok (op_mem op)"
    by (auto simp: operand_ok_def)
  let ?m = "op_mem op"
  consider "\<not> mem_has_base ?m" "\<not> mem_has_index ?m"
    | "\<not> mem_is_rip_relative ?m" "mem_has_base ?m" "\<not> mem_has_index ?m"
    | "\<not> mem_is_rip_relative ?m" "mem_has_base ?m" "mem_has_index ?m"
    using mem(2) unfolding mem_ok_def by blast
  then show ?thesis
    by cases (use mem assms(2) in \<open>auto intro: decodes_baseless decodes_base_only decodes_indexed\<close>)
qed

lemma operand_bytes_reg:
  "operand_ok op \<Longrightarrow> \<exists>m bs. operand_bytes reg op = m # bs \<and> modrm_reg m = unat (reg AND 7) \<and>
     (modrm_mod m = 3 \<longleftrightarrow> op_type op = OPERAND_REG)"
  by (auto simp: operand_bytes_def base_only_bytes_def indexed_bytes_def Let_def modrm_fields operand_ok_def)

section \<open>The REX byte\<close>

lemma make_rex_bits:
  "bit (make_rex w r x b) 0 = b" "bit (make_rex w r x b) (Suc 0) = x"
  "bit (make_rex w r x b) 2 = r" "bit (make_rex w r x b) 3 = w"
  "make_rex w r x b \<ge> 0x40" "make_rex w r x b \<le> 0x4F" "make_rex w r x b \<noteq> 0x66"
  "make_rex w r x b \<noteq> 0" "\<not> legacy_prefix (make_rex w r x b)"
  by (cases w; cases r; cases x; cases b; simp add: make_rex_def legacy_prefix_def)+

text \<open>The effective REX value of an encoding: the byte, or zero when none is emitted.\<close>

definition rex_value :: "bool \<Rightarrow> operand option \<Rightarrow> operand option \<Rightarrow> operand option \<Rightarrow> u8" where
  "rex_value w reg_op rm_op x_op = (case rex_bytes w reg_op rm_op x_op of [] \<Rightarrow> 0 | b # _ \<Rightarrow> b)"

lemma rex_value_bits:
  "bit (rex_value w rg rm x) 0 = rex_b_bit rm" "bit (rex_value w rg rm x) (Suc 0) = rex_x_bit rm x"
  "bit (rex_value w rg rm x) 2 = rex_r_bit rg" "bit (rex_value w rg rm x) 3 = w"
  by (auto simp: rex_value_def rex_bytes_def make_rex_bits)

lemma rex_value_covers: "rex_covers (rex_value w rg (Some op) None) op"
  by (simp add: rex_covers_def rex_value_bits)

lemma scan_rex_bytes:
  assumes "opc \<noteq> 0x66" "\<not> legacy_prefix opc" "opc < 0x40 \<or> 0x4F < opc"
  shows "scan_prefixes (rex_bytes w rg rm x @ opc # rest) ov 0 =
    (length (rex_bytes w rg rm x), ov, rex_value w rg rm x)"
  using assms by (auto simp: rex_bytes_def rex_value_def make_rex_bits)

section \<open>An index r12\<close>

text \<open>The encoder has a form for an index r12: the SIB index field 4 with REX.X. The decoder takes the
  field 4 for no index before it looks at REX.X. \<open>has_form\<close> are the operands without a label that
  have a form of their own, and \<open>shown_location\<close> is what the decoder makes of it.\<close>

definition r12_index :: "operand \<Rightarrow> bool" where
  "r12_index op \<longleftrightarrow> op_type op = OPERAND_MEM \<and> mem_has_index (op_mem op) \<and> mem_index (op_mem op) = 12"

definition has_form :: "operand \<Rightarrow> bool" where
  "has_form op \<longleftrightarrow> operand_ok op \<or>
     r12_index op \<and> (let mem = op_mem op in
       mem_label mem = [] \<and> \<not> mem_is_rip_relative mem \<and> mem_has_base mem \<and> reg_code_ok (mem_base mem) \<and>
       mem_scale mem \<in> {1, 2, 4, 8} \<and>
       (mem_has_displacement mem \<or> low3 (mem_base mem) \<noteq> 5 \<and> mem_displacement mem = 0))"

definition shown_location :: "operand \<Rightarrow> location" where
  "shown_location op =
     (if r12_index op then Address (Some (nat (mem_base (op_mem op)))) None (mem_displacement (op_mem op))
      else operand_location op)"

lemma operand_ok_not_r12: "operand_ok op \<Longrightarrow> \<not> r12_index op"
  by (auto simp: operand_ok_def mem_ok_def r12_index_def low3_bits)

lemma emits_has_form:
  assumes "has_form op"
  shows "emits (emit_modrm_sib reg op sz) (operand_bytes reg op)"
proof (cases "operand_ok op")
  case False
  with assms have "op_type op = OPERAND_MEM" "\<not> mem_is_rip_relative (op_mem op)" "mem_has_base (op_mem op)"
      "mem_has_index (op_mem op)" "mem_label (op_mem op) = []" "mem_scale (op_mem op) \<in> {1, 2, 4, 8}"
    by (auto simp: has_form_def r12_index_def Let_def)
  then show ?thesis
    by (simp add: emit_modrm_sib_def operand_bytes_def emits_indexed Let_def del: run_seq.simps insert_iff)
qed (rule emits_operand)

lemma has_form_decodes:
  assumes "has_form op" "rex_covers rex op"
  shows "decodes_to (operand_bytes reg op) rex (shown_location op)"
proof (cases "operand_ok op")
  case True
  with operand_bytes_decode [OF True assms(2)] operand_ok_not_r12 show ?thesis by (simp add: shown_location_def)
next
  case False
  let ?m = "op_mem op"
  have op: "op_type op = OPERAND_MEM" "\<not> mem_is_rip_relative ?m" "mem_has_base ?m" "reg_code_ok (mem_base ?m)"
    "mem_has_index ?m" "mem_index ?m = 12" "mem_has_displacement ?m \<or> low3 (mem_base ?m) \<noteq> 5 \<and> mem_displacement ?m = 0"
    "r12_index op"
    and "mem_scale ?m \<in> {1, 2, 4, 8}"
    using assms(1) False by (auto simp: has_form_def r12_index_def Let_def)
  moreover have "unat (low3 (mem_base ?m)) + rex_ext 0 rex = nat (mem_base ?m)"
    using op reg_code_split [of "mem_base ?m"] rex_ext_covers(1) [OF assms(2)] by simp
  moreover have "low3 12 = 4" by (simp add: low3_bits)
  ultimately show ?thesis
    by (auto simp: decodes_to_def operand_bytes_def indexed_bytes_def parse_form_simps shown_location_def)
qed

end
