(* ===== verification/Control_Flow.thy ===== *)
theory Control_Flow
  imports Encoder_GP
begin

text \<open>
  The encoders of src/x86_64_controlflow.c: jumps and calls with their branch-size selection,
  the operand-free instructions, conditional set and move, exchange, multiplication and
  division, test, shifts and the bit instructions.
\<close>

section \<open>Condition codes\<close>

definition jcc_code :: "instruction_type \<Rightarrow> u8 option" where
  "jcc_code ty =
     (case ty of Jcc_family k \<Rightarrow> Some
        (case k of
           INST_JA \<Rightarrow> 0x7 | INST_JAE \<Rightarrow> 0x3 | INST_JB \<Rightarrow> 0x2 | INST_JBE \<Rightarrow> 0x6
         | INST_JE \<Rightarrow> 0x4 | INST_JG \<Rightarrow> 0xF | INST_JGE \<Rightarrow> 0xD | INST_JL \<Rightarrow> 0xC
         | INST_JLE \<Rightarrow> 0xE | INST_JNE \<Rightarrow> 0x5 | INST_JNZ \<Rightarrow> 0x5 | INST_JNO \<Rightarrow> 0x1
         | INST_JNP \<Rightarrow> 0xB | INST_JNS \<Rightarrow> 0x9 | INST_JO \<Rightarrow> 0x0 | INST_JP \<Rightarrow> 0xA
         | INST_JS \<Rightarrow> 0x8)
      | _ \<Rightarrow> None)"

definition setcc_code :: "instruction_type \<Rightarrow> u8 option" where
  "setcc_code ty =
     (case ty of Setcc_family k \<Rightarrow> Some
        (case k of
           INST_SETA \<Rightarrow> 0x7 | INST_SETAE \<Rightarrow> 0x3 | INST_SETB \<Rightarrow> 0x2 | INST_SETBE \<Rightarrow> 0x6
         | INST_SETE \<Rightarrow> 0x4 | INST_SETG \<Rightarrow> 0xF | INST_SETGE \<Rightarrow> 0xD | INST_SETL \<Rightarrow> 0xC
         | INST_SETLE \<Rightarrow> 0xE | INST_SETNE \<Rightarrow> 0x5 | INST_SETNO \<Rightarrow> 0x1 | INST_SETNP \<Rightarrow> 0xB
         | INST_SETNS \<Rightarrow> 0x9 | INST_SETO \<Rightarrow> 0x0 | INST_SETP \<Rightarrow> 0xA | INST_SETS \<Rightarrow> 0x8)
      | _ \<Rightarrow> None)"

definition cmov_code :: "instruction_type \<Rightarrow> u8 option" where
  "cmov_code ty =
     (case ty of Cmov_family k \<Rightarrow> Some
        (case k of
           INST_CMOVA \<Rightarrow> 0x7 | INST_CMOVAE \<Rightarrow> 0x3 | INST_CMOVB \<Rightarrow> 0x2 | INST_CMOVBE \<Rightarrow> 0x6
         | INST_CMOVE \<Rightarrow> 0x4 | INST_CMOVG \<Rightarrow> 0xF | INST_CMOVGE \<Rightarrow> 0xD | INST_CMOVL \<Rightarrow> 0xC
         | INST_CMOVLE \<Rightarrow> 0xE | INST_CMOVNE \<Rightarrow> 0x5 | INST_CMOVNO \<Rightarrow> 0x1 | INST_CMOVNP \<Rightarrow> 0xB
         | INST_CMOVNS \<Rightarrow> 0x9 | INST_CMOVO \<Rightarrow> 0x0 | INST_CMOVP \<Rightarrow> 0xA | INST_CMOVS \<Rightarrow> 0x8)
      | _ \<Rightarrow> None)"

section \<open>Branches\<close>

text \<open>The recorder of branch fixups sets neither \<open>is_rip_relative\<close> nor \<open>section\<close>: the slot
  keeps whatever the previous pass stored there.\<close>

definition add_controlflow_fixup :: "string \<Rightarrow> int \<Rightarrow> instruction_type \<Rightarrow> cmd" where
  "add_controlflow_fixup label sz ty ctx =
     (if MAX_SYMBOLS \<le> fixup_count ctx then (Fail Constraint_Error, ctx)
      else let n = fixup_count ctx in
        (Done, ctx\<lparr>fixups := (fixups ctx)(n := (fixups ctx n)
           \<lparr>fx_label := copy_bounded_text MAX_LABEL_LENGTH label,
            fx_location := current_address ctx, fx_size := sz, fx_instruction_type := ty,
            fx_operand_index := 0\<rparr>), fixup_count := Suc n\<rparr>))"

definition branch_disp32 :: "string \<Rightarrow> instruction_type \<Rightarrow> cmd" where
  "branch_disp32 label ty = run_seq [add_controlflow_fixup label 4 ty, emit_le32 0]"

text \<open>\<open>rel = sym->address - (current_address + 2)\<close>, when the short form may be considered.\<close>

definition short_branch_rel :: "string \<Rightarrow> asm_ctx \<Rightarrow> u64 option" where
  "short_branch_rel label ctx =
     (case get_symbol_info label ctx of
        Some entry \<Rightarrow>
          if he_is_resolved entry \<and>
             (enable_forward_short_branches ctx \<or> he_address entry < current_address ctx)
          then let rel = he_address entry - (current_address ctx + 2)
               in if sint rel \<ge> -128 \<and> sint rel \<le> 127 then Some rel else None
          else None
      | None \<Rightarrow> None)"

definition encode_jmp_label :: "string \<Rightarrow> cmd" where
  "encode_jmp_label label ctx =
     (case short_branch_rel label ctx of
        Some rel \<Rightarrow> run_seq [emit_byte 0xEB, emit_byte (ucast rel)] ctx
      | None \<Rightarrow> run_seq [emit_byte 0xE9,
          branch_disp32 label (Single_family INST_JMP)] ctx)"

definition encode_jmp :: "parsed_instruction \<Rightarrow> cmd" where
  "encode_jmp inst =
     (case inst_operands inst of
        [op] \<Rightarrow>
          if op_type op = OPERAND_LABEL then encode_jmp_label (op_label op)
          else if op_type op = OPERAND_REG then run_seq
            [emit_rex True None (Some op) None, emit_byte 0xFF, emit_modrm_sib 4 op REG_SIZE_64]
          else if op_type op = OPERAND_MEM then run_seq
            [emit_rex True None (Some op) None, emit_byte 0xFF, emit_modrm_sib 4 op REG_SIZE_64]
          else fail Encoding_Error
      | _ \<Rightarrow> fail Encoding_Error)"

definition encode_jcc_label :: "u8 \<Rightarrow> instruction_type \<Rightarrow> string \<Rightarrow> cmd" where
  "encode_jcc_label cc ty label ctx =
     (case short_branch_rel label ctx of
        Some rel8 \<Rightarrow> run_seq [emit_byte (0x70 + cc), emit_byte (ucast rel8)] ctx
      | None \<Rightarrow> run_seq [emit_byte 0x0F, emit_byte (0x80 + cc), branch_disp32 label ty] ctx)"

definition encode_jcc :: "parsed_instruction \<Rightarrow> cmd" where
  "encode_jcc inst =
     (case inst_operands inst of
        [op] \<Rightarrow>
          if op_type op \<noteq> OPERAND_LABEL then fail Encoding_Error
          else (case jcc_code (inst_type inst) of
             None \<Rightarrow> fail Encoding_Error
           | Some cc \<Rightarrow> encode_jcc_label cc (inst_type inst) (op_label op))
      | _ \<Rightarrow> fail Encoding_Error)"

definition encode_call_ret :: "parsed_instruction \<Rightarrow> cmd" where
  "encode_call_ret inst =
     (if inst_type inst = Callret_family INST_RET then
        if inst_operands inst = [] then run_seq [emit_byte 0xC3]
        else (case inst_operands inst of
           [op] \<Rightarrow>
             if op_type op = OPERAND_IMM then
               run_seq [emit_byte 0xC2, emit_le16 (ucast (op_immediate op))]
             else fail Encoding_Error
         | _ \<Rightarrow> fail Encoding_Error)
      else if inst_type inst = Callret_family INST_CALL then
        (case inst_operands inst of
           [op] \<Rightarrow>
             if op_type op = OPERAND_LABEL then run_seq
               [emit_byte 0xE8, branch_disp32 (op_label op) (Callret_family INST_CALL)]
             else if op_type op = OPERAND_REG then run_seq
               [emit_rex True None (Some op) None, emit_byte 0xFF, emit_modrm_sib 2 op REG_SIZE_64]
             else if op_type op = OPERAND_MEM then run_seq
               [emit_rex True None (Some op) None, emit_byte 0xFF, emit_modrm_sib 2 op REG_SIZE_64]
             else fail Encoding_Error
         | _ \<Rightarrow> fail Encoding_Error)
      else fail Encoding_Error)"

section \<open>Instructions without a memory form\<close>

definition encode_syscall :: "parsed_instruction \<Rightarrow> cmd" where
  "encode_syscall inst = run_seq [emit_byte 0x0F, emit_byte 0x05]"

definition encode_sysret :: "parsed_instruction \<Rightarrow> cmd" where
  "encode_sysret inst = run_seq [emit_byte 0x0F, emit_byte 0x07]"

definition encode_nop :: "parsed_instruction \<Rightarrow> cmd" where
  "encode_nop inst =
     (if inst_operands inst = [] then run_seq [emit_byte 0x90] else fail Encoding_Error)"

definition encode_hlt :: "parsed_instruction \<Rightarrow> cmd" where
  "encode_hlt inst = run_seq [emit_byte 0xF4]"

definition encode_int :: "parsed_instruction \<Rightarrow> cmd" where
  "encode_int inst =
     (case inst_operands inst of
        [op] \<Rightarrow>
          if op_type op \<noteq> OPERAND_IMM then fail Encoding_Error
          else run_seq [emit_byte 0xCD, emit_byte (ucast (op_immediate op))]
      | _ \<Rightarrow> fail Encoding_Error)"

definition encode_cwd_cdq_cqo :: "parsed_instruction \<Rightarrow> cmd" where
  "encode_cwd_cdq_cqo inst =
     (if inst_operands inst \<noteq> [] then fail Encoding_Error
      else if inst_type inst = Cwd_family INST_CWD then run_seq [emit_byte 0x66, emit_byte 0x99]
      else if inst_type inst = Cwd_family INST_CDQ then run_seq [emit_byte 0x99]
      else if inst_type inst = Cwd_family INST_CQO then run_seq [emit_byte 0x48, emit_byte 0x99]
      else fail Encoding_Error)"

definition encode_cbw_cwde_cdqe :: "parsed_instruction \<Rightarrow> cmd" where
  "encode_cbw_cwde_cdqe inst =
     (if inst_operands inst \<noteq> [] then fail Encoding_Error
      else if inst_type inst = Cbw_family INST_CBW then run_seq [emit_byte 0x66, emit_byte 0x98]
      else if inst_type inst = Cbw_family INST_CWDE then run_seq [emit_byte 0x98]
      else if inst_type inst = Cbw_family INST_CDQE then run_seq [emit_byte 0x48, emit_byte 0x98]
      else fail Encoding_Error)"

definition encode_enter :: "parsed_instruction \<Rightarrow> cmd" where
  "encode_enter inst =
     (case inst_operands inst of
        [stack, nest] \<Rightarrow>
          if op_type stack \<noteq> OPERAND_IMM \<or> op_type nest \<noteq> OPERAND_IMM then fail Encoding_Error
          else if sint (op_immediate stack) < 0 \<or> sint (op_immediate stack) > 65535 then
            fail Constraint_Error
          else if sint (op_immediate nest) < 0 \<or> sint (op_immediate nest) > 255 then
            fail Constraint_Error
          else run_seq [emit_byte 0xC8, emit_le16 (ucast (op_immediate stack)),
            emit_byte (ucast (op_immediate nest))]
      | _ \<Rightarrow> fail Encoding_Error)"

definition encode_clc_stc_cmc :: "parsed_instruction \<Rightarrow> cmd" where
  "encode_clc_stc_cmc inst =
     (if inst_type inst = Flag_family INST_CLC then run_seq [emit_byte 0xF8]
      else if inst_type inst = Flag_family INST_STC then run_seq [emit_byte 0xF9]
      else if inst_type inst = Flag_family INST_CMC then run_seq [emit_byte 0xF5]
      else fail Silent_Error)"

definition encode_cld_std :: "parsed_instruction \<Rightarrow> cmd" where
  "encode_cld_std inst =
     (if inst_type inst = Flag_family INST_CLD then run_seq [emit_byte 0xFC]
      else if inst_type inst = Flag_family INST_STD then run_seq [emit_byte 0xFD]
      else fail Silent_Error)"

definition encode_cli_sti :: "parsed_instruction \<Rightarrow> cmd" where
  "encode_cli_sti inst =
     (if inst_type inst = Flag_family INST_CLI then run_seq [emit_byte 0xFA]
      else if inst_type inst = Flag_family INST_STI then run_seq [emit_byte 0xFB]
      else fail Silent_Error)"

definition encode_leave :: "parsed_instruction \<Rightarrow> cmd" where
  "encode_leave inst = run_seq [emit_byte 0xC9]"

section \<open>Conditional set and move, byte swap, exchange\<close>

definition encode_setcc :: "parsed_instruction \<Rightarrow> cmd" where
  "encode_setcc inst =
     (case inst_operands inst of
        [op] \<Rightarrow>
          if op_type op \<noteq> OPERAND_REG \<and> op_type op \<noteq> OPERAND_MEM then fail Encoding_Error
          else if op_type op = OPERAND_REG \<and> op_reg_size op \<noteq> REG_SIZE_8
               \<and> op_reg_size op \<noteq> REG_SIZE_8H then fail Constraint_Error
          else (case setcc_code (inst_type inst) of
             None \<Rightarrow> fail Silent_Error
           | Some cc \<Rightarrow> run_seq
               [emit_rex False None (Some op) None, emit_byte 0x0F, emit_byte (0x90 + cc),
                emit_modrm_sib 0 op REG_SIZE_8])
      | _ \<Rightarrow> fail Encoding_Error)"

definition encode_cmov :: "parsed_instruction \<Rightarrow> cmd" where
  "encode_cmov inst =
     (case inst_operands inst of
        [dst, src] \<Rightarrow>
          if op_type dst \<noteq> OPERAND_REG then fail Encoding_Error
          else if op_type src \<noteq> OPERAND_REG \<and> op_type src \<noteq> OPERAND_MEM then fail Encoding_Error
          else let sz = op_reg_size dst in
          if sz = REG_SIZE_8 \<or> sz = REG_SIZE_8H \<or> sz = REG_SIZE_XMM then fail Constraint_Error
          else if op_type src = OPERAND_REG \<and> op_reg_size src \<noteq> sz then fail Constraint_Error
          else (case cmov_code (inst_type inst) of
             None \<Rightarrow> fail Encoding_Error
           | Some cc \<Rightarrow> run_seq
               [emit_if (sz = REG_SIZE_16) (emit_byte 0x66),
                emit_rex (sz = REG_SIZE_64) (Some dst) (Some src) None, emit_byte 0x0F,
                emit_byte (0x40 + cc), emit_modrm_sib (low3 (op_reg dst)) src sz])
      | _ \<Rightarrow> fail Encoding_Error)"

definition encode_bswap :: "parsed_instruction \<Rightarrow> cmd" where
  "encode_bswap inst =
     (case inst_operands inst of
        [op] \<Rightarrow>
          if op_type op \<noteq> OPERAND_REG then fail Encoding_Error
          else if op_reg_size op \<noteq> REG_SIZE_32 \<and> op_reg_size op \<noteq> REG_SIZE_64 then
            fail Constraint_Error
          else run_seq
            [emit_rex (op_reg_size op = REG_SIZE_64) None (Some op) None, emit_byte 0x0F,
             emit_byte (0xC8 + low3 (op_reg op))]
      | _ \<Rightarrow> fail Encoding_Error)"

definition controlflow_high8_rex_conflict :: "operand \<Rightarrow> operand \<Rightarrow> bool" where
  "controlflow_high8_rex_conflict op1 op2 \<longleftrightarrow>
     (is_high_8bit_reg (Some op1) \<or> is_high_8bit_reg (Some op2)) \<and> (needs_rex op1 \<or> needs_rex op2)"

definition encode_xchg :: "parsed_instruction \<Rightarrow> cmd" where
  "encode_xchg inst =
     (case inst_operands inst of
        [op1, op2] \<Rightarrow>
          if controlflow_high8_rex_conflict op1 op2 then fail Constraint_Error
          else if (op_type op1 = OPERAND_REG \<and> op_reg op1 = 0 \<and> op_type op2 = OPERAND_REG) \<or>
             (op_type op2 = OPERAND_REG \<and> op_reg op2 = 0 \<and> op_type op1 = OPERAND_REG) then
            let reg_op = (if op_type op1 = OPERAND_REG \<and> op_reg op1 = 0 then op2 else op1) in
            run_seq [emit_rex (op_reg_size reg_op = REG_SIZE_64) None (Some reg_op) None,
              emit_byte (0x90 + low3 (op_reg reg_op))]
          else if op_type op1 = OPERAND_REG \<and> op_type op2 = OPERAND_REG then
            let sz = op_reg_size op1 in
            run_seq [emit_rex (sz = REG_SIZE_64) (Some op2) (Some op1) None, emit_byte 0x87,
              emit_modrm_sib (low3 (op_reg op2)) op1 sz]
          else if (op_type op1 = OPERAND_REG \<and> op_type op2 = OPERAND_MEM) \<or>
             (op_type op1 = OPERAND_MEM \<and> op_type op2 = OPERAND_REG) then
            let reg_op = (if op_type op1 = OPERAND_REG then op1 else op2);
                mem_op = (if op_type op1 = OPERAND_MEM then op1 else op2);
                sz = op_reg_size reg_op in
            run_seq [emit_rex (sz = REG_SIZE_64) (Some reg_op) (Some mem_op) None, emit_byte 0x87,
              emit_modrm_sib (low3 (op_reg reg_op)) mem_op sz]
          else fail Encoding_Error
      | _ \<Rightarrow> fail Encoding_Error)"

section \<open>Multiplication and division\<close>

definition encode_imul :: "parsed_instruction \<Rightarrow> cmd" where
  "encode_imul inst =
     (case inst_operands inst of
        [op] \<Rightarrow>
          let sz = register_size op in
          run_seq [emit_rex (sz = REG_SIZE_64) None (Some op) None, emit_byte 0xF7,
            emit_modrm_sib 5 op sz]
      | [dst, src] \<Rightarrow>
          if op_type dst \<noteq> OPERAND_REG then fail Encoding_Error
          else let sz = op_reg_size dst in
          run_seq [emit_rex (sz = REG_SIZE_64) (Some dst) (Some src) None, emit_byte 0x0F,
            emit_byte 0xAF, emit_modrm_sib (low3 (op_reg dst)) src sz]
      | [dst, src, imm] \<Rightarrow>
          if op_type dst \<noteq> OPERAND_REG \<or> op_type imm \<noteq> OPERAND_IMM then fail Encoding_Error
          else let sz = op_reg_size dst; is_64bit = (sz = REG_SIZE_64);
                   imm_val = (ucast (op_immediate imm) :: u32) in
          if sint imm_val \<ge> -128 \<and> sint imm_val \<le> 127 then run_seq
            [emit_rex is_64bit (Some dst) (Some src) None, emit_byte 0x6B,
             emit_modrm_sib (low3 (op_reg dst)) src sz, emit_byte (ucast imm_val)]
          else run_seq
            [emit_rex is_64bit (Some dst) (Some src) None, emit_byte 0x69,
             emit_modrm_sib (low3 (op_reg dst)) src sz, emit_le32 imm_val]
      | _ \<Rightarrow> fail Encoding_Error)"

definition muldiv_reg_opcode :: "instruction_type \<Rightarrow> u8 option" where
  "muldiv_reg_opcode ty =
     (case ty of
        Muldiv_family INST_MUL \<Rightarrow> Some 4
      | Muldiv_family INST_DIV \<Rightarrow> Some 6
      | Muldiv_family INST_IDIV \<Rightarrow> Some 7
      | _ \<Rightarrow> None)"

definition encode_div_idiv_mul :: "parsed_instruction \<Rightarrow> cmd" where
  "encode_div_idiv_mul inst =
     (case inst_operands inst of
        [op] \<Rightarrow>
          let sz = register_size op in
          (case muldiv_reg_opcode (inst_type inst) of
             None \<Rightarrow> fail Encoding_Error
           | Some reg_opcode \<Rightarrow> run_seq
               [emit_rex (sz = REG_SIZE_64) None (Some op) None, emit_byte 0xF7,
                emit_modrm_sib reg_opcode op sz])
      | _ \<Rightarrow> fail Encoding_Error)"

section \<open>test, shifts and bit instructions\<close>

definition encode_test :: "parsed_instruction \<Rightarrow> cmd" where
  "encode_test inst =
     (case inst_operands inst of
        [op1, op2] \<Rightarrow>
          if controlflow_high8_rex_conflict op1 op2 then fail Constraint_Error
          else if (op_type op1 = OPERAND_REG \<or> op_type op1 = OPERAND_MEM)
               \<and> op_type op2 = OPERAND_IMM then
            let sz = register_size op1; is_64bit = (sz = REG_SIZE_64); imm = op_immediate op2 in
            if op_type op1 = OPERAND_REG \<and> op_reg op1 = 0 \<and> sz \<noteq> REG_SIZE_8 then run_seq
              [emit_rex is_64bit None None None, emit_byte 0xA9, emit_le32 (ucast imm)]
            else if sz = REG_SIZE_8 then run_seq
              [emit_rex False None (Some op1) None, emit_byte 0xF6, emit_modrm_sib 0 op1 sz,
               emit_byte (ucast imm)]
            else run_seq
              [emit_rex is_64bit None (Some op1) None, emit_byte 0xF7, emit_modrm_sib 0 op1 sz,
               emit_le32 (ucast imm)]
          else if op_type op2 = OPERAND_REG then
            let sz = op_reg_size op2 in
            run_seq [emit_rex (sz = REG_SIZE_64) (Some op2) (Some op1) None, emit_byte 0x85,
              emit_modrm_sib (low3 (op_reg op2)) op1 sz]
          else fail Encoding_Error
      | _ \<Rightarrow> fail Encoding_Error)"

definition encode_not :: "parsed_instruction \<Rightarrow> cmd" where
  "encode_not inst =
     (case inst_operands inst of
        [op] \<Rightarrow>
          let sz = register_size op in
          run_seq [emit_rex (sz = REG_SIZE_64) None (Some op) None, emit_byte 0xF7,
            emit_modrm_sib 2 op sz]
      | _ \<Rightarrow> fail Encoding_Error)"

definition shift_reg_opcode :: "instruction_type \<Rightarrow> u8 option" where
  "shift_reg_opcode ty =
     (case ty of Shift_family k \<Rightarrow> Some
        (case k of
           INST_ROL \<Rightarrow> 0 | INST_ROR \<Rightarrow> 1 | INST_RCL \<Rightarrow> 2 | INST_RCR \<Rightarrow> 3
         | INST_SHL \<Rightarrow> 4 | INST_SAL \<Rightarrow> 4 | INST_SHR \<Rightarrow> 5 | INST_SAR \<Rightarrow> 7)
      | _ \<Rightarrow> None)"

text \<open>The count operand: absent (one), the CL register, or an immediate cast to \<open>int\<close>.\<close>

datatype shift_count = Count_CL | Count_Imm u32

definition shift_count_of :: "operand option \<Rightarrow> shift_count option" where
  "shift_count_of op2 =
     (case op2 of
        None \<Rightarrow> Some (Count_Imm 1)
      | Some op \<Rightarrow>
          if op_type op = OPERAND_REG \<and> op_reg op = 1 \<and> op_reg_size op = REG_SIZE_8 then
            Some Count_CL
          else if op_type op = OPERAND_IMM then Some (Count_Imm (ucast (op_immediate op)))
          else None)"

definition encode_shift_form :: "u8 \<Rightarrow> operand \<Rightarrow> shift_count \<Rightarrow> cmd" where
  "encode_shift_form reg_opcode op1 cnt =
     (let sz = register_size op1; is_64bit = (sz = REG_SIZE_64);
          pick = (\<lambda>op8 op. if sz = REG_SIZE_8 then op8 else op :: u8) in
      (case cnt of
         Count_CL \<Rightarrow> run_seq
           [emit_rex is_64bit None (Some op1) None, emit_byte (pick 0xD2 0xD3),
            emit_modrm_sib reg_opcode op1 sz]
       | Count_Imm n \<Rightarrow>
           if n = 1 then run_seq
             [emit_rex is_64bit None (Some op1) None, emit_byte (pick 0xD0 0xD1),
              emit_modrm_sib reg_opcode op1 sz]
           else run_seq
             [emit_rex is_64bit None (Some op1) None, emit_byte (pick 0xC0 0xC1),
              emit_modrm_sib reg_opcode op1 sz, emit_byte (ucast n)]))"

definition encode_shift_ops :: "instruction_type \<Rightarrow> operand \<Rightarrow> operand option \<Rightarrow> cmd" where
  "encode_shift_ops ty op1 op2 =
     (case shift_reg_opcode ty of
        None \<Rightarrow> fail Encoding_Error
      | Some reg_opcode \<Rightarrow>
          (case shift_count_of op2 of
             None \<Rightarrow> fail Constraint_Error
           | Some cnt \<Rightarrow> encode_shift_form reg_opcode op1 cnt))"

definition encode_shift :: "parsed_instruction \<Rightarrow> cmd" where
  "encode_shift inst =
     (case inst_operands inst of
        [op1] \<Rightarrow> encode_shift_ops (inst_type inst) op1 None
      | [op1, op2] \<Rightarrow> encode_shift_ops (inst_type inst) op1 (Some op2)
      | _ \<Rightarrow> fail Encoding_Error)"

text \<open>\<open>/n\<close> extension of the immediate form and opcode of the register form.\<close>

definition bit_opcodes :: "instruction_type \<Rightarrow> (u8 \<times> u8) option" where
  "bit_opcodes ty =
     (case ty of
        Bit_family INST_BT \<Rightarrow> Some (4, 0xA3)
      | Bit_family INST_BTS \<Rightarrow> Some (5, 0xAB)
      | Bit_family INST_BTR \<Rightarrow> Some (6, 0xB3)
      | Bit_family INST_BTC \<Rightarrow> Some (7, 0xBB)
      | _ \<Rightarrow> None)"

definition encode_bit_manip :: "parsed_instruction \<Rightarrow> cmd" where
  "encode_bit_manip inst =
     (case inst_operands inst of
        [op1, op2] \<Rightarrow>
          let sz = register_size op1; is_64bit = (sz = REG_SIZE_64) in
          (case bit_opcodes (inst_type inst) of
             None \<Rightarrow> fail Encoding_Error
           | Some (ext, opcode2) \<Rightarrow>
              let use_imm = (op_type op2 = OPERAND_IMM);
                  use_cl = (op_type op2 = OPERAND_REG \<and> op_reg op2 = 1) in
              if \<not> use_imm \<and> \<not> use_cl then fail Constraint_Error
              else if use_imm then run_seq
                [emit_rex is_64bit None (Some op1) None, emit_byte 0x0F, emit_byte 0xBA,
                 emit_modrm_sib ext op1 sz, emit_byte (ucast (op_immediate op2))]
              else run_seq
                [emit_rex is_64bit (Some op2) (Some op1) None, emit_byte 0x0F, emit_byte opcode2,
                 emit_modrm_sib (word_of_int (op_reg op2)) op1 sz])
      | _ \<Rightarrow> fail Encoding_Error)"

definition encode_shld_shrd :: "parsed_instruction \<Rightarrow> cmd" where
  "encode_shld_shrd inst =
     (case inst_operands inst of
        [dst, src, cnt] \<Rightarrow>
          let sz = register_size dst in
          if op_type src \<noteq> OPERAND_REG then fail Encoding_Error
          else let use_cl = (op_type cnt = OPERAND_REG \<and> op_reg cnt = 1);
                   use_imm = (op_type cnt = OPERAND_IMM) in
          if \<not> use_cl \<and> \<not> use_imm then fail Constraint_Error
          else let opcode2 = (if inst_type inst = Dshift_family INST_SHLD
                              then (if use_cl then 0xA5 else 0xA4)
                              else (if use_cl then 0xAD else 0xAC)) in
          run_seq
            [emit_rex (sz = REG_SIZE_64) (Some src) (Some dst) None, emit_byte 0x0F,
             emit_byte opcode2, emit_modrm_sib (word_of_int (op_reg src)) dst sz,
             emit_if use_imm (emit_byte (ucast (op_immediate cnt)))]
      | _ \<Rightarrow> fail Encoding_Error)"

definition encode_bit_scan :: "parsed_instruction \<Rightarrow> cmd" where
  "encode_bit_scan inst =
     (case inst_operands inst of
        [dst, src] \<Rightarrow>
          if op_type dst \<noteq> OPERAND_REG then fail Encoding_Error
          else let sz = op_reg_size dst in
          run_seq
            [emit_rex (sz = REG_SIZE_64) (Some dst) (Some src) None, emit_byte 0x0F,
             emit_byte (if inst_type inst = Scan_family INST_BSF then 0xBC else 0xBD),
             emit_modrm_sib (word_of_int (op_reg dst)) src sz]
      | _ \<Rightarrow> fail Encoding_Error)"

section \<open>Every encoder implements the interface\<close>

lemma emitter_add_controlflow_fixup: "emitter (add_controlflow_fixup l sz ty)"
  by (rule emitterI)
    (auto simp: add_controlflow_fixup_def grows_defs appended_def Let_def intro: exI [of _ "[]"])

lemma records_controlflow_fixup: "records_fixup_here (add_controlflow_fixup l 4 ty)"
  by (rule records_fixupI [where F = "\<lambda>s. (fixups s (fixup_count s))
        \<lparr>fx_label := copy_bounded_text MAX_LABEL_LENGTH l, fx_location := current_address s,
         fx_size := 4, fx_instruction_type := ty, fx_operand_index := 0\<rparr>"])
    (auto simp: add_controlflow_fixup_def Let_def split: if_splits)

lemma enc_branch_disp32 [enc_intro]: "encoder_cmd (branch_disp32 l ty)"
  unfolding branch_disp32_def
  by (rule enc_fixup_disp32 [OF emitter_add_controlflow_fixup records_controlflow_fixup])

lemma enc_state_option:
  assumes "encoder_cmd c" "\<And>x. encoder_cmd (d x)"
    and "\<And>s. f s = (case g s of Some x \<Rightarrow> d x s | None \<Rightarrow> c s)"
  shows "encoder_cmd f"
  unfolding encoder_cmd_def
proof
  show "emitter f"
    using assms by (auto simp: encoder_cmd_def emitter_def split: option.split)
  show "safe f"
  proof (rule safeI)
    fix s t assume "text_wf s" "f s = (Done, t)"
    then show "text_extends s t"
      using assms by (cases "g s") (auto simp: encoder_cmd_def dest: safe_extends)
  qed
qed

lemma enc_jump_label [enc_intro]:
  "encoder_cmd (encode_jmp_label l)" "encoder_cmd (encode_jcc_label cc ty l)"
  by (rule enc_state_option [OF _ _ encode_jmp_label_def]
      enc_state_option [OF _ _ encode_jcc_label_def]; intro enc_intro)+

lemma enc_list_upto2 [enc_intro]:
  "encoder_cmd c \<Longrightarrow> (\<And>x. encoder_cmd (d x)) \<Longrightarrow> (\<And>x y. encoder_cmd (e x y)) \<Longrightarrow>
   encoder_cmd (case xs of [x] \<Rightarrow> d x | [x, y] \<Rightarrow> e x y | _ \<Rightarrow> c)"
  by (simp split: list.split)

lemma enc_list_upto3 [enc_intro]:
  "encoder_cmd c \<Longrightarrow> (\<And>x. encoder_cmd (d x)) \<Longrightarrow> (\<And>x y. encoder_cmd (e x y)) \<Longrightarrow>
   (\<And>x y z. encoder_cmd (f x y z)) \<Longrightarrow>
   encoder_cmd (case xs of [x] \<Rightarrow> d x | [x, y] \<Rightarrow> e x y | [x, y, z] \<Rightarrow> f x y z | _ \<Rightarrow> c)"
  by (simp split: list.split)

lemma enc_case_pair [enc_intro]:
  "(\<And>a b. encoder_cmd (f a b)) \<Longrightarrow> encoder_cmd (case p of (a, b) \<Rightarrow> f a b)"
  by (cases p) simp

lemma enc_shift_count [enc_intro]:
  "encoder_cmd c \<Longrightarrow> (\<And>n. encoder_cmd (d n)) \<Longrightarrow>
   encoder_cmd (case k of Count_CL \<Rightarrow> c | Count_Imm n \<Rightarrow> d n)"
  by (cases k) simp_all

interpretation jmp_enc: instruction_encoder encode_jmp
  by unfold_locales (unfold encode_jmp_def, intro enc_intro)

interpretation jcc_enc: instruction_encoder encode_jcc
  by unfold_locales (unfold encode_jcc_def, intro enc_intro)

interpretation call_ret_enc: instruction_encoder encode_call_ret
  by unfold_locales (unfold encode_call_ret_def, intro enc_intro)

interpretation syscall_enc: instruction_encoder encode_syscall
  by unfold_locales (unfold encode_syscall_def, intro enc_intro)

interpretation sysret_enc: instruction_encoder encode_sysret
  by unfold_locales (unfold encode_sysret_def, intro enc_intro)

interpretation nop_enc: instruction_encoder encode_nop
  by unfold_locales (unfold encode_nop_def, intro enc_intro)

interpretation hlt_enc: instruction_encoder encode_hlt
  by unfold_locales (unfold encode_hlt_def, intro enc_intro)

interpretation int_enc: instruction_encoder encode_int
  by unfold_locales (unfold encode_int_def, intro enc_intro)

interpretation cwd_enc: instruction_encoder encode_cwd_cdq_cqo
  by unfold_locales (unfold encode_cwd_cdq_cqo_def, intro enc_intro)

interpretation cbw_enc: instruction_encoder encode_cbw_cwde_cdqe
  by unfold_locales (unfold encode_cbw_cwde_cdqe_def, intro enc_intro)

interpretation enter_enc: instruction_encoder encode_enter
  by unfold_locales (unfold encode_enter_def, intro enc_intro)

interpretation flagc_enc: instruction_encoder encode_clc_stc_cmc
  by unfold_locales (unfold encode_clc_stc_cmc_def, intro enc_intro)

interpretation flagd_enc: instruction_encoder encode_cld_std
  by unfold_locales (unfold encode_cld_std_def, intro enc_intro)

interpretation flagi_enc: instruction_encoder encode_cli_sti
  by unfold_locales (unfold encode_cli_sti_def, intro enc_intro)

interpretation leave_enc: instruction_encoder encode_leave
  by unfold_locales (unfold encode_leave_def, intro enc_intro)

interpretation setcc_enc: instruction_encoder encode_setcc
  by unfold_locales (unfold encode_setcc_def, intro enc_intro)

interpretation cmov_enc: instruction_encoder encode_cmov
  by unfold_locales (unfold encode_cmov_def Let_def, intro enc_intro)

interpretation bswap_enc: instruction_encoder encode_bswap
  by unfold_locales (unfold encode_bswap_def, intro enc_intro)

interpretation xchg_enc: instruction_encoder encode_xchg
  by unfold_locales (unfold encode_xchg_def Let_def, intro enc_intro)

interpretation imul_enc: instruction_encoder encode_imul
  by unfold_locales (unfold encode_imul_def Let_def, intro enc_intro)

interpretation muldiv_enc: instruction_encoder encode_div_idiv_mul
  by unfold_locales (unfold encode_div_idiv_mul_def Let_def, intro enc_intro)

interpretation test_enc: instruction_encoder encode_test
  by unfold_locales (unfold encode_test_def Let_def, intro enc_intro)

interpretation not_enc: instruction_encoder encode_not
  by unfold_locales (unfold encode_not_def Let_def, intro enc_intro)

interpretation shift_enc: instruction_encoder encode_shift
  by unfold_locales (unfold encode_shift_def encode_shift_ops_def encode_shift_form_def Let_def,
      intro enc_intro)

interpretation bit_manip_enc: instruction_encoder encode_bit_manip
  by unfold_locales (unfold encode_bit_manip_def Let_def, intro enc_intro)

interpretation shld_shrd_enc: instruction_encoder encode_shld_shrd
  by unfold_locales (unfold encode_shld_shrd_def Let_def, intro enc_intro)

interpretation bit_scan_enc: instruction_encoder encode_bit_scan
  by unfold_locales (unfold encode_bit_scan_def Let_def, intro enc_intro)

end
