(* ===== verification/Roundtrip.thy ===== *)
theory Roundtrip
  imports Operand_Forms Control_Flow
begin

text \<open>
  Instructions that the assembler encodes and the disassembler reads back: register moves and
  arithmetic with a register or memory operand, the stack instructions and the branches. The
  decoder is run on the emitted bytes inside any surrounding code.
\<close>

section \<open>The ModRM group in the opcode switch\<close>

text \<open>The opcodes the switch handles before it comes to the ModRM group.\<close>

definition switch_opcode :: "u8 \<Rightarrow> bool" where
  "switch_opcode opc \<longleftrightarrow>
     (opc \<ge> 0x50 \<and> opc \<le> 0x57) \<or> (opc \<ge> 0x58 \<and> opc \<le> 0x5F) \<or> opc = 0x6A \<or> opc = 0x68 \<or> (opc \<ge> 0x70 \<and> opc \<le> 0x7F) \<or>
     (opc \<ge> 0xB8 \<and> opc \<le> 0xBF) \<or> opc \<in> {0xEB, 0x90, 0xC9, 0x0F, 0xE8, 0xE9, 0xC3}"

definition plain_opcode :: "u8 \<Rightarrow> bool" where
  "plain_opcode opc \<longleftrightarrow> opc \<noteq> 0x66 \<and> \<not> legacy_prefix opc \<and> (opc < 0x40 \<or> 0x4F < opc)"

lemma modrm_group_disjoint:
  "opc \<in> set modrm_group \<Longrightarrow> \<not> switch_opcode opc \<and> plain_opcode opc"
proof -
  have "list_all (\<lambda>opc. \<not> switch_opcode opc \<and> plain_opcode opc) modrm_group"
    by code_simp
  then show "opc \<in> set modrm_group \<Longrightarrow> \<not> switch_opcode opc \<and> plain_opcode opc"
    by (simp add: list_all_iff)
qed

lemma decode_opcode_group:
  assumes "opc \<in> set modrm_group"
  shows "decode_opcode e opc c = decode_modrm_group e opc c"
proof -
  have "\<not> (opc \<ge> 0x50 \<and> opc \<le> 0x57)" "\<not> (opc \<ge> 0x58 \<and> opc \<le> 0x5F)" "opc \<noteq> 0x6A" "opc \<noteq> 0x68"
    "\<not> (opc \<ge> 0x70 \<and> opc \<le> 0x7F)" "opc \<noteq> 0xEB" "opc \<noteq> 0x90" "opc \<noteq> 0xC9" "opc \<noteq> 0x0F"
    "\<not> (opc \<ge> 0xB8 \<and> opc \<le> 0xBF)" "\<not> (opc = 0xE8 \<or> opc = 0xE9)" "opc \<noteq> 0xC3"
    using modrm_group_disjoint [OF assms] unfolding switch_opcode_def by auto
  with assms show ?thesis unfolding decode_opcode_def Let_def by (simp only: if_False if_True)
qed

section \<open>One register operand and one register-or-memory operand\<close>

definition rm_form :: "bool \<Rightarrow> u8 \<Rightarrow> operand \<Rightarrow> operand \<Rightarrow> u8 list" where
  "rm_form w opc reg_op rm_op =
     rex_bytes w (Some reg_op) (Some rm_op) None @ opc # operand_bytes (low3 (op_reg reg_op)) rm_op"

lemma emits_rm_form:
  "operand_ok rm_op \<Longrightarrow>
   emits (run_seq [emit_rex w (Some reg_op) (Some rm_op) None, emit_byte opc,
            emit_modrm_sib (low3 (op_reg reg_op)) rm_op sz]) (rm_form w opc reg_op rm_op)"
  unfolding rm_form_def
  using emits_Cons [OF emits_rex emits_Cons [OF emits_emit_byte emits_run_seq1 [OF emits_operand]]]
  by (simp del: run_seq.simps)

lemma length_rex_bytes: "length (rex_bytes w rg rm x) \<le> 1"
  by (simp add: rex_bytes_def)

lemma length_operand_bytes: "length (operand_bytes reg op) \<le> 6"
  by (simp add: operand_bytes_def base_only_bytes_def indexed_bytes_def Let_def)

lemma length_rm_form: "length (rm_form w opc a b) \<le> 8"
  using length_rex_bytes [of w "Some a" "Some b" None] length_operand_bytes [of "low3 (op_reg a)" b]
  by (simp add: rm_form_def)

text \<open>The environment in which the decoder meets a form after any prefix code.\<close>

definition form_env :: "u8 list \<Rightarrow> u64 \<Rightarrow> nat \<Rightarrow> u8 \<Rightarrow> dis_env" where
  "form_env code base start rex =
     \<lparr>de_code = code, de_base = base, de_start = start, de_override = False, de_rex = rex\<rparr>"

lemma form_env_simps [simp]:
  "de_code (form_env c b s r) = c" "de_base (form_env c b s r) = b"
  "de_start (form_env c b s r) = s" "de_rex (form_env c b s r) = r"
  "de_override (form_env c b s r) = False"
  by (simp_all add: form_env_def)

lemma decode_one_opcode:
  assumes "plain_opcode opc"
  shows "decode_one (pre @ rex_bytes w rg rm x @ opc # rest) base (length pre) =
    finish_step (pre @ rex_bytes w rg rm x @ opc # rest) (length pre)
      (decode_opcode (form_env (pre @ rex_bytes w rg rm x @ opc # rest) base (length pre)
          (rex_value w rg rm x))
        opc (length pre + length (rex_bytes w rg rm x) + 1))"
proof -
  have "byte_at (pre @ rex_bytes w rg rm x @ opc # rest) (length pre + length (rex_bytes w rg rm x)) = Some opc"
    by (simp add: byte_at_def nth_append)
  with assms show ?thesis
    by (simp add: decode_one_def scan_rex_bytes plain_opcode_def with_byte_def form_env_def Let_def)
qed

lemma parse_rm_at:
  assumes "decodes_to bs rex loc"
  shows "\<exists>r. parse_rm (pre @ bs @ post) (length pre) rex = Some (r, length bs) \<and> decoded_location r = loc"
  using assms parse_rm_shift [of pre "bs @ post" rex] by (simp add: decodes_to_def)

lemma finish_form:
  assumes "length bs \<le> DIS_MAX_INST_BYTES" "bs \<noteq> []"
  shows "finish_step (pre @ bs @ post) (length pre) (Text_To t (length pre + length bs)) =
    Decoded \<lparr>dis_bytes = bs, dis_text = t\<rparr>"
  using assms by (simp add: finish_step_def)

text \<open>A ModRM-group form reaches \<open>modrm_text\<close> with the operand's own address and the register
  operand's own code.\<close>

lemma decode_rm_form:
  fixes w :: bool and pre post :: "u8 list" and base :: u64
  assumes "operand_ok rm_op" "op_type reg_op = OPERAND_REG" "reg_code_ok (op_reg reg_op)"
    and opc: "opc \<in> set modrm_group"
  defines "bs \<equiv> rm_form w opc reg_op rm_op"
  defines "e \<equiv> form_env (pre @ bs @ post) base (length pre) (rex_value w (Some reg_op) (Some rm_op) None)"
  shows "\<exists>r modrm. decoded_location r = operand_location rm_op \<and> de_reg e modrm = nat (op_reg reg_op) \<and>
    de_bits e = (if w then 64 else 32) \<and>
    decode_one (pre @ bs @ post) base (length pre) =
      finish_step (pre @ bs @ post) (length pre)
        (modrm_text e opc modrm (print_rm r (rm_bits_of e opc) (de_rex e \<noteq> 0))
          (length pre + length bs))"
proof -
  define rexb where "rexb = rex_bytes w (Some reg_op) (Some rm_op) None"
  define rex where "rex = rex_value w (Some reg_op) (Some rm_op) None"
  define ob where "ob = operand_bytes (low3 (op_reg reg_op)) rm_op"
  have bs: "bs = rexb @ opc # ob" by (simp add: bs_def rm_form_def rexb_def ob_def)
  obtain m ms where m: "ob = m # ms" "modrm_reg m = unat (low3 (op_reg reg_op))"
    using operand_bytes_reg [OF assms(1), of "low3 (op_reg reg_op)"] by (auto simp: ob_def)
  have "decodes_to ob rex (operand_location rm_op)"
    unfolding ob_def rex_def by (rule operand_bytes_decode [OF assms(1) rex_value_covers])
  from parse_rm_at [OF this, of "pre @ rexb @ [opc]" post]
  obtain r where r: "parse_rm (pre @ bs @ post) (length pre + length rexb + 1) rex = Some (r, length ob)"
    "decoded_location r = operand_location rm_op"
    by (auto simp: bs)
  have at: "byte_at (pre @ bs @ post) (length pre + length rexb + 1) = Some m"
    by (simp add: bs m byte_at_def nth_append)
  have reg: "de_reg e m = nat (op_reg reg_op)"
    using reg_code_split [OF assms(3)] assms(2)
    by (simp add: de_reg_def e_def m(2) rex_ext_def rex_value_bits rex_r_bit_def)
  have bits: "de_bits e = (if w then 64 else 32)"
    by (simp add: de_bits_def de_w_def e_def rex_value_bits)
  have "decode_one (pre @ bs @ post) base (length pre) =
      finish_step (pre @ bs @ post) (length pre)
        (decode_modrm_group e opc (length pre + length rexb + 1))"
    using decode_one_opcode [of opc pre w "Some reg_op" "Some rm_op" None "ob @ post" base]
      modrm_group_disjoint [OF opc]
    by (simp add: bs e_def decode_opcode_group [OF opc] flip: rexb_def rex_def)
  also have "decode_modrm_group e opc (length pre + length rexb + 1) =
      modrm_text e opc m (print_rm r (rm_bits_of e opc) (de_rex e \<noteq> 0)) (length pre + length bs)"
    using at r(1) unfolding decode_modrm_group_def with_modrm_def with_rm_def format_rm_operand_def
    by (simp add: e_def bs rex_def add.assoc)
  finally show ?thesis using r(2) reg bits by blast
qed

section \<open>Register names\<close>

text \<open>The names the parser's table gives a register and the names the decoder prints agree.\<close>

lemma register_name_agrees:
  assumes "reg_code_ok r"
  shows "register_name r REG_SIZE_64 = reg64_name (nat r)"
    "register_name r REG_SIZE_32 = reg32_name (nat r)"
    "register_name r REG_SIZE_16 = reg16_name (nat r)"
    "register_name r REG_SIZE_8 = reg8_name (nat r) True"
proof -
  have r: "r \<in> set [0..15]" using assms by (auto simp: reg_code_ok_def)
  have "list_all (\<lambda>r. register_name r REG_SIZE_64 = reg64_name (nat r) \<and>
      register_name r REG_SIZE_32 = reg32_name (nat r) \<and>
      register_name r REG_SIZE_16 = reg16_name (nat r) \<and>
      register_name r REG_SIZE_8 = reg8_name (nat r) True) [0..15]"
    by code_simp
  with r show "register_name r REG_SIZE_64 = reg64_name (nat r)"
    "register_name r REG_SIZE_32 = reg32_name (nat r)"
    "register_name r REG_SIZE_16 = reg16_name (nat r)"
    "register_name r REG_SIZE_8 = reg8_name (nat r) True"
    by (simp_all only: list_all_iff Ball_def)
qed

definition size_bits_of :: "reg_size_t \<Rightarrow> nat" where
  "size_bits_of sz = (if sz = REG_SIZE_64 then 64 else 32)"

lemma de_name_register:
  assumes "reg_code_ok r" "sz = REG_SIZE_64 \<or> sz = REG_SIZE_32"
  shows "de_name e (nat r) (size_bits_of sz) = register_name r sz"
  using assms register_name_agrees [OF assms(1)]
  by (auto simp: de_name_def select_reg_name_def size_bits_of_def)

lemma print_rm_size:
  "sz = REG_SIZE_64 \<or> sz = REG_SIZE_32 \<Longrightarrow>
   print_rm r (size_bits_of sz) p = print_rm r (size_bits_of sz) False"
  by (auto simp: print_rm_def select_reg_name_def size_bits_of_def split: rm_operand.split)

section \<open>Moves and arithmetic\<close>

text \<open>What a decoded two-operand instruction says: the operand text is that of a decoded
  operand that denotes the same register or address as the assembler's operand.\<close>

definition reads_back ::
  "u8 list \<Rightarrow> (string \<Rightarrow> string) \<Rightarrow> reg_size_t \<Rightarrow> operand \<Rightarrow> bool" where
  "reads_back bs shown sz rm_op \<longleftrightarrow>
     (\<forall>pre post base. \<exists>r. decoded_location r = operand_location rm_op \<and>
        decode_one (pre @ bs @ post) base (length pre) =
          Decoded \<lparr>dis_bytes = bs, dis_text = shown (print_rm r (size_bits_of sz) False)\<rparr>)"

lemma form_reads_back:
  assumes ok: "operand_ok rm_op" "op_type reg_op = OPERAND_REG" "reg_code_ok (op_reg reg_op)"
    and opc: "opc \<in> set modrm_group" "\<And>e. rm_bits_of e opc = de_bits e"
    and shown: "\<And>e modrm t c. modrm_text e opc modrm t c =
      Text_To (T t (de_name e (de_reg e modrm) (de_bits e))) c"
    and sz: "sz = REG_SIZE_64 \<or> sz = REG_SIZE_32"
  shows "reads_back (rm_form (sz = REG_SIZE_64) opc reg_op rm_op)
    (\<lambda>t. T t (register_name (op_reg reg_op) sz)) sz rm_op"
  unfolding reads_back_def
proof (intro allI)
  fix pre post :: "u8 list" and base :: u64
  let ?bs = "rm_form (sz = REG_SIZE_64) opc reg_op rm_op"
  obtain r modrm where loc: "decoded_location r = operand_location rm_op"
    and dec: "\<exists>e. de_reg e modrm = nat (op_reg reg_op) \<and> de_bits e = size_bits_of sz \<and>
      decode_one (pre @ ?bs @ post) base (length pre) = finish_step (pre @ ?bs @ post) (length pre)
        (modrm_text e opc modrm (print_rm r (rm_bits_of e opc) (de_rex e \<noteq> 0))
          (length pre + length ?bs))"
    using decode_rm_form [OF ok opc(1), of pre "sz = REG_SIZE_64" post base]
    unfolding size_bits_of_def by blast
  then obtain e where e: "de_reg e modrm = nat (op_reg reg_op)" "de_bits e = size_bits_of sz"
    "decode_one (pre @ ?bs @ post) base (length pre) = finish_step (pre @ ?bs @ post) (length pre)
        (modrm_text e opc modrm (print_rm r (rm_bits_of e opc) (de_rex e \<noteq> 0))
          (length pre + length ?bs))"
    by blast
  have "?bs \<noteq> []" "length ?bs \<le> DIS_MAX_INST_BYTES"
    using length_rm_form [of "sz = REG_SIZE_64" opc reg_op rm_op] by (simp_all add: rm_form_def)
  then have "decode_one (pre @ ?bs @ post) base (length pre) =
      Decoded \<lparr>dis_bytes = ?bs, dis_text = T (print_rm r (size_bits_of sz) False)
        (register_name (op_reg reg_op) sz)\<rparr>"
    using e opc(2) shown finish_form [of ?bs] de_name_register [OF ok(3) sz]
      print_rm_size [OF sz, of r "de_rex e \<noteq> 0"]
    by simp
  with loc show "\<exists>r. decoded_location r = operand_location rm_op \<and>
      decode_one (pre @ ?bs @ post) base (length pre) =
        Decoded \<lparr>dis_bytes = ?bs, dis_text = T (print_rm r (size_bits_of sz) False)
          (register_name (op_reg reg_op) sz)\<rparr>"
    by blast
qed

lemma mov_forms_read_back:
  assumes "operand_ok rm_op" "op_type reg_op = OPERAND_REG" "reg_code_ok (op_reg reg_op)"
    and "sz = REG_SIZE_64 \<or> sz = REG_SIZE_32"
  shows "reads_back (rm_form (sz = REG_SIZE_64) 0x89 reg_op rm_op)
      (\<lambda>t. ''mov '' @ t @ '', '' @ register_name (op_reg reg_op) sz) sz rm_op"
    and "reads_back (rm_form (sz = REG_SIZE_64) 0x8B reg_op rm_op)
      (\<lambda>t. ''mov '' @ register_name (op_reg reg_op) sz @ '', '' @ t) sz rm_op"
  by (rule form_reads_back [OF assms(1-3) _ _ _ assms(4), where T = "\<lambda>t n. ''mov '' @ t @ '', '' @ n"]
      form_reads_back [OF assms(1-3) _ _ _ assms(4), where T = "\<lambda>t n. ''mov '' @ n @ '', '' @ t"];
      simp add: modrm_group_def rm_bits_of_def modrm_text_def Let_def)+

text \<open>The group-1 opcodes the decoder knows in their register forms.\<close>

definition decodable_alu :: "(arith_kind \<times> u8 \<times> string) list" where
  "decodable_alu = filter (\<lambda>e. fst e \<notin> {INST_ADC, INST_SBB}) X86_GROUP1_TABLE"

lemma alu_opcode_facts:
  assumes "alu_mnemonic opc = Some (mn, d)"
  shows "opc \<in> set modrm_group" "rm_bits_of e opc = de_bits e"
    "modrm_text e opc modrm t c = Text_To (mn @ '' '' @
       (if d then de_name e (de_reg e modrm) (de_bits e) @ '', '' @ t
        else t @ '', '' @ de_name e (de_reg e modrm) (de_bits e))) c"
proof -
  have opc: "opc = 0x01 \<or> opc = 0x03 \<or> opc = 0x29 \<or> opc = 0x2B \<or> opc = 0x39 \<or> opc = 0x3B \<or>
      opc = 0x31 \<or> opc = 0x33 \<or> opc = 0x21 \<or> opc = 0x23 \<or> opc = 0x09 \<or> opc = 0x0B"
    using map_of_SomeD [OF assms [unfolded alu_mnemonic_def]] by auto
  then show "opc \<in> set modrm_group" by (auto simp: modrm_group_def)
  from opc show "rm_bits_of e opc = de_bits e"
    by (elim disjE) (simp_all add: rm_bits_of_def)
  from opc have "opc \<notin> {0x8D, 0x63, 0x89, 0x8B, 0x88, 0x8A, 0x85, 0xC0, 0xC1}"
    by (elim disjE) simp_all
  with assms show "modrm_text e opc modrm t c = Text_To (mn @ '' '' @
       (if d then de_name e (de_reg e modrm) (de_bits e) @ '', '' @ t
        else t @ '', '' @ de_name e (de_reg e modrm) (de_bits e))) c"
    by (simp add: modrm_text_def Let_def)
qed

lemma alu_form_reads_back:
  assumes "operand_ok rm_op" "op_type reg_op = OPERAND_REG" "reg_code_ok (op_reg reg_op)"
    and "sz = REG_SIZE_64 \<or> sz = REG_SIZE_32" and alu: "alu_mnemonic opc = Some (mn, d)"
  shows "reads_back (rm_form (sz = REG_SIZE_64) opc reg_op rm_op)
      (\<lambda>t. mn @ '' '' @ (if d then register_name (op_reg reg_op) sz @ '', '' @ t
                         else t @ '', '' @ register_name (op_reg reg_op) sz)) sz rm_op"
  by (rule form_reads_back [OF assms(1-3) alu_opcode_facts(1,2) [OF alu] _ assms(4),
        where T = "\<lambda>t n. mn @ '' '' @ (if d then n @ '', '' @ t else t @ '', '' @ n)"])
    (simp add: alu_opcode_facts(3) [OF alu])

lemma alu_opcode_of:
  assumes "(k, ext, mn) \<in> set decodable_alu"
  shows "alu_mnemonic (0x01 + push_bit 3 ext) = Some (mn, False)"
    "alu_mnemonic (0x03 + push_bit 3 ext) = Some (mn, True)"
    "x86_lookup_group1_reg_opcode (Arith_family k) = Some ext"
proof -
  have "list_all (\<lambda>(k, ext, mn). alu_mnemonic (0x01 + push_bit 3 ext) = Some (mn, False) \<and>
      alu_mnemonic (0x03 + push_bit 3 ext) = Some (mn, True) \<and>
      x86_lookup_group1_reg_opcode (Arith_family k) = Some ext) decodable_alu"
    by code_simp
  with assms show "alu_mnemonic (0x01 + push_bit 3 ext) = Some (mn, False)"
    "alu_mnemonic (0x03 + push_bit 3 ext) = Some (mn, True)"
    "x86_lookup_group1_reg_opcode (Arith_family k) = Some ext"
    by (auto simp only: list_all_iff Ball_def prod.case)
qed

section \<open>The encoders on these forms\<close>

text \<open>A general-purpose register of the operation size, and an encodable register or memory
  operand whose register, if it is one, has that size.\<close>

definition gp_reg :: "reg_size_t \<Rightarrow> operand \<Rightarrow> bool" where
  "gp_reg sz op \<longleftrightarrow> op_type op = OPERAND_REG \<and> reg_code_ok (op_reg op) \<and> op_reg_size op = sz"

definition gp_rm :: "reg_size_t \<Rightarrow> operand \<Rightarrow> bool" where
  "gp_rm sz op \<longleftrightarrow> operand_ok op \<and> (op_type op = OPERAND_REG \<longrightarrow> op_reg_size op = sz)"

definition wide :: "reg_size_t \<Rightarrow> bool" where
  "wide sz \<longleftrightarrow> sz = REG_SIZE_64 \<or> sz = REG_SIZE_32"

lemma no_conflict:
  assumes "inst_operands inst = [a, b]" "wide sz"
    and "op_type a = OPERAND_REG \<longrightarrow> op_reg_size a = sz" "op_type b = OPERAND_REG \<longrightarrow> op_reg_size b = sz"
  shows "\<not> check_rex_conflict inst 0 1"
  using assms by (auto simp: check_rex_conflict_def operand_at_def is_high_8bit_reg_def wide_def Let_def)

lemma gp_rm_type: "gp_rm sz op \<Longrightarrow> op_type op = OPERAND_REG \<or> op_type op = OPERAND_MEM"
  by (auto simp: gp_rm_def operand_ok_def)

lemma mov_store_bytes:
  assumes ops: "inst_operands inst = [dst, src]" and "wide sz" "gp_rm sz dst" "gp_reg sz src"
  shows "emits (encode_mov inst) (rm_form (sz = REG_SIZE_64) 0x89 src dst)"
proof -
  have "encode_mov inst = run_seq [emit_rex (sz = REG_SIZE_64) (Some src) (Some dst) None,
      emit_byte 0x89, emit_modrm_sib (low3 (op_reg src)) dst sz]"
    using no_conflict [OF ops assms(2)] assms gp_rm_type [OF assms(3)]
    by (auto simp: encode_mov_def operation_size_def gp_reg_def gp_rm_def simp del: run_seq.simps)
  with assms show ?thesis by (simp add: emits_rm_form gp_rm_def)
qed

lemma mov_load_bytes:
  assumes ops: "inst_operands inst = [dst, src]" and "wide sz" "gp_reg sz dst"
    and "op_type src = OPERAND_MEM" "operand_ok src"
  shows "emits (encode_mov inst) (rm_form (sz = REG_SIZE_64) 0x8B dst src)"
proof -
  have "encode_mov inst = run_seq [emit_rex (sz = REG_SIZE_64) (Some dst) (Some src) None,
      emit_byte 0x8B, emit_modrm_sib (low3 (op_reg dst)) src sz]"
    using no_conflict [OF ops assms(2)] assms
    by (auto simp: encode_mov_def operation_size_def gp_reg_def simp del: run_seq.simps)
  with assms show ?thesis by (simp add: emits_rm_form)
qed

lemma alu_store_bytes:
  assumes ops: "inst_operands inst = [dst, src]" and "wide sz" "gp_rm sz dst" "gp_reg sz src"
    and k: "inst_type inst = Arith_family k" "x86_lookup_group1_reg_opcode (Arith_family k) = Some ext"
  shows "emits (encode_arithmetic inst) (rm_form (sz = REG_SIZE_64) (0x01 + push_bit 3 ext) src dst)"
proof -
  have "encode_arithmetic inst = run_seq [emit_rex (sz = REG_SIZE_64) (Some src) (Some dst) None,
      emit_byte (0x01 + push_bit 3 ext), emit_modrm_sib (low3 (op_reg src)) dst sz]"
    using no_conflict [OF ops assms(2)] assms gp_rm_type [OF assms(3)]
    by (auto simp: encode_arithmetic_def operation_size_def gp_reg_def gp_rm_def simp del: run_seq.simps)
  with assms show ?thesis by (simp add: emits_rm_form gp_rm_def)
qed

lemma alu_load_bytes:
  assumes ops: "inst_operands inst = [dst, src]" and "wide sz" "gp_reg sz dst"
    and "op_type src = OPERAND_MEM" "operand_ok src"
    and k: "inst_type inst = Arith_family k" "x86_lookup_group1_reg_opcode (Arith_family k) = Some ext"
  shows "emits (encode_arithmetic inst) (rm_form (sz = REG_SIZE_64) (0x03 + push_bit 3 ext) dst src)"
proof -
  have "encode_arithmetic inst = run_seq [emit_rex (sz = REG_SIZE_64) (Some dst) (Some src) None,
      emit_byte (0x03 + push_bit 3 ext), emit_modrm_sib (low3 (op_reg dst)) src sz]"
    using no_conflict [OF ops assms(2)] assms
    by (auto simp: encode_arithmetic_def operation_size_def gp_reg_def simp del: run_seq.simps)
  with assms show ?thesis by (simp add: emits_rm_form)
qed

lemma emits_form_run:
  "emits c (rm_form w opc a b) \<Longrightarrow> room 8 s \<Longrightarrow> c s = (Done, put_text (rm_form w opc a b) s)"
  using length_rm_form [of w opc a b] by (auto simp: emits_def room_def)

section \<open>push and pop\<close>

lemma low3_values: "low3 r \<in> {0, 1, 2, 3, 4, 5, 6, 7}"
proof -
  have "r mod 8 \<in> {0, 1, 2, 3, 4, 5, 6, 7}" by auto
  then show ?thesis by (auto simp: low3_bits)
qed

definition stack_reg_bytes :: "u8 \<Rightarrow> operand \<Rightarrow> u8 list" where
  "stack_reg_bytes opc op = rex_bytes False None (Some op) None @ [opc + low3 (op_reg op)]"

lemma push_pop_bytes:
  assumes "inst_operands inst = [op]" "op_type op = OPERAND_REG"
  shows "emits (encode_push_pop inst)
    (stack_reg_bytes (if inst_type inst = Stack_family INST_PUSH then 0x50 else 0x58) op)"
proof -
  have "encode_push_pop inst = run_seq [emit_if (op_reg op \<ge> 8) (emit_byte (make_rex False False False True)),
      emit_byte ((if inst_type inst = Stack_family INST_PUSH then 0x50 else 0x58) + low3 (op_reg op))]"
    using assms by (simp add: encode_push_pop_def Let_def del: run_seq.simps)
  moreover have "stack_reg_bytes opc op =
      (if op_reg op \<ge> 8 then [make_rex False False False True] else []) @ [opc + low3 (op_reg op)]" for opc
    using assms by (simp add: stack_reg_bytes_def rex_bytes_def rex_r_bit_def rex_x_bit_def rex_b_bit_def)
  ultimately show ?thesis
    by (simp only: emits_run_seq2 [OF emits_emit_if [OF emits_emit_byte] emits_emit_byte])
qed

lemma stack_opcode:
  assumes "opc = 0x50 \<or> opc = 0x58"
  shows "plain_opcode (opc + low3 r)"
    "decode_opcode e (opc + low3 r) c = Text_To ((if opc = 0x50 then ''push '' else ''pop '') @
       reg64_name (unat (low3 r) + rex_ext 0 (de_rex e))) c"
proof -
  from low3_values [of r] assms show "plain_opcode (opc + low3 r)"
    by (elim insertE emptyE disjE) (simp_all add: plain_opcode_def legacy_prefix_def)
  show "decode_opcode e (opc + low3 r) c = Text_To ((if opc = 0x50 then ''push '' else ''pop '') @
       reg64_name (unat (low3 r) + rex_ext 0 (de_rex e))) c"
  proof (cases "opc = 0x50")
    case True
    have "(0x50 \<le> opc + low3 r \<and> opc + low3 r \<le> 0x57) = True"
      using low3_values [of r] True by (elim insertE emptyE) simp_all
    then have "decode_opcode e (opc + low3 r) c = Text_To (''push '' @
       reg64_name (unat (opc + low3 r - 0x50) + rex_ext 0 (de_rex e))) c"
      by (simp only: decode_opcode_def Let_def if_True)
    with True show ?thesis by simp
  next
    case False
    with assms have opc: "opc = 0x58" by simp
    have "(0x50 \<le> opc + low3 r \<and> opc + low3 r \<le> 0x57) = False"
      "(0x58 \<le> opc + low3 r \<and> opc + low3 r \<le> 0x5F) = True"
      using low3_values [of r] opc by (elim insertE emptyE; simp)+
    then have "decode_opcode e (opc + low3 r) c = Text_To (''pop '' @
       reg64_name (unat (opc + low3 r - 0x58) + rex_ext 0 (de_rex e))) c"
      by (simp only: decode_opcode_def Let_def if_True if_False)
    with opc show ?thesis by simp
  qed
qed

lemma stack_reads_back:
  assumes "opc = 0x50 \<or> opc = 0x58" "op_type op = OPERAND_REG" "reg_code_ok (op_reg op)"
  shows "decode_one (pre @ stack_reg_bytes opc op @ post) base (length pre) =
    Decoded \<lparr>dis_bytes = stack_reg_bytes opc op,
      dis_text = (if opc = 0x50 then ''push '' else ''pop '') @ register_name (op_reg op) REG_SIZE_64\<rparr>"
proof -
  let ?rex = "rex_bytes False None (Some op) None" and ?bs = "stack_reg_bytes opc op"
  have code: "pre @ ?bs @ post = pre @ ?rex @ (opc + low3 (op_reg op)) # post"
    by (simp add: stack_reg_bytes_def)
  have "decode_one (pre @ ?bs @ post) base (length pre) = finish_step (pre @ ?bs @ post) (length pre)
      (Text_To ((if opc = 0x50 then ''push '' else ''pop '') @ register_name (op_reg op) REG_SIZE_64)
        (length pre + length ?bs))"
    unfolding code decode_one_opcode [OF stack_opcode(1) [OF assms(1)]] stack_opcode(2) [OF assms(1)]
    using reg_code_split [OF assms(3)] assms(2) register_name_agrees(1) [OF assms(3)]
    by (simp add: stack_reg_bytes_def rex_ext_def rex_value_bits rex_b_bit_def)
  also have "\<dots> = Decoded \<lparr>dis_bytes = ?bs,
      dis_text = (if opc = 0x50 then ''push '' else ''pop '') @ register_name (op_reg op) REG_SIZE_64\<rparr>"
    using length_rex_bytes [of False None "Some op" None]
    by (intro finish_form) (simp_all add: stack_reg_bytes_def)
  finally show ?thesis .
qed

end
