(* ===== verification/Encoder_SSE.thy ===== *)
theory Encoder_SSE
  imports Encoder_GP
begin

text \<open>
  The SSE encoders of src/x86_64_encoder.c: moves, scalar and packed floating point arithmetic,
  packed integer arithmetic, packed compares and logic. The opcode switch of each encoder is a
  function from the instruction type to its mandatory prefix and opcode byte.
\<close>

definition is_xmm_reg :: "reg_t \<Rightarrow> bool" where
  "is_xmm_reg reg \<longleftrightarrow> reg \<ge> XMM0 \<and> reg \<le> XMM15"

definition op_is_xmm :: "operand \<Rightarrow> bool" where
  "op_is_xmm op \<longleftrightarrow> op_type op = OPERAND_REG \<and> is_xmm_reg (op_reg op)"

section \<open>Moves\<close>

text \<open>Prefix bytes and opcode for a store (\<open>dst_is_mem\<close>) or a load.\<close>

definition sse_mov_opcode :: "instruction_type \<Rightarrow> bool \<Rightarrow> (u8 list \<times> u8) option" where
  "sse_mov_opcode ty dst_is_mem =
     (case ty of
        Sse_mov_family INST_MOVAPS \<Rightarrow> Some ([], if dst_is_mem then 0x29 else 0x28)
      | Sse_mov_family INST_MOVUPS \<Rightarrow> Some ([], if dst_is_mem then 0x11 else 0x10)
      | Sse_mov_family INST_MOVSS \<Rightarrow> Some ([0xF3], if dst_is_mem then 0x11 else 0x10)
      | Sse_mov_family INST_MOVAPD \<Rightarrow> Some ([0x66], if dst_is_mem then 0x29 else 0x28)
      | Sse_mov_family INST_MOVUPD \<Rightarrow> Some ([0x66], if dst_is_mem then 0x11 else 0x10)
      | Sse_mov_family INST_MOVSD_XMM \<Rightarrow> Some ([0xF2], if dst_is_mem then 0x11 else 0x10)
      | Sse_mov_family INST_MOVDQA \<Rightarrow> Some ([0x66], if dst_is_mem then 0x7F else 0x6F)
      | Sse_mov_family INST_MOVDQU \<Rightarrow> Some ([0xF3], if dst_is_mem then 0x7F else 0x6F)
      | _ \<Rightarrow> None)"

definition encode_sse_mov :: "parsed_instruction \<Rightarrow> cmd" where
  "encode_sse_mov inst =
     (case inst_operands inst of
        [dst, src] \<Rightarrow>
          let dst_is_xmm = op_is_xmm dst; src_is_xmm = op_is_xmm src;
              src_is_mem = (op_type src = OPERAND_MEM); dst_is_mem = (op_type dst = OPERAND_MEM) in
          if dst_is_xmm \<and> op_reg_size dst \<noteq> REG_SIZE_XMM then fail Encoding_Error
          else if src_is_xmm \<and> op_reg_size src \<noteq> REG_SIZE_XMM then fail Encoding_Error
          else if dst_is_mem \<and> src_is_mem then fail Encoding_Error
          else if dst_is_mem \<and> \<not> src_is_xmm then fail Encoding_Error
          else if dst_is_xmm \<and> \<not> src_is_xmm \<and> \<not> src_is_mem then fail Encoding_Error
          else if \<not> dst_is_xmm \<and> \<not> src_is_xmm then fail Encoding_Error
          else (case sse_mov_opcode (inst_type inst) dst_is_mem of
             None \<Rightarrow> fail Encoding_Error
           | Some (prefixes, opcode2) \<Rightarrow>
              let reg_field_op = (if dst_is_mem then src else dst);
                  rm_field_op = (if dst_is_mem then dst else src);
                  rex_r = (op_type reg_field_op = OPERAND_REG \<and> op_reg reg_field_op \<ge> XMM8);
                  rex_x = ((src_is_mem \<and> mem_has_index (op_mem src) \<and> mem_index (op_mem src) \<ge> 8)
                    \<or> (dst_is_mem \<and> mem_has_index (op_mem dst) \<and> mem_index (op_mem dst) \<ge> 8));
                  rex_b = ((op_type rm_field_op = OPERAND_REG \<and> op_reg rm_field_op \<ge> XMM8)
                    \<or> (src_is_mem \<and> mem_has_base (op_mem src) \<and> mem_base (op_mem src) \<ge> 8)
                    \<or> (dst_is_mem \<and> mem_has_base (op_mem dst) \<and> mem_base (op_mem dst) \<ge> 8))
              in run_seq
                [emit_bytes prefixes,
                 emit_if (rex_r \<or> rex_x \<or> rex_b) (emit_byte (make_rex False rex_r rex_x rex_b)),
                 emit_byte 0x0F, emit_byte opcode2,
                 (if dst_is_mem then emit_modrm_sib (low3 (op_reg src)) dst REG_SIZE_XMM
                  else if src_is_mem then emit_modrm_sib (low3 (op_reg dst)) src REG_SIZE_XMM
                  else emit_byte (make_modrm 3 (low3 (op_reg dst)) (low3 (op_reg src))))])
      | _ \<Rightarrow> fail Encoding_Error)"

section \<open>Arithmetic, compare and logic\<close>

definition sse_arith_opcode :: "instruction_type \<Rightarrow> (u8 list \<times> u8) option" where
  "sse_arith_opcode ty =
     (case ty of
        Sse_arith_family INST_ADDSS \<Rightarrow> Some ([0xF3], 0x58)
      | Sse_arith_family INST_ADDPS \<Rightarrow> Some ([], 0x58)
      | Sse_arith_family INST_ADDSD \<Rightarrow> Some ([0xF2], 0x58)
      | Sse_arith_family INST_ADDPD \<Rightarrow> Some ([0x66], 0x58)
      | Sse_arith_family INST_SUBSS \<Rightarrow> Some ([0xF3], 0x5C)
      | Sse_arith_family INST_SUBPS \<Rightarrow> Some ([], 0x5C)
      | Sse_arith_family INST_SUBSD \<Rightarrow> Some ([0xF2], 0x5C)
      | Sse_arith_family INST_SUBPD \<Rightarrow> Some ([0x66], 0x5C)
      | Sse_arith_family INST_MULSS \<Rightarrow> Some ([0xF3], 0x59)
      | Sse_arith_family INST_MULPS \<Rightarrow> Some ([], 0x59)
      | Sse_arith_family INST_MULSD \<Rightarrow> Some ([0xF2], 0x59)
      | Sse_arith_family INST_MULPD \<Rightarrow> Some ([0x66], 0x59)
      | Sse_arith_family INST_DIVSS \<Rightarrow> Some ([0xF3], 0x5E)
      | Sse_arith_family INST_DIVPS \<Rightarrow> Some ([], 0x5E)
      | Sse_arith_family INST_DIVSD \<Rightarrow> Some ([0xF2], 0x5E)
      | Sse_arith_family INST_DIVPD \<Rightarrow> Some ([0x66], 0x5E)
      | _ \<Rightarrow> None)"

definition packed_arith_opcode :: "instruction_type \<Rightarrow> u8 option" where
  "packed_arith_opcode ty =
     (case ty of
        Packed_family INST_PADDB \<Rightarrow> Some 0xFC
      | Packed_family INST_PADDW \<Rightarrow> Some 0xFD
      | Packed_family INST_PADDD \<Rightarrow> Some 0xFE
      | Packed_family INST_PADDQ \<Rightarrow> Some 0xD4
      | Packed_family INST_PSUBB \<Rightarrow> Some 0xF8
      | Packed_family INST_PSUBW \<Rightarrow> Some 0xF9
      | Packed_family INST_PSUBD \<Rightarrow> Some 0xFA
      | Packed_family INST_PSUBQ \<Rightarrow> Some 0xFB
      | _ \<Rightarrow> None)"

text \<open>The flag is the \<open>0F 38\<close> escape of the quadword compares.\<close>

definition packed_cmp_opcode :: "instruction_type \<Rightarrow> (bool \<times> u8) option" where
  "packed_cmp_opcode ty =
     (case ty of
        Pcmp_family INST_PCMPEQB \<Rightarrow> Some (False, 0x74)
      | Pcmp_family INST_PCMPEQW \<Rightarrow> Some (False, 0x75)
      | Pcmp_family INST_PCMPEQD \<Rightarrow> Some (False, 0x76)
      | Pcmp_family INST_PCMPEQQ \<Rightarrow> Some (True, 0x29)
      | Pcmp_family INST_PCMPGTB \<Rightarrow> Some (False, 0x64)
      | Pcmp_family INST_PCMPGTW \<Rightarrow> Some (False, 0x65)
      | Pcmp_family INST_PCMPGTD \<Rightarrow> Some (False, 0x66)
      | Pcmp_family INST_PCMPGTQ \<Rightarrow> Some (True, 0x37)
      | _ \<Rightarrow> None)"

definition packed_logic_opcode :: "instruction_type \<Rightarrow> u8 option" where
  "packed_logic_opcode ty =
     (case ty of
        Plogic_family INST_PAND \<Rightarrow> Some 0xDB
      | Plogic_family INST_PANDNPD \<Rightarrow> Some 0xDF
      | Plogic_family INST_POR \<Rightarrow> Some 0xEB
      | Plogic_family INST_PXOR \<Rightarrow> Some 0xEF
      | _ \<Rightarrow> None)"

text \<open>The tail the four encoders share: mandatory prefixes, REX, escape bytes, opcode, form.\<close>

definition emit_sse_form :: "u8 list \<Rightarrow> u8 list \<Rightarrow> u8 \<Rightarrow> operand \<Rightarrow> operand \<Rightarrow> cmd" where
  "emit_sse_form prefixes escape opcode2 dst src =
     (let src_is_xmm = op_is_xmm src; src_is_mem = (op_type src = OPERAND_MEM);
          rex_r = (op_reg dst \<ge> XMM8);
          high_src = (src_is_xmm \<and> op_reg src \<ge> XMM8);
          rex_b = (high_src \<or>
            (src_is_mem \<and> mem_has_base (op_mem src) \<and> mem_base (op_mem src) \<ge> 8));
          rex_x = (\<not> high_src \<and> src_is_mem \<and> mem_has_index (op_mem src)
            \<and> mem_index (op_mem src) \<ge> 8)
      in run_seq
        [emit_bytes prefixes,
         emit_if (rex_r \<or> rex_x \<or> rex_b) (emit_byte (make_rex False rex_r rex_x rex_b)),
         emit_bytes escape, emit_byte opcode2,
         emit_modrm_sib (low3 (op_reg dst)) src REG_SIZE_XMM])"

definition encode_sse_arith :: "parsed_instruction \<Rightarrow> cmd" where
  "encode_sse_arith inst =
     (case inst_operands inst of
        [dst, src] \<Rightarrow>
          if op_type dst \<noteq> OPERAND_REG \<or> \<not> is_xmm_reg (op_reg dst) then fail Encoding_Error
          else if op_reg_size dst \<noteq> REG_SIZE_XMM then fail Encoding_Error
          else let src_is_xmm = op_is_xmm src; src_is_mem = (op_type src = OPERAND_MEM) in
          if \<not> src_is_xmm \<and> \<not> src_is_mem then fail Encoding_Error
          else if src_is_xmm \<and> op_reg_size src \<noteq> REG_SIZE_XMM then fail Encoding_Error
          else (case sse_arith_opcode (inst_type inst) of
             None \<Rightarrow> fail Encoding_Error
           | Some (prefixes, opcode2) \<Rightarrow> emit_sse_form prefixes [0x0F] opcode2 dst src)
      | _ \<Rightarrow> fail Encoding_Error)"

text \<open>The operand checks of the packed integer encoders.\<close>

definition packed_operands_ok :: "operand \<Rightarrow> operand \<Rightarrow> bool" where
  "packed_operands_ok dst src \<longleftrightarrow>
     op_is_xmm dst \<and> op_reg_size dst = REG_SIZE_XMM \<and>
     \<not> (op_is_xmm src \<and> op_reg_size src \<noteq> REG_SIZE_XMM) \<and>
     (op_is_xmm src \<or> op_type src = OPERAND_MEM)"

definition encode_sse_packed_arith :: "parsed_instruction \<Rightarrow> cmd" where
  "encode_sse_packed_arith inst =
     (case inst_operands inst of
        [dst, src] \<Rightarrow>
          if \<not> packed_operands_ok dst src then fail Encoding_Error
          else (case packed_arith_opcode (inst_type inst) of
             None \<Rightarrow> fail Encoding_Error
           | Some opcode2 \<Rightarrow> emit_sse_form [0x66] [0x0F] opcode2 dst src)
      | _ \<Rightarrow> fail Encoding_Error)"

definition encode_sse_packed_cmp :: "parsed_instruction \<Rightarrow> cmd" where
  "encode_sse_packed_cmp inst =
     (case inst_operands inst of
        [dst, src] \<Rightarrow>
          if \<not> packed_operands_ok dst src then fail Encoding_Error
          else (case packed_cmp_opcode (inst_type inst) of
             None \<Rightarrow> fail Encoding_Error
           | Some (need_0f38_escape, opcode2) \<Rightarrow>
               emit_sse_form [0x66] (if need_0f38_escape then [0x0F, 0x38] else [0x0F])
                 opcode2 dst src)
      | _ \<Rightarrow> fail Encoding_Error)"

definition encode_sse_packed_logic :: "parsed_instruction \<Rightarrow> cmd" where
  "encode_sse_packed_logic inst =
     (case inst_operands inst of
        [dst, src] \<Rightarrow>
          if \<not> packed_operands_ok dst src then fail Encoding_Error
          else (case packed_logic_opcode (inst_type inst) of
             None \<Rightarrow> fail Encoding_Error
           | Some opcode2 \<Rightarrow> emit_sse_form [0x66] [0x0F] opcode2 dst src)
      | _ \<Rightarrow> fail Encoding_Error)"

section \<open>Every encoder implements the interface\<close>

lemma enc_emit_bytes [enc_intro]: "encoder_cmd (emit_bytes bs)"
  by (simp add: encoder_cmd_def emitter_emit_bytes safe_emit_bytes)

lemma enc_pair [enc_intro]: "(\<And>a b. encoder_cmd (f a b)) \<Longrightarrow> encoder_cmd (case p of (a, b) \<Rightarrow> f a b)"
  by (cases p) simp

lemma enc_emit_sse_form [enc_intro]: "encoder_cmd (emit_sse_form p e opc dst src)"
  unfolding emit_sse_form_def Let_def by (intro enc_intro)

interpretation sse_mov_enc: instruction_encoder encode_sse_mov
  by unfold_locales (unfold encode_sse_mov_def Let_def, intro enc_intro)

interpretation sse_arith_enc: instruction_encoder encode_sse_arith
  by unfold_locales (unfold encode_sse_arith_def Let_def, intro enc_intro)

interpretation packed_arith_enc: instruction_encoder encode_sse_packed_arith
  by unfold_locales (unfold encode_sse_packed_arith_def, intro enc_intro)

interpretation packed_cmp_enc: instruction_encoder encode_sse_packed_cmp
  by unfold_locales (unfold encode_sse_packed_cmp_def, intro enc_intro)

interpretation packed_logic_enc: instruction_encoder encode_sse_packed_logic
  by unfold_locales (unfold encode_sse_packed_logic_def, intro enc_intro)

end
