(* ===== verification/Dispatch.thy ===== *)
theory Dispatch
  imports Encoder_SSE Control_Flow
begin

text \<open>
  The section switch, the directives that emit bytes and the instruction dispatcher
  \<open>encode_instruction\<close> of src/x86_64_asm.c. The file that \<open>incbin\<close> opens is read through a
  function from file names to outcomes, an argument of the dispatcher.
\<close>

section \<open>Sections\<close>

definition section_name_matches :: "string \<Rightarrow> string \<Rightarrow> bool" where
  "section_name_matches section_name base_name \<longleftrightarrow>
     (let name = (case section_name of c # cs \<Rightarrow> if c = CHR ''.'' then cs else section_name | [] \<Rightarrow> []);
          n = length base_name
      in n \<le> length name \<and> strcase_eq (take n name) base_name \<and>
         (drop n name = [] \<or> hd (drop n name) = CHR ''.''))"

definition classify_section_name :: "string \<Rightarrow> int" where
  "classify_section_name section_name =
     (if section_name_matches section_name ''data'' \<or> section_name_matches section_name ''bss''
         \<or> section_name_matches section_name ''rodata'' then 1 else 0)"

definition section_name_from_instruction :: "parsed_instruction \<Rightarrow> string option" where
  "section_name_from_instruction inst =
     (case inst_operands inst of
        [] \<Rightarrow> None
      | op # _ \<Rightarrow>
          if op_type op = OPERAND_LABEL then Some (op_label op)
          else if op_type op = OPERAND_STRING then Some (op_string op)
          else None)"

definition apply_section_directive :: "parsed_instruction \<Rightarrow> asm_ctx \<Rightarrow> asm_ctx" where
  "apply_section_directive inst ctx =
     (case section_name_from_instruction inst of
        None \<Rightarrow> ctx
      | Some section_name \<Rightarrow> ctx\<lparr>current_section := classify_section_name section_name\<rparr>)"

section \<open>Segment override prefix\<close>

text \<open>The scan over the memory operands: \<open>None\<close> when two overrides conflict.\<close>

fun scan_segment_override :: "mem_segment_t \<Rightarrow> operand list \<Rightarrow> mem_segment_t option" where
  "scan_segment_override seg [] = Some seg"
| "scan_segment_override seg (op # ops) =
     (if op_type op \<noteq> OPERAND_MEM \<or> mem_segment_override (op_mem op) = MEM_SEG_DEFAULT then
        scan_segment_override seg ops
      else if seg \<noteq> MEM_SEG_DEFAULT \<and> seg \<noteq> mem_segment_override (op_mem op) then None
      else scan_segment_override (mem_segment_override (op_mem op)) ops)"

fun emit_segment_prefix :: "mem_segment_t \<Rightarrow> cmd" where
  "emit_segment_prefix MEM_SEG_FS = emit_byte 0x64"
| "emit_segment_prefix MEM_SEG_GS = emit_byte 0x65"
| "emit_segment_prefix MEM_SEG_DEFAULT = run_seq []"

section \<open>Directives that emit bytes\<close>

text \<open>These loops ignore the status of \<open>emit_byte\<close>: a full buffer drops the rest in silence.\<close>

definition emit_ignoring :: "u8 list \<Rightarrow> asm_ctx \<Rightarrow> asm_ctx" where
  "emit_ignoring bytes = run_ignoring (map emit_byte bytes)"

definition data_operand_bytes :: "data_kind \<Rightarrow> operand \<Rightarrow> u8 list" where
  "data_operand_bytes kind op =
     (if op_type op = OPERAND_IMM then
        (case kind of
           INST_DB \<Rightarrow> [ucast (op_immediate op)]
         | INST_DW \<Rightarrow> le16 (ucast (op_immediate op))
         | INST_DD \<Rightarrow> le32 (ucast (op_immediate op))
         | INST_DQ \<Rightarrow> le64 (op_immediate op))
      else if op_type op = OPERAND_STRING \<and> kind = INST_DB then map of_char (op_string op)
      else [])"

definition encode_data :: "data_kind \<Rightarrow> operand list \<Rightarrow> cmd" where
  "encode_data kind ops ctx =
     (Done, emit_ignoring (concat (map (data_operand_bytes kind) ops)) ctx)"

definition reserve_unit :: "reserve_kind \<Rightarrow> u64" where
  "reserve_unit kind =
     (case kind of INST_RESB \<Rightarrow> 1 | INST_RESW \<Rightarrow> 2 | INST_RESD \<Rightarrow> 4 | INST_RESQ \<Rightarrow> 8)"

text \<open>\<open>for (i = 0; i < count * size; i++)\<close> with a signed 64 bit product.\<close>

definition encode_reserve :: "reserve_kind \<Rightarrow> operand list \<Rightarrow> cmd" where
  "encode_reserve kind ops ctx =
     (case ops of
        op # _ \<Rightarrow>
          if op_type op = OPERAND_IMM then
            (Done, emit_ignoring
               (replicate (nat (sint (op_immediate op * reserve_unit kind))) 0) ctx)
          else (Done, ctx)
      | [] \<Rightarrow> (Done, ctx))"

text \<open>\<open>(addr + alignment - 1) & ~(alignment - 1)\<close>.\<close>

definition round_up :: "u64 \<Rightarrow> u64 \<Rightarrow> u64" where
  "round_up addr alignment = (addr + alignment - 1) AND NOT (alignment - 1)"

definition padding_of :: "u64 \<Rightarrow> u64 \<Rightarrow> nat" where
  "padding_of addr aligned = nat (sint (ucast (aligned - addr) :: u32))"

definition encode_align :: "operand list \<Rightarrow> cmd" where
  "encode_align ops ctx =
     (case ops of
        op # _ \<Rightarrow>
          if op_type op = OPERAND_IMM then
            let alignment = (ucast (op_immediate op) :: u32) in
            if sint alignment > 0 \<and> alignment AND (alignment - 1) = 0 then
              let current_addr = current_address ctx;
                  aligned_addr = round_up current_addr (ucast alignment)
              in (Done, emit_ignoring
                    (replicate (padding_of current_addr aligned_addr)
                       (if current_section ctx = 0 then 0x90 else 0)) ctx)
            else (Fail Directive_Error, ctx)
          else (Fail Directive_Error, ctx)
      | [] \<Rightarrow> (Fail Directive_Error, ctx))"

text \<open>What opening and reading a file gives: it may not open; otherwise the size that \<open>ftell\<close>
  reports (negative when it is not known), the bytes that come and whether the stream ends in an
  error.\<close>

datatype file_outcome = Not_Opened | Opened (file_size: int) (file_bytes: "u8 list") (read_failed: bool)

type_synonym file_reader = "string \<Rightarrow> file_outcome"

definition encode_incbin :: "file_reader \<Rightarrow> operand list \<Rightarrow> cmd" where
  "encode_incbin files ops ctx =
     (case ops of
        op # _ \<Rightarrow>
          if op_type op = OPERAND_STRING then
            (case files (op_string op) of
               Not_Opened \<Rightarrow> (Fail IO_Error, ctx)
             | Opened sz bytes failed \<Rightarrow>
                 if sz < 0 then (Fail IO_Error, ctx)
                 else (if failed then Fail IO_Error else Done, emit_ignoring bytes ctx))
          else (Fail Directive_Error, ctx)
      | [] \<Rightarrow> (Fail Directive_Error, ctx))"

definition encode_common :: "common_kind \<Rightarrow> operand list \<Rightarrow> cmd" where
  "encode_common kind ops ctx =
     (case ops of
        name_op # size_op # rest \<Rightarrow>
          if op_type name_op = OPERAND_LABEL \<and> op_type size_op = OPERAND_IMM then
            let sz = op_immediate size_op;
                alignment = (case rest of a # _ \<Rightarrow> op_immediate a | [] \<Rightarrow> 1) in
            if sint sz \<le> 0 then (Fail Directive_Error, ctx)
            else let aligned = sint alignment > 1;
                     addr = (if aligned then round_up (current_address ctx) alignment
                             else current_address ctx);
                     ctx1 = (if aligned then emit_ignoring
                               (replicate (padding_of (current_address ctx) addr) 0) ctx else ctx);
                     ctx2 = snd (add_symbol (op_label name_op) addr (kind = INST_COMM) False 1 ctx1)
                 in (Done, emit_ignoring (replicate (nat (sint sz)) 0) ctx2)
          else (Fail Directive_Error, ctx)
      | _ \<Rightarrow> (Fail Directive_Error, ctx))"

section \<open>The dispatcher\<close>

definition dispatch :: "file_reader \<Rightarrow> parsed_instruction \<Rightarrow> cmd" where
  "dispatch files inst =
     (case inst_type inst of
        Mov_family _ \<Rightarrow> encode_mov inst
      | Stack_family _ \<Rightarrow> encode_push_pop inst
      | Arith_family _ \<Rightarrow> encode_arithmetic inst
      | Unary_family _ \<Rightarrow> encode_unary_arithmetic inst
      | Jcc_family _ \<Rightarrow> encode_jcc inst
      | Callret_family _ \<Rightarrow> encode_call_ret inst
      | Cwd_family _ \<Rightarrow> encode_cwd_cdq_cqo inst
      | Cbw_family _ \<Rightarrow> encode_cbw_cwde_cdqe inst
      | Flag_family k \<Rightarrow>
          if k \<in> {INST_CLC, INST_STC, INST_CMC} then encode_clc_stc_cmc inst
          else if k \<in> {INST_CLD, INST_STD} then encode_cld_std inst
          else encode_cli_sti inst
      | Setcc_family _ \<Rightarrow> encode_setcc inst
      | Cmov_family _ \<Rightarrow> encode_cmov inst
      | Muldiv_family _ \<Rightarrow> encode_div_idiv_mul inst
      | Shift_family _ \<Rightarrow> encode_shift inst
      | Dshift_family _ \<Rightarrow> encode_shld_shrd inst
      | Bit_family _ \<Rightarrow> encode_bit_manip inst
      | Scan_family _ \<Rightarrow> encode_bit_scan inst
      | String_family _ \<Rightarrow> encode_string inst
      | Sse_mov_family _ \<Rightarrow> encode_sse_mov inst
      | Sse_arith_family _ \<Rightarrow> encode_sse_arith inst
      | Packed_family _ \<Rightarrow> encode_sse_packed_arith inst
      | Pcmp_family _ \<Rightarrow> encode_sse_packed_cmp inst
      | Plogic_family _ \<Rightarrow> encode_sse_packed_logic inst
      | Single_family k \<Rightarrow>
          (case k of
             INST_LEA \<Rightarrow> encode_lea inst
           | INST_JMP \<Rightarrow> encode_jmp inst
           | INST_INT \<Rightarrow> encode_int inst
           | INST_SYSCALL \<Rightarrow> encode_syscall inst
           | INST_SYSRET \<Rightarrow> encode_sysret inst
           | INST_NOP \<Rightarrow> encode_nop inst
           | INST_HLT \<Rightarrow> encode_hlt inst
           | INST_LEAVE \<Rightarrow> encode_leave inst
           | INST_ENTER \<Rightarrow> encode_enter inst
           | INST_XCHG \<Rightarrow> encode_xchg inst
           | INST_BSWAP \<Rightarrow> encode_bswap inst
           | INST_IMUL \<Rightarrow> encode_imul inst
           | INST_TEST \<Rightarrow> encode_test inst)
      | Data_family k \<Rightarrow> encode_data k (inst_operands inst)
      | Reserve_family k \<Rightarrow> encode_reserve k (inst_operands inst)
      | Directive_family k \<Rightarrow>
          (case k of
             INST_EQU \<Rightarrow> (\<lambda>ctx. (Done, ctx))
           | INST_TIMES \<Rightarrow> (\<lambda>ctx. (Done, ctx))
           | INST_SECTION \<Rightarrow> (\<lambda>ctx. (Done, apply_section_directive inst ctx))
           | INST_ALIGN \<Rightarrow> encode_align (inst_operands inst)
           | INST_INCBIN \<Rightarrow> encode_incbin files (inst_operands inst))
      | Common_family k \<Rightarrow> encode_common k (inst_operands inst)
      | Symdir_family _ \<Rightarrow> (\<lambda>ctx. (Done, ctx))
      | INST_UNKNOWN \<Rightarrow> fail Internal_Error)"

definition encode_instruction :: "file_reader \<Rightarrow> parsed_instruction \<Rightarrow> cmd" where
  "encode_instruction files inst =
     (case scan_segment_override MEM_SEG_DEFAULT (inst_operands inst) of
        None \<Rightarrow> fail Operand_Error
      | Some seg \<Rightarrow> run_seq [emit_segment_prefix seg, dispatch files inst])"

section \<open>Machine instructions satisfy the encoder interface\<close>

definition is_machine_type :: "instruction_type \<Rightarrow> bool" where
  "is_machine_type ty =
     (case ty of Data_family _ \<Rightarrow> False | Reserve_family _ \<Rightarrow> False | Directive_family _ \<Rightarrow> False
      | Common_family _ \<Rightarrow> False | Symdir_family _ \<Rightarrow> False | _ \<Rightarrow> True)"

lemma enc_segment_prefix [enc_intro]: "encoder_cmd (emit_segment_prefix seg)"
  by (cases seg) (auto intro: enc_intro simp del: run_seq.simps)

lemma enc_dispatch:
  assumes "is_machine_type (inst_type inst)"
  shows "encoder_cmd (dispatch files inst)"
  using assms unfolding dispatch_def is_machine_type_def
  by (simp split: instruction_type.splits single_kind.splits
      add: mov_enc.encode_cmd push_pop_enc.encode_cmd arith_enc.encode_cmd unary_enc.encode_cmd
        lea_enc.encode_cmd string_enc.encode_cmd jcc_enc.encode_cmd jmp_enc.encode_cmd
        call_ret_enc.encode_cmd cwd_enc.encode_cmd cbw_enc.encode_cmd flagc_enc.encode_cmd
        flagd_enc.encode_cmd flagi_enc.encode_cmd setcc_enc.encode_cmd cmov_enc.encode_cmd
        muldiv_enc.encode_cmd shift_enc.encode_cmd shld_shrd_enc.encode_cmd
        bit_manip_enc.encode_cmd bit_scan_enc.encode_cmd sse_mov_enc.encode_cmd
        sse_arith_enc.encode_cmd packed_arith_enc.encode_cmd packed_cmp_enc.encode_cmd
        packed_logic_enc.encode_cmd int_enc.encode_cmd syscall_enc.encode_cmd
        sysret_enc.encode_cmd nop_enc.encode_cmd hlt_enc.encode_cmd leave_enc.encode_cmd
        enter_enc.encode_cmd xchg_enc.encode_cmd bswap_enc.encode_cmd imul_enc.encode_cmd
        test_enc.encode_cmd enc_fail)

lemma enc_encode_instruction:
  "is_machine_type (inst_type inst) \<Longrightarrow> encoder_cmd (encode_instruction files inst)"
  unfolding encode_instruction_def by (intro enc_intro enc_dispatch)

section \<open>What any instruction or directive may write\<close>

text \<open>
  \<open>writes s t\<close>: bytes were appended to the two section buffers and nothing already there
  changed, the address moved by their number, no buffer passed its capacity and fixups were
  only added. Unlike \<open>grows\<close> it allows a change of section and new symbols.
\<close>

definition writes :: "asm_ctx \<Rightarrow> asm_ctx \<Rightarrow> bool" where
  "writes s t \<longleftrightarrow>
     (\<exists>ts ds. text_section t = text_section s @ ts \<and> data_section t = data_section s @ ds \<and>
        current_address t = current_address s + of_nat (length ts + length ds)) \<and>
     text_capacity t = text_capacity s \<and> data_capacity t = data_capacity s \<and>
     base_address t = base_address s \<and> within_capacity s t \<and> fixups_extended s t"

lemma writes_refl [simp]: "writes s s"
  by (simp add: writes_def within_capacity_def fixups_extended_def)

lemma writes_trans: "writes s t \<Longrightarrow> writes t u \<Longrightarrow> writes s u"
  unfolding writes_def within_capacity_def fixups_extended_def
  by (auto simp: max_def split: if_splits)

lemma grows_writes: "grows s t \<Longrightarrow> writes s t"
proof -
  assume g: "grows s t"
  then obtain bs where "current_address t = current_address s + of_nat (length bs)"
    "if current_section s = 1 then text_section t = text_section s \<and> data_section t = data_section s @ bs
     else text_section t = text_section s @ bs \<and> data_section t = data_section s"
    by (auto simp: grows_def appended_def)
  then have "\<exists>ts ds. text_section t = text_section s @ ts \<and> data_section t = data_section s @ ds \<and>
        current_address t = current_address s + of_nat (length ts + length ds)"
    by (cases "current_section s = 1") (auto intro: exI [of _ "[]"] exI [of _ bs])
  with g show ?thesis by (simp add: writes_def grows_def same_config_def)
qed

locale section_writer =
  fixes encode :: "parsed_instruction \<Rightarrow> cmd"
  assumes encode_writes: "writes s (snd (encode inst s))"
begin

lemma encode_all_writes: "writes s (snd (run_seq (map encode insts) s))"
proof (induction insts arbitrary: s)
  case (Cons i "is")
  obtain r s1 where s1: "encode i s = (r, s1)" by fastforce
  show ?case
    using encode_writes [of s i] Cons.IH [of s1] s1
    by (auto split: status.splits intro: writes_trans)
qed simp

text \<open>No instruction of a sequence overruns a buffer, whatever the instructions are.\<close>

lemma encode_all_capacity:
  assumes "length (text_section s) \<le> text_capacity s" "length (data_section s) \<le> data_capacity s"
    and "run_seq (map encode insts) s = (r, t)"
  shows "length (text_section t) \<le> text_capacity t \<and> length (data_section t) \<le> data_capacity t"
  using encode_all_writes [of s insts] assms by (auto simp: writes_def within_capacity_def)

text \<open>The address counts the emitted bytes, over both sections.\<close>

lemma encode_all_address:
  assumes "run_seq (map encode insts) s = (r, t)"
  shows "current_address t = current_address s +
    of_nat (length (text_section t) + length (data_section t)) -
    of_nat (length (text_section s) + length (data_section s))"
  using encode_all_writes [of s insts] assms by (auto simp: writes_def)

end

sublocale instruction_encoder \<subseteq> section_writer encode
proof
  fix s inst
  show "writes s (snd (encode inst s))"
    by (intro grows_writes encode_grows [of inst s "fst (encode inst s)"]) simp
qed

lemma writes_emit_ignoring: "writes s (emit_ignoring bs s)"
  unfolding emit_ignoring_def
proof (induction bs arbitrary: s)
  case (Cons b bs)
  have "writes s (snd (emit_byte b s))"
    using emitter_emit_byte [of b] by (simp add: emitter_def grows_writes)
  with Cons [of "snd (emit_byte b s)"] show ?case by (auto intro: writes_trans)
qed simp

lemma add_symbol_frame:
  assumes "add_symbol n a g x sec s = (r, t)"
  shows "t = s\<lparr>symbols := symbols t, symbol_hash_table := symbol_hash_table t\<rparr>"
  using assms
  by (auto simp: add_symbol_def symbol_hash_insert_def update_entry_def Let_def
      split: option.splits if_splits)

lemma writes_add_symbol: "writes s (snd (add_symbol n a g x sec s))"
proof -
  obtain r t where t: "add_symbol n a g x sec s = (r, t)" by fastforce
  show ?thesis
    unfolding t snd_conv by (subst add_symbol_frame [OF t])
      (simp add: writes_def within_capacity_def fixups_extended_def)
qed

lemma writes_directives:
  "writes s (snd (encode_data k ops s))" "writes s (snd (encode_reserve rk ops s))"
  "writes s (snd (encode_align ops s))" "writes s (snd (encode_incbin files ops s))"
  by (auto simp: encode_data_def encode_reserve_def encode_align_def encode_incbin_def Let_def
      writes_emit_ignoring split: list.splits file_outcome.splits)

lemma writes_common: "writes s (snd (encode_common ck ops s))"
  unfolding encode_common_def Let_def
  by (auto split: list.splits
      intro: writes_trans [OF writes_add_symbol writes_emit_ignoring]
        writes_trans [OF writes_emit_ignoring writes_trans [OF writes_add_symbol writes_emit_ignoring]])

lemma writes_section: "writes s (apply_section_directive inst s)"
  by (auto simp: apply_section_directive_def writes_def within_capacity_def fixups_extended_def
      split: option.splits)

lemma writes_dispatch: "writes s (snd (dispatch files inst s))"
proof (cases "is_machine_type (inst_type inst)")
  case True
  then show ?thesis
    using enc_dispatch [OF True, of files] by (simp add: encoder_cmd_def emitter_def grows_writes)
next
  case False
  then show ?thesis
    by (auto simp: dispatch_def is_machine_type_def writes_directives writes_common writes_section
        split: instruction_type.splits directive_kind.splits)
qed

interpretation dispatcher: section_writer "encode_instruction files" for files
proof
  fix s inst
  show "writes s (snd (encode_instruction files inst s))"
  proof (cases "scan_segment_override MEM_SEG_DEFAULT (inst_operands inst)")
    case None
    then show ?thesis by (simp add: encode_instruction_def fail_def)
  next
    case (Some seg)
    obtain r s1 where s1: "emit_segment_prefix seg s = (r, s1)" by fastforce
    have "writes s s1"
      using enc_segment_prefix [of seg] s1
      by (auto simp: encoder_cmd_def dest!: emitterD intro: grows_writes)
    with Some s1 writes_dispatch [of s1 files inst] show ?thesis
      by (auto simp: encode_instruction_def split: status.splits prod.splits intro: writes_trans)
  qed
qed

section \<open>The text invariant through every instruction\<close>

lemma text_extends_emit_byte:
  "text_wf s \<Longrightarrow> text_extends s (snd (emit_byte b s))"
proof (cases "fst (emit_byte b s) = Done")
  case True
  assume "text_wf s"
  from safe_extends [OF safe_emit_byte this, of b "snd (emit_byte b s)"] True show ?thesis
    by (metis prod.collapse)
next
  case False
  then have "snd (emit_byte b s) = s" by (auto simp: emit_byte_def split: if_splits)
  moreover assume "text_wf s"
  ultimately show ?thesis by (simp add: text_extends_refl)
qed

lemma text_extends_wf: "text_extends s t \<Longrightarrow> text_wf t"
  by (simp add: text_extends_def)

lemma text_extends_emit_ignoring: "text_wf s \<Longrightarrow> text_extends s (emit_ignoring bs s)"
  unfolding emit_ignoring_def
proof (induction bs arbitrary: s)
  case (Cons b bs)
  note ext = text_extends_emit_byte [OF Cons.prems, of b]
  from text_extends_trans [OF ext Cons.IH [OF text_extends_wf [OF ext]]] show ?case by simp
qed (simp add: text_extends_refl)

text \<open>A change of the symbols or of the section keeps the text.\<close>

lemma text_wf_symbols [simp]:
  "text_wf (s\<lparr>symbols := y, symbol_hash_table := h\<rparr>) = text_wf s"
  by (simp add: text_wf_def anchored_def fixup_in_text_def fixup_offset_def)

lemma text_extends_same_text:
  assumes "text_wf s" "current_section t \<noteq> 1" "text_section t = text_section s" "base_address t = base_address s"
    "current_address t = current_address s" "text_capacity t = text_capacity s"
    "fixup_count t = fixup_count s" "fixups t = fixups s"
  shows "text_extends s t"
  using assms
  by (simp add: text_extends_def text_wf_def anchored_def fixup_in_text_def fixup_offset_def)

lemma text_extends_add_symbol: "text_wf s \<Longrightarrow> text_extends s (snd (add_symbol n a g x sec s))"
proof -
  assume wf: "text_wf s"
  obtain r t where t: "add_symbol n a g x sec s = (r, t)" by fastforce
  from add_symbol_frame [OF t] obtain y h where "t = s\<lparr>symbols := y, symbol_hash_table := h\<rparr>" by blast
  with wf t show ?thesis by (intro text_extends_same_text) (simp_all add: text_wf_def)
qed

lemma text_extends_section:
  assumes "text_wf s" "current_section (apply_section_directive inst s) \<noteq> 1"
  shows "text_extends s (apply_section_directive inst s)"
  by (rule text_extends_same_text [OF assms])
    (auto simp: apply_section_directive_def split: option.splits)

lemma text_extends_directives:
  assumes "text_wf s"
  shows "text_extends s (snd (encode_data k ops s))" "text_extends s (snd (encode_reserve rk ops s))"
    "text_extends s (snd (encode_align ops s))" "text_extends s (snd (encode_incbin files ops s))"
  using assms
  by (auto simp: encode_data_def encode_reserve_def encode_align_def encode_incbin_def Let_def
      text_extends_emit_ignoring text_extends_refl split: list.splits file_outcome.splits)

lemma text_extends_common:
  assumes "text_wf s"
  shows "text_extends s (snd (encode_common ck ops s))"
proof -
  have "text_extends s (emit_ignoring bs (snd (add_symbol n a g x sec s1)))" if "text_extends s s1"
    for bs n a g x sec s1
    using that
    by (meson text_extends_add_symbol text_extends_emit_ignoring text_extends_trans text_extends_wf)
  then show ?thesis
    using assms
    by (auto simp: encode_common_def Let_def text_extends_refl text_extends_emit_ignoring
        split: list.splits)
qed

lemma text_extends_dispatch:
  assumes wf: "text_wf s" and run: "dispatch files inst s = (Done, t)"
    and sec: "current_section t \<noteq> 1"
  shows "text_extends s t"
proof (cases "is_machine_type (inst_type inst)")
  case True
  then show ?thesis
    using enc_dispatch [OF True, of files] wf run by (auto simp: encoder_cmd_def dest: safe_extends)
next
  case False
  with run have "t = snd (dispatch files inst s)" by simp
  with False wf sec show ?thesis
    by (auto simp: dispatch_def is_machine_type_def text_extends_directives text_extends_common
        text_extends_section text_extends_refl
        split: instruction_type.splits directive_kind.splits)
qed

lemma encode_instruction_extends:
  assumes wf: "text_wf s" and run: "encode_instruction files inst s = (Done, t)"
    and sec: "current_section t \<noteq> 1"
  shows "text_extends s t"
proof -
  from run obtain seg s1 where "emit_segment_prefix seg s = (Done, s1)"
    and t: "dispatch files inst s1 = (Done, t)"
    by (auto simp: encode_instruction_def fail_def split: option.splits status.splits prod.splits)
  then have ext: "text_extends s s1"
    using enc_segment_prefix [of seg] wf by (auto simp: encoder_cmd_def dest: safe_extends)
  from text_extends_trans [OF ext text_extends_dispatch [OF text_extends_wf [OF ext] t sec]]
  show ?thesis .
qed

lemma encode_instruction_text_wf:
  "text_wf s \<Longrightarrow> encode_instruction files inst s = (Done, t) \<Longrightarrow> current_section t \<noteq> 1 \<Longrightarrow> text_wf t"
  by (rule text_extends_wf [OF encode_instruction_extends])

section \<open>Alignment\<close>

text \<open>\<open>round_up\<close> with a power of two reaches the next multiple, the padding is less than the
  alignment, and the directive emits exactly that many NOPs.\<close>

lemma emit_ignoring_room:
  "room (length bs) s \<Longrightarrow> emit_ignoring bs s = put_text bs s"
  unfolding emit_ignoring_def
  by (induction bs arbitrary: s) (auto simp: emit_byte_def put_byte_def room_def)

lemma and_not_mask: "x AND NOT (mask k) = push_bit k (drop_bit k x)" for x :: u64
  by (rule bit_word_eqI) (auto simp: bit_simps)

lemma take_bit_unat: "unat (take_bit k x) = unat x mod 2 ^ k" for x :: u64
  by (metis take_bit_eq_mod unsigned_take_bit_eq)

lemma unat_mask_less:
  assumes "k < 64"
  shows "unat (mask k :: u64) = 2 ^ k - 1"
proof -
  have "(2 :: nat) ^ k < 2 ^ 64" using assms by (intro power_strict_increasing) simp_all
  then have "mask k < (2 :: nat) ^ 64" by (simp add: mask_eq_exp_minus_1)
  then have "unat (of_nat (mask k) :: u64) = mask k" by (simp add: unat_of_nat)
  then show ?thesis by (simp add: of_nat_mask_eq mask_eq_exp_minus_1)
qed

lemma sint_ucast_small:
  fixes w :: u64
  assumes "uint w < 2 ^ 31"
  shows "sint (ucast w :: u32) = uint w"
proof -
  have "- (2 ^ 31) \<le> uint w" by (rule order_trans [of _ 0]) simp_all
  with assms show ?thesis by (simp only: signed_ucast_eq) (simp add: signed_take_bit_int_eq_self)
qed

lemma round_up_distance:
  assumes "k < 64"
  shows "unat (round_up a (2 ^ k) - a) = 2 ^ k - 1 - unat (a + 2 ^ k - 1) mod 2 ^ k"
proof -
  define x where "x = a + 2 ^ k - 1"
  have mask: "(2 :: u64) ^ k - 1 = mask k" by (simp add: mask_eq_exp_minus_1)
  have "round_up a (2 ^ k) = x AND NOT (mask k)"
    by (simp add: round_up_def x_def mask)
  also have "\<dots> = x - take_bit k x"
    using bits_ident [of k x] by (simp add: and_not_mask eq_diff_eq)
  finally have eq: "round_up a (2 ^ k) - a = mask k - take_bit k x"
    by (simp add: x_def flip: mask)
  have "take_bit k x \<le> mask k"
    using mod_less_divisor [of "2 ^ k" "unat x"]
    by (simp add: word_le_nat_alt take_bit_unat unat_mask_less assms del: mod_less_divisor)
  then show ?thesis
    using assms by (simp add: eq unat_sub take_bit_unat unat_mask_less flip: x_def)
qed

lemma round_up_aligned:
  assumes "k < 64"
  shows "2 ^ k dvd unat (round_up a (2 ^ k))"
proof -
  have mask: "(2 :: u64) ^ k - 1 = mask k" by (simp add: mask_eq_exp_minus_1)
  have "take_bit k (round_up a (2 ^ k)) = 0"
    unfolding round_up_def mask and_not_mask by (intro bit_word_eqI) (simp add: bit_simps)
  then have "unat (round_up a (2 ^ k)) mod 2 ^ k = 0"
    by (simp flip: take_bit_unat)
  then show ?thesis by (simp add: mod_eq_0_iff_dvd)
qed


lemma padding_round_up:
  assumes "k < 31"
  shows "padding_of a (round_up a (2 ^ k)) = unat (round_up a (2 ^ k) - a)"
    "unat (round_up a (2 ^ k) - a) < 2 ^ k"
proof -
  show less: "unat (round_up a (2 ^ k) - a) < 2 ^ k"
    using assms by (simp add: round_up_distance less_imp_diff_less)
  have "(2 :: nat) ^ k \<le> 2 ^ 30"
    using assms by (intro power_increasing) auto
  with less have lt: "unat (round_up a (2 ^ k) - a) < 2 ^ 30" by linarith
  let ?d = "round_up a (2 ^ k) - a"
  have "uint ?d = int (unat ?d)" by (rule uint_nat)
  moreover have "unat ?d < 2147483648" using lt by simp
  ultimately have "uint ?d < 2147483648" by linarith
  then have "uint ?d < 2 ^ 31" by simp
  then show "padding_of a (round_up a (2 ^ k)) = unat ?d"
    by (simp add: padding_of_def sint_ucast_small)
qed

lemma power_of_two_accepted:
  assumes "k < 31"
  shows "sint (2 ^ k :: u32) > 0" "(2 ^ k :: u32) AND (2 ^ k - 1) = 0" "ucast (2 ^ k :: u32) = (2 ^ k :: u64)"
    "ucast (2 ^ k :: u64) = (2 ^ k :: u32)"
proof -
  show "ucast (2 ^ k :: u32) = (2 ^ k :: u64)" "ucast (2 ^ k :: u64) = (2 ^ k :: u32)"
    using assms by (auto intro!: bit_word_eqI simp: bit_simps)
  have "(2 ^ k :: u32) AND mask k = 0"
    using assms by (auto intro!: bit_word_eqI simp: bit_simps)
  then show "(2 ^ k :: u32) AND (2 ^ k - 1) = 0" by (simp add: mask_eq_exp_minus_1)
  have lt: "(2 :: int) ^ k < 2 ^ 31" using assms by (intro power_strict_increasing) simp_all
  have "uint (word_of_int (2 ^ k) :: u32) = 2 ^ k"
    using lt by (simp only: uint_word_of_int) (simp add: mod_pos_pos_trivial)
  then have "uint (2 ^ k :: u32) = 2 ^ k" by simp
  with lt show "sint (2 ^ k :: u32) > 0"
    by (simp add: sint_uint signed_take_bit_int_eq_self order_trans [of _ 0])
qed

lemma encode_align_text:
  assumes "op_type op = OPERAND_IMM" "op_immediate op = 2 ^ k" "k < 31"
    and "room (2 ^ k) s" "current_section s = 0"
  shows "\<exists>n < 2 ^ k. encode_align (op # ops) s = (Done, put_text (replicate n 0x90) s) \<and>
    2 ^ k dvd unat (current_address (put_text (replicate n 0x90) s))"
proof -
  let ?d = "round_up (current_address s) (2 ^ k) - current_address s"
  have d: "unat ?d < 2 ^ k" using padding_round_up(2) [OF assms(3)] .
  then have "room (length (replicate (unat ?d) (0x90 :: u8))) s"
    using assms(4) by (simp add: room_def)
  from emit_ignoring_room [OF this]
  have run: "encode_align (op # ops) s = (Done, put_text (replicate (unat ?d) 0x90) s)"
    using assms by (simp add: encode_align_def Let_def power_of_two_accepted padding_round_up(1))
  have "current_address (put_text (replicate (unat ?d) 0x90) s) = round_up (current_address s) (2 ^ k)"
    by simp
  with run d round_up_aligned [of k "current_address s"] assms(3) show ?thesis
    by (intro exI [of _ "unat ?d"]) (simp del: put_text_address)
qed

end
