(* ===== verification/Fixups.thy ===== *)
theory Fixups
  imports Dispatch
begin

text \<open>
  Fixup resolution (\<open>resolve_fixups\<close> of src/x86_64_asm.c): every recorded reference is looked up,
  its relative or absolute value is added to the addend already in the text, checked against
  the field width and written over the field. \<open>patched\<close> is the specification: which bytes the
  resolution determines, and that it leaves all others alone.
\<close>

section \<open>Resolution\<close>

text \<open>Instruction types whose operand is a displacement from the end of the field.\<close>

definition is_branch_type :: "instruction_type \<Rightarrow> bool" where
  "is_branch_type ty =
     (case ty of Single_family k \<Rightarrow> k = INST_JMP | Callret_family k \<Rightarrow> k = INST_CALL
      | Jcc_family _ \<Rightarrow> True | _ \<Rightarrow> False)"

definition fixup_value :: "fixup \<Rightarrow> u64 \<Rightarrow> u64" where
  "fixup_value f target =
     (if fx_is_rip_relative f \<or> is_branch_type (fx_instruction_type f)
      then target - (fx_location f + word_of_int (fx_size f)) else target)"

definition text_addend32 :: "u8 list \<Rightarrow> nat \<Rightarrow> u64" where
  "text_addend32 text off =
     scast (of_le32 (text ! off) (text ! (off + 1)) (text ! (off + 2)) (text ! (off + 3)))"

text \<open>The read, the range check and the write for a field of 1, 4 or 8 bytes; a field of any
  other size is left alone. An access past the text is a fault.\<close>

definition patch_field :: "int \<Rightarrow> nat \<Rightarrow> u64 \<Rightarrow> cmd" where
  "patch_field sz off val ctx =
     (let text = text_section ctx in
      if sz \<in> {1, 4, 8} \<and> length text < off + nat sz then (Fail Memory_Fault, ctx)
      else if sz = 1 then
        let v = val + scast (text ! off) in
        if sint v < -128 \<or> sint v > 127 then (Fail Fixup_Error, ctx)
        else (Done, ctx\<lparr>text_section := patch off [ucast v] text\<rparr>)
      else if sz = 4 then
        let v = val + text_addend32 text off in
        if sint v < -2147483648 \<or> sint v > 2147483647 then (Fail Fixup_Error, ctx)
        else (Done, ctx\<lparr>text_section := patch off (le32 (ucast v)) text\<rparr>)
      else if sz = 8 then
        (Done, ctx\<lparr>text_section :=
           patch off (le64 (val + of_le64 (take 8 (drop off text)))) text\<rparr>)
      else (Done, ctx))"

definition resolve_one :: "fixup \<Rightarrow> cmd" where
  "resolve_one f ctx =
     (case find_symbol_address (fx_label f) ctx of
        None \<Rightarrow> (Fail Symbol_Error, ctx)
      | Some target \<Rightarrow>
          let offset = fx_location f - base_address ctx;
              size_u = word_of_int (fx_size f)
          in if offset + size_u > of_nat (length (text_section ctx)) then (Fail Fixup_Error, ctx)
             else patch_field (fx_size f) (unat offset) (fixup_value f target) ctx)"

definition resolve_fixups :: cmd where
  "resolve_fixups ctx =
     run_seq (map (\<lambda>i. resolve_one (fixups ctx i)) [0..<fixup_count ctx]) ctx"

section \<open>A fixup inside the text\<close>

text \<open>The value the field receives: the reference's value plus the addend in the text.\<close>

definition field_value :: "asm_ctx \<Rightarrow> fixup \<Rightarrow> u64 \<Rightarrow> u64" where
  "field_value s f target = fixup_value f target + text_addend32 (text_section s) (fixup_offset s f)"

definition fits_int32 :: "u64 \<Rightarrow> bool" where
  "fits_int32 v \<longleftrightarrow> -2147483648 \<le> sint v \<and> sint v \<le> 2147483647"

lemma resolve_one_in_text:
  assumes "fixup_in_text s f" "length (text_section s) \<le> MAX_OUTPUT_SIZE"
  shows "resolve_one f s =
    (case find_symbol_address (fx_label f) s of
       None \<Rightarrow> (Fail Symbol_Error, s)
     | Some target \<Rightarrow>
         if fits_int32 (field_value s f target)
         then (Done, s\<lparr>text_section :=
                 patch (fixup_offset s f) (le32 (ucast (field_value s f target))) (text_section s)\<rparr>)
         else (Fail Fixup_Error, s))"
proof (cases "find_symbol_address (fx_label f) s")
  case None
  then show ?thesis by (simp add: resolve_one_def)
next
  case (Some target)
  let ?off = "fx_location f - base_address s"
  have sz: "fx_size f = 4" and in_text: "unat ?off + 4 \<le> length (text_section s)"
    using assms(1) by (simp_all add: fixup_in_text_def fixup_offset_def)
  have "unat (?off + 4) = unat ?off + 4"
    using in_text assms(2) by (subst unat_add_lem [THEN iffD1]) simp_all
  moreover have "unat (of_nat (length (text_section s)) :: u64) = length (text_section s)"
    using assms(2) by (simp add: unat_of_nat)
  ultimately have "\<not> ?off + 4 > of_nat (length (text_section s))"
    using in_text by (simp add: word_less_nat_alt)
  with Some sz in_text show ?thesis
    by (auto simp: resolve_one_def patch_field_def Let_def fits_int32_def field_value_def
        fixup_offset_def)
qed

section \<open>The whole table\<close>

text \<open>
  \<open>patched s n text\<close>: \<open>text\<close> is the text of \<open>s\<close> with the fields of the first \<open>n\<close> fixups holding
  their values, computed from the text of \<open>s\<close>, and with every other byte as it was.
\<close>

definition field_ok :: "asm_ctx \<Rightarrow> fixup \<Rightarrow> u8 list \<Rightarrow> bool" where
  "field_ok s f text \<longleftrightarrow>
     (case find_symbol_address (fx_label f) s of
        None \<Rightarrow> False
      | Some target \<Rightarrow> fits_int32 (field_value s f target) \<and>
          take 4 (drop (fixup_offset s f) text) = le32 (ucast (field_value s f target)))"

definition in_field :: "asm_ctx \<Rightarrow> nat \<Rightarrow> nat \<Rightarrow> bool" where
  "in_field s n k \<longleftrightarrow>
     (\<exists>i < n. fixup_offset s (fixups s i) \<le> k \<and> k < fixup_offset s (fixups s i) + 4)"

definition patched :: "asm_ctx \<Rightarrow> nat \<Rightarrow> u8 list \<Rightarrow> bool" where
  "patched s n text \<longleftrightarrow>
     length text = length (text_section s) \<and>
     (\<forall>i < n. field_ok s (fixups s i) text) \<and>
     (\<forall>k < length (text_section s). \<not> in_field s n k \<longrightarrow> text ! k = text_section s ! k)"

lemma field_ok_other_text:
  assumes "field_ok s f xs" "\<And>k. off \<le> k \<Longrightarrow> k < off + 4 \<Longrightarrow> ys ! k = xs ! k"
    and "off = fixup_offset s f" "off + 4 \<le> length xs" "length ys = length xs"
  shows "field_ok s f ys"
proof -
  have "take 4 (drop off ys) = take 4 (drop off xs)"
    using assms(2,4,5) by (intro nth_equalityI) auto
  with assms(1,3) show ?thesis by (simp add: field_ok_def split: option.splits)
qed

lemma find_symbol_text [simp]:
  "find_symbol_address n (s\<lparr>text_section := x\<rparr>) = find_symbol_address n s"
  by (simp add: find_symbol_address_def symbol_hash_lookup_def)

lemma fixup_offset_text [simp]: "fixup_offset (s\<lparr>text_section := x\<rparr>) f = fixup_offset s f"
  by (simp add: fixup_offset_def)

lemma addend_same:
  assumes "\<And>k. off \<le> k \<Longrightarrow> k < off + 4 \<Longrightarrow> text' ! k = text ! k"
  shows "text_addend32 text' off = text_addend32 text off"
  using assms by (simp add: text_addend32_def)

lemma field_value_text:
  assumes "\<And>k. fixup_offset s f \<le> k \<Longrightarrow> k < fixup_offset s f + 4 \<Longrightarrow> text ! k = text_section s ! k"
  shows "field_value (s\<lparr>text_section := text\<rparr>) f a = field_value s f a"
  using addend_same [OF assms] by (simp add: field_value_def)

lemma patched_extend:
  assumes p: "patched s n xs"
    and off: "off = fixup_offset s (fixups s n)" "off + 4 \<le> length (text_section s)"
    and before: "\<And>i. i < n \<Longrightarrow> fixup_offset s (fixups s i) + 4 \<le> off"
    and target: "find_symbol_address (fx_label (fixups s n)) s = Some target"
      "fits_int32 (field_value s (fixups s n) target)"
  shows "patched s (Suc n) (patch off (le32 (ucast (field_value s (fixups s n) target))) xs)"
proof -
  let ?new = "patch off (le32 (ucast (field_value s (fixups s n) target))) xs"
  have len: "length xs = length (text_section s)" using p by (simp add: patched_def)
  have outside: "?new ! k = xs ! k"
    if "k < length (text_section s)" "k < off \<or> off + 4 \<le> k" for k
    using that off(2) len by (auto simp: nth_patch)
  have "take 4 (drop off ?new) = le32 (ucast (field_value s (fixups s n) target))"
    using off(2) len by (simp add: patch_def)
  then have "field_ok s (fixups s n) ?new" using target off(1) by (simp add: field_ok_def)
  moreover have "field_ok s (fixups s i) ?new" if i: "i < n" for i
  proof (rule field_ok_other_text [where xs = xs, OF _ _ refl])
    show "field_ok s (fixups s i) xs" using p i by (simp add: patched_def)
    show "length ?new = length xs" using off(2) len by simp
    show "fixup_offset s (fixups s i) + 4 \<le> length xs" using before [OF i] off(2) len by linarith
    show "?new ! k = xs ! k"
      if "fixup_offset s (fixups s i) \<le> k" "k < fixup_offset s (fixups s i) + 4" for k
    proof -
      have "k < off" using that before [OF i] by linarith
      then show ?thesis using off(2) by (intro outside) simp_all
    qed
  qed
  moreover have "?new ! k = text_section s ! k"
    if k: "k < length (text_section s)" "\<not> in_field s (Suc n) k" for k
  proof -
    have "\<not> in_field s n k" using k(2) by (auto simp: in_field_def less_Suc_eq)
    moreover have "k < off \<or> off + 4 \<le> k"
      using k(2) off(1) unfolding in_field_def by (metis lessI not_less)
    ultimately show ?thesis using k(1) p outside [of k] by (simp add: patched_def)
  qed
  ultimately show ?thesis using off(2) len by (simp add: patched_def less_Suc_eq all_conj_distrib)
qed

text \<open>One step of the loop over a partly patched text.\<close>

lemma resolve_one_patched:
  assumes wf: "text_wf s" and p: "patched s n text" and n: "n < fixup_count s"
  shows "resolve_one (fixups s n) (s\<lparr>text_section := text\<rparr>) =
    (case find_symbol_address (fx_label (fixups s n)) s of
       None \<Rightarrow> (Fail Symbol_Error, s\<lparr>text_section := text\<rparr>)
     | Some target \<Rightarrow>
         if fits_int32 (field_value s (fixups s n) target)
         then (Done, s\<lparr>text_section := patch (fixup_offset s (fixups s n))
                (le32 (ucast (field_value s (fixups s n) target))) text\<rparr>)
         else (Fail Fixup_Error, s\<lparr>text_section := text\<rparr>))"
proof -
  have len: "length text = length (text_section s)" using p by (simp add: patched_def)
  have in_text: "fixup_in_text s (fixups s n)"
    and before: "\<And>i. i < n \<Longrightarrow> fixup_offset s (fixups s i) + 4 \<le> fixup_offset s (fixups s n)"
    and small: "length (text_section s) \<le> MAX_OUTPUT_SIZE"
    using wf n by (auto simp: text_wf_def)
  have "field_value (s\<lparr>text_section := text\<rparr>) (fixups s n) a = field_value s (fixups s n) a" for a
  proof (rule field_value_text)
    fix k assume k: "fixup_offset s (fixups s n) \<le> k" "k < fixup_offset s (fixups s n) + 4"
    have "\<not> in_field s n k" using before k(1) by (fastforce simp: in_field_def)
    moreover have "k < length (text_section s)"
      using k(2) in_text by (simp add: fixup_in_text_def)
    ultimately show "text ! k = text_section s ! k" using p by (simp add: patched_def)
  qed
  then show ?thesis
    using resolve_one_in_text [of "s\<lparr>text_section := text\<rparr>" "fixups s n"] in_text small len
    by (simp add: fixup_in_text_def cong: option.case_cong if_cong)
qed

lemma resolve_loop:
  assumes wf: "text_wf s" and "n \<le> fixup_count s"
    and run: "run_seq (map (\<lambda>i. resolve_one (fixups s i)) [0..<n]) s = (r, t)"
  shows "(r = Done \<and> (\<exists>text. t = s\<lparr>text_section := text\<rparr> \<and> patched s n text)) \<or>
    (r = Fail Symbol_Error \<and> (\<exists>i < n. find_symbol_address (fx_label (fixups s i)) s = None)) \<or>
    (r = Fail Fixup_Error \<and> (\<exists>i < n. \<exists>target.
        find_symbol_address (fx_label (fixups s i)) s = Some target \<and>
        \<not> fits_int32 (field_value s (fixups s i) target)))"
  using assms(2,3)
proof (induction n arbitrary: r t)
  case 0
  then show ?case
    by (intro disjI1 conjI exI [of _ "text_section s"]) (simp_all add: patched_def)
next
  case (Suc n)
  obtain r1 t1 where one: "run_seq (map (\<lambda>i. resolve_one (fixups s i)) [0..<n]) s = (r1, t1)"
    by fastforce
  with Suc.prems have rest: "(case r1 of Done \<Rightarrow> run_seq [resolve_one (fixups s n)] t1
      | Fail e \<Rightarrow> (Fail e, t1)) = (r, t)"
    by (auto simp: run_seq_append split: status.splits)
  consider xs where "r1 = Done" "t1 = s\<lparr>text_section := xs\<rparr>" "patched s n xs"
    | "r1 = Fail Symbol_Error" "\<exists>i < n. find_symbol_address (fx_label (fixups s i)) s = None"
    | "r1 = Fail Fixup_Error" "\<exists>i < n. \<exists>target.
        find_symbol_address (fx_label (fixups s i)) s = Some target \<and>
        \<not> fits_int32 (field_value s (fixups s i) target)"
    using Suc.IH [OF _ one] Suc.prems(1) by auto
  then show ?case
  proof cases
    case 1
    have n: "n < fixup_count s" using Suc.prems(1) by simp
    have off: "fixup_offset s (fixups s n) + 4 \<le> length (text_section s)"
      "\<And>i. i < n \<Longrightarrow> fixup_offset s (fixups s i) + 4 \<le> fixup_offset s (fixups s n)"
      using wf n by (auto simp: text_wf_def fixup_in_text_def)
    show ?thesis
      using rest 1(1,2) resolve_one_patched [OF wf 1(3) n] patched_extend [OF 1(3) refl off]
      by (auto split: option.splits if_splits)
  qed (use rest in \<open>auto simp: less_Suc_eq\<close>)
qed


text \<open>The outcome of the loop over the whole table.\<close>

lemma resolve_fixups_outcome:
  assumes "text_wf s" "resolve_fixups s = (r, t)"
  shows "(r = Done \<and> (\<exists>text. t = s\<lparr>text_section := text\<rparr> \<and> patched s (fixup_count s) text)) \<or>
    (r = Fail Symbol_Error \<and>
       (\<exists>i < fixup_count s. find_symbol_address (fx_label (fixups s i)) s = None)) \<or>
    (r = Fail Fixup_Error \<and> (\<exists>i < fixup_count s. \<exists>target.
        find_symbol_address (fx_label (fixups s i)) s = Some target \<and>
        \<not> fits_int32 (field_value s (fixups s i) target)))"
  using resolve_loop [OF assms(1) le_refl] assms(2) by (simp add: resolve_fixups_def)

lemma resolve_loop_total:
  assumes wf: "text_wf s" and "n \<le> fixup_count s"
    and ok: "\<And>i. i < n \<Longrightarrow> \<exists>target. find_symbol_address (fx_label (fixups s i)) s = Some target \<and>
        fits_int32 (field_value s (fixups s i) target)"
  shows "fst (run_seq (map (\<lambda>i. resolve_one (fixups s i)) [0..<n]) s) = Done"
proof (rule ccontr)
  obtain r t where run: "run_seq (map (\<lambda>i. resolve_one (fixups s i)) [0..<n]) s = (r, t)"
    by fastforce
  moreover assume "fst (run_seq (map (\<lambda>i. resolve_one (fixups s i)) [0..<n]) s) \<noteq> Done"
  ultimately show False
    using resolve_loop [OF wf assms(2) run] ok by (metis fst_conv option.inject option.distinct(1))
qed

section \<open>What the fields mean to the processor\<close>

lemma scast_ucast_fits: "fits_int32 v \<Longrightarrow> scast (ucast v :: u32) = v"
  by (rule scast_ucast_id) (simp_all add: fits_int32_def)

lemma le32_bytes: "take 4 (drop off text) = le32 w \<Longrightarrow> off + 4 \<le> length text \<Longrightarrow>
   of_le32 (text ! off) (text ! (off + 1)) (text ! (off + 2)) (text ! (off + 3)) = w"
proof -
  assume a: "take 4 (drop off text) = le32 w" and len: "off + 4 \<le> length text"
  have "le32 w ! i = text ! (off + i)" if "i < 4" for i
    using that len a by (metis nth_drop nth_take add_leD1 le_add_diff_inverse)
  from this [of 0] this [of 1] this [of 2] this [of 3] of_le32_nth_le32 [of w] show ?thesis
    by (simp add: numeral_eq_Suc)
qed

text \<open>A displacement field takes the processor from the end of the field to the target plus
  the addend; an absolute field holds target plus addend.\<close>

lemma field_ok_meaning:
  assumes "field_ok s f text" "fixup_offset s f + 4 \<le> length text"
  shows "\<exists>target. find_symbol_address (fx_label f) s = Some target \<and>
    text_addend32 text (fixup_offset s f) = field_value s f target"
proof -
  from assms(1) obtain target where t: "find_symbol_address (fx_label f) s = Some target"
    "fits_int32 (field_value s f target)"
    "take 4 (drop (fixup_offset s f) text) = le32 (ucast (field_value s f target))"
    by (auto simp: field_ok_def split: option.splits)
  from le32_bytes [OF t(3) assms(2)] t(1,2) show ?thesis
    by (simp add: text_addend32_def scast_ucast_fits)
qed

text \<open>The stale slot fields that \<open>add_controlflow_fixup\<close> leaves do not matter.\<close>

lemma resolve_one_stale:
  "is_branch_type (fx_instruction_type f) \<Longrightarrow>
   resolve_one (f\<lparr>fx_is_rip_relative := b, fx_section := c, fx_operand_index := d\<rparr>) = resolve_one f"
  by (rule ext) (simp add: resolve_one_def fixup_value_def Let_def split: option.split)

end
