(* ===== verification/Branches.thy ===== *)
theory Branches
  imports Roundtrip Fixups
begin

text \<open>
  Branches from the source to the resolved text: the encoder writes an opcode and either a short
  displacement or a fixup with four zero bytes, later instructions extend the text, and the
  resolution of the fixups makes the displacement lead to the label. The disassembler, run on
  the resolved text, prints the label's address.
\<close>

section \<open>Short branches\<close>

definition fits_int8 :: "u64 \<Rightarrow> bool" where
  "fits_int8 v \<longleftrightarrow> -128 \<le> sint v \<and> sint v \<le> 127"

lemma scast_ucast_byte: "fits_int8 v \<Longrightarrow> scast (ucast v :: u8) = v"
  by (rule scast_ucast_id) (simp_all add: fits_int8_def)

lemma short_branch_rel_target:
  assumes "short_branch_rel l s = Some rel"
  shows "find_symbol_address l s = Some (current_address s + 2 + rel)" "fits_int8 rel"
  using assms
  by (auto simp: short_branch_rel_def get_symbol_info_def find_symbol_address_def Let_def fits_int8_def
      split: option.splits if_splits)

lemma short_jmp_run:
  assumes "short_branch_rel l s = Some rel" "room 2 s"
  shows "encode_jmp_label l s = (Done, put_text [0xEB, ucast rel] s)"
    and "encode_jcc_label cc ty l s = (Done, put_text [0x70 + cc, ucast rel] s)"
proof -
  have "emits (run_seq [emit_byte a, emit_byte b]) [a, b]" for a b
    using emits_run_seq2 [OF emits_emit_byte emits_emit_byte, of a b] by simp
  from emitsD [OF this] show "encode_jmp_label l s = (Done, put_text [0xEB, ucast rel] s)"
    "encode_jcc_label cc ty l s = (Done, put_text [0x70 + cc, ucast rel] s)"
    using assms by (simp_all add: encode_jmp_label_def encode_jcc_label_def numeral_2_eq_2 del: run_seq.simps)
qed

text \<open>The decoder on a plain opcode without prefix.\<close>

lemma decode_one_plain:
  assumes "plain_opcode opc"
  shows "decode_one (pre @ opc # rest) base (length pre) =
    finish_step (pre @ opc # rest) (length pre)
      (decode_opcode (form_env (pre @ opc # rest) base (length pre) 0) opc (length pre + 1))"
  using decode_one_opcode [OF assms, of pre False None None None rest base]
  by (simp add: rex_bytes_def rex_value_def rex_r_bit_def rex_x_bit_def rex_b_bit_def)

lemma decode_short_jmp:
  "decode_one (pre @ [0xEB, d] @ post) base (length pre) =
     Decoded \<lparr>dis_bytes = [0xEB, d],
       dis_text = ''jmp '' @ hex_text (unat (base + of_nat (length pre) + 2 + scast d))\<rparr>"
proof -
  have "byte_at (pre @ 0xEB # d # post) (length pre + 1) = Some d"
    using byte_at_shift [of pre "0xEB # d # post" 1] by (simp add: byte_at_def)
  then have "decode_opcode (form_env (pre @ 0xEB # d # post) base (length pre) 0) 0xEB (length pre + 1) =
      Text_To (''jmp '' @ hex_text (unat (base + of_nat (length pre) + 2 + scast d))) (length pre + 2)"
    by (simp add: decode_opcode_def with_byte_def jump_target_def)
  with decode_one_plain [of "0xEB" pre "d # post" base] finish_form [of "[0xEB, d]" pre post] show ?thesis
    by (simp add: plain_opcode_def legacy_prefix_def)
qed

lemma decode_near:
  assumes "opc = 0xE9 \<or> opc = 0xE8"
  shows "decode_one (pre @ (opc # le32 d) @ post) base (length pre) =
     Decoded \<lparr>dis_bytes = opc # le32 d, dis_text = (if opc = 0xE8 then ''call '' else ''jmp '')
       @ hex_text (unat (base + of_nat (length pre) + 5 + scast d))\<rparr>"
proof -
  have "read_le32 (pre @ opc # le32 d @ post) (length pre + 1) = Some d"
    using read_le32_shift [of pre "opc # le32 d @ post" 1] by simp
  then have "decode_opcode (form_env (pre @ opc # le32 d @ post) base (length pre) 0) opc (length pre + 1) =
      Text_To ((if opc = 0xE8 then ''call '' else ''jmp '')
        @ hex_text (unat (base + of_nat (length pre) + 5 + scast d))) (length pre + 5)"
    using assms by (elim disjE) (simp_all add: decode_opcode_def with_imm32_def jump_target_def)
  moreover have "plain_opcode opc" using assms by (auto simp: plain_opcode_def legacy_prefix_def)
  ultimately show ?thesis
    using decode_one_plain [of opc pre "le32 d @ post" base] finish_form [of "opc # le32 d" pre post] by simp
qed

section \<open>Near branches\<close>

text \<open>A branch as it is emitted: the opcode bytes, then the fixup and its four zero bytes.\<close>

definition emits_branch ::
  "cmd \<Rightarrow> u8 list \<Rightarrow> string \<Rightarrow> instruction_type \<Rightarrow> asm_ctx \<Rightarrow> bool" where
  "emits_branch c opc l ty s \<longleftrightarrow> c s = run_seq [emit_bytes opc, branch_disp32 l ty] s"

lemma emit_bytes_done:
  assumes "emit_bytes bs s = (Done, t)" "current_section s \<noteq> 1"
  shows "t = put_text bs s"
  using assms unfolding emit_bytes_def
proof (induction bs arbitrary: s)
  case (Cons b bs)
  then have "emit_byte b s = (Done, put_byte b s)"
    by (auto simp: emit_byte_def put_byte_def split: if_splits)
  with Cons show ?case by simp
qed simp

text \<open>The state right after a near branch.\<close>

lemma near_branch_state:
  assumes br: "emits_branch c opc l ty s" and wf: "text_wf s" and run: "c s = (Done, s1)"
  shows "text_section s1 = text_section s @ opc @ [0, 0, 0, 0]"
    and "fixup_count s1 = Suc (fixup_count s)"
    and "fx_label (fixups s1 (fixup_count s)) = copy_bounded_text MAX_LABEL_LENGTH l"
    and "fx_instruction_type (fixups s1 (fixup_count s)) = ty"
    and "fx_size (fixups s1 (fixup_count s)) = 4"
    and "fx_location (fixups s1 (fixup_count s)) = current_address s + of_nat (length opc)"
    and "base_address s1 = base_address s"
    and "\<And>i. i < fixup_count s \<Longrightarrow> fixups s1 i = fixups s i"
proof -
  have sec: "current_section s \<noteq> 1" using wf by (simp add: text_wf_def)
  from br run obtain s0 where s0: "emit_bytes opc s = (Done, s0)" "branch_disp32 l ty s0 = (Done, s1)"
    by (auto simp: emits_branch_def split: prod.splits status.splits)
  have s0_eq: "s0 = put_text opc s" by (rule emit_bytes_done [OF s0(1) sec])
  from s0(2) obtain s2 where s2: "add_controlflow_fixup l 4 ty s0 = (Done, s2)" "emit_le32 0 s2 = (Done, s1)"
    by (auto simp: branch_disp32_def split: prod.splits status.splits)
  have s2_eq: "s2 = s0\<lparr>fixups := (fixups s0)(fixup_count s0 := (fixups s0 (fixup_count s0))
           \<lparr>fx_label := copy_bounded_text MAX_LABEL_LENGTH l, fx_location := current_address s0,
            fx_size := 4, fx_instruction_type := ty, fx_operand_index := 0\<rparr>),
      fixup_count := Suc (fixup_count s0)\<rparr>"
    using s2(1) by (auto simp: add_controlflow_fixup_def Let_def split: if_splits)
  have "s1 = put_text (le32 0) s2"
    using emit_le32_done [OF s2(2)] sec by (simp add: s2_eq s0_eq)
  moreover have "le32 0 = [0, 0, 0, 0]" by (simp add: le32_def)
  ultimately show "text_section s1 = text_section s @ opc @ [0, 0, 0, 0]"
    "fixup_count s1 = Suc (fixup_count s)"
    "fx_label (fixups s1 (fixup_count s)) = copy_bounded_text MAX_LABEL_LENGTH l"
    "fx_instruction_type (fixups s1 (fixup_count s)) = ty"
    "fx_size (fixups s1 (fixup_count s)) = 4"
    "fx_location (fixups s1 (fixup_count s)) = current_address s + of_nat (length opc)"
    "base_address s1 = base_address s"
    "\<And>i. i < fixup_count s \<Longrightarrow> fixups s1 i = fixups s i"
    by (simp_all add: s2_eq s0_eq)
qed

text \<open>
  The rest of the pass: \<open>s1\<close> is extended to \<open>s2\<close> by more text and fixups (any instructions).
\<close>

definition pass_extends :: "asm_ctx \<Rightarrow> asm_ctx \<Rightarrow> bool" where
  "pass_extends s t \<longleftrightarrow> (\<exists>more. text_section t = text_section s @ more) \<and>
     fixups_extended s t \<and> base_address t = base_address s"

lemma writes_pass_extends: "writes s t \<Longrightarrow> pass_extends s t"
  by (auto simp: writes_def pass_extends_def)

lemma addend_zero: "text_addend32 (pre @ 0 # 0 # 0 # 0 # post) (length pre) = 0"
  by (simp add: text_addend32_def nth_append of_le32_def)

text \<open>The opcode bytes of the branch lie in no field.\<close>

lemma opcode_outside_fields:
  assumes wf: "text_wf s" "text_wf s2" and n: "fixup_count s < fixup_count s2"
    and old: "\<And>i. i < fixup_count s \<Longrightarrow> fixups s2 i = fixups s i" "base_address s2 = base_address s"
    and off: "fixup_offset s2 (fixups s2 (fixup_count s)) = off"
    and k: "length (text_section s) \<le> k" "k < off"
  shows "\<not> in_field s2 (fixup_count s2) k"
proof
  assume "in_field s2 (fixup_count s2) k"
  then obtain i where i: "i < fixup_count s2" "fixup_offset s2 (fixups s2 i) \<le> k"
    "k < fixup_offset s2 (fixups s2 i) + 4"
    by (auto simp: in_field_def)
  consider "i < fixup_count s" | "i = fixup_count s" | "fixup_count s < i" by linarith
  then show False
  proof cases
    case 1
    then have "fixup_in_text s (fixups s i)" using wf(1) by (simp add: text_wf_def)
    then have "fixup_offset s2 (fixups s2 i) + 4 \<le> length (text_section s)"
      using old 1 by (simp add: fixup_in_text_def fixup_offset_def)
    with i(3) k(1) show False by linarith
  next
    case 2
    with i(2) off k(2) show False by simp
  next
    case 3
    then have "fixup_offset s2 (fixups s2 (fixup_count s)) + 4 \<le> fixup_offset s2 (fixups s2 i)"
      using wf(2) i(1) by (simp add: text_wf_def)
    with i(2) off k(2) show False by linarith
  qed
qed

lemma near_branch_resolved:
  assumes br: "emits_branch c opc l ty s" "is_branch_type ty" "name_fits l"
    and wf: "text_wf s" and run: "c s = (Done, s1)"
    and ext: "pass_extends s1 s2" "text_wf s2"
    and res: "resolve_fixups s2 = (Done, t)"
  shows "\<exists>target d post. find_symbol_address l s2 = Some target \<and>
    drop (length (text_section s)) (text_section t) = opc @ le32 d @ post \<and>
    current_address s + of_nat (length opc) + 4 + scast d = target"
proof -
  let ?len = "length (text_section s)" and ?n = "fixup_count s"
  define f where "f = fixups s2 ?n"
  define off where "off = ?len + length opc"
  note st = near_branch_state [OF br(1) wf run]
  obtain more where text2: "text_section s2 = text_section s @ opc @ [0, 0, 0, 0] @ more"
    using ext(1) st(1) by (auto simp: pass_extends_def)
  have fx: "fixups s2 i = fixups s1 i" if "i < Suc ?n" for i
    using ext(1) st(2) that by (simp add: pass_extends_def fixups_extended_def)
  have n: "?n < fixup_count s2"
    using ext(1) st(2) by (simp add: pass_extends_def fixups_extended_def)
  have base: "base_address s2 = base_address s" using ext(1) st(7) by (simp add: pass_extends_def)
  have small: "off + 4 \<le> length (text_section s2)" "length (text_section s2) \<le> MAX_OUTPUT_SIZE"
    using ext(2) by (auto simp: text2 off_def text_wf_def)
  have "fx_location f - base_address s2 = of_nat off"
    using wf st(6) base by (simp add: f_def fx off_def text_wf_def anchored_def)
  then have off: "fixup_offset s2 f = off"
    using small by (simp add: fixup_offset_def unat_of_nat)
  obtain xs where t: "t = s2\<lparr>text_section := xs\<rparr>" and p: "patched s2 (fixup_count s2) xs"
    using resolve_fixups_outcome [OF ext(2) res] by auto
  have len: "length xs = length (text_section s2)" using p by (simp add: patched_def)
  have "field_ok s2 f xs" using p n by (simp add: patched_def f_def)
  moreover have "text_addend32 (text_section s2) off = 0"
    using addend_zero [of "text_section s @ opc" more] by (simp add: text2 off_def)
  moreover have "fx_label f = l" using st(3) br(3) by (simp add: f_def fx)
  ultimately obtain target where target: "find_symbol_address l s2 = Some target"
    "fits_int32 (fixup_value f target)" "take 4 (drop off xs) = le32 (ucast (fixup_value f target))"
    by (auto simp: field_ok_def field_value_def off split: option.splits)
  define d where "d = (ucast (fixup_value f target) :: u32)"
  have v: "fixup_value f target = target - (current_address s + of_nat (length opc) + 4)"
    using st(4-6) br(2) by (simp add: fixup_value_def f_def fx)
  have "scast d = fixup_value f target" unfolding d_def by (rule scast_ucast_fits [OF target(2)])
  then have lands: "current_address s + of_nat (length opc) + 4 + scast d = target" by (simp add: v)
  have "take (length opc) (drop ?len xs) = opc"
  proof (rule nth_equalityI)
    show "length (take (length opc) (drop ?len xs)) = length opc"
      using small(1) by (simp add: len off_def)
    fix i assume "i < length (take (length opc) (drop ?len xs))"
    then have i: "i < length opc" by simp
    have "\<not> in_field s2 (fixup_count s2) (?len + i)"
      by (rule opcode_outside_fields [OF wf ext(2) n _ base off [unfolded f_def]])
        (use fx st(8) i in \<open>auto simp: off_def\<close>)
    then have "xs ! (?len + i) = text_section s2 ! (?len + i)"
      using p i small(1) by (simp add: patched_def off_def)
    with i small(1) show "take (length opc) (drop ?len xs) ! i = opc ! i"
      by (simp add: len off_def text2 nth_append)
  qed
  moreover have "drop ?len xs = take (length opc) (drop ?len xs) @ take 4 (drop off xs) @ drop (off + 4) xs"
    by (metis append_take_drop_id drop_drop add.commute off_def)
  ultimately have "drop ?len (text_section t) = opc @ le32 d @ drop (off + 4) xs"
    using target(3) by (simp add: t d_def)
  with target(1) lands show ?thesis by blast
qed

section \<open>jmp, call and jcc\<close>

lemma jmp_emits_branch:
  "short_branch_rel l s = None \<Longrightarrow>
   emits_branch (encode_jmp_label l) [0xE9] l (Single_family INST_JMP) s"
  by (simp add: emits_branch_def encode_jmp_label_def emit_bytes_def split: status.split prod.split)

lemma jcc_emits_branch:
  "short_branch_rel l s = None \<Longrightarrow>
   emits_branch (encode_jcc_label cc ty l) [0x0F, 0x80 + cc] l ty s"
  by (simp add: emits_branch_def encode_jcc_label_def emit_bytes_def split: status.split prod.split)

lemma call_emits_branch:
  "inst_type inst = Callret_family INST_CALL \<Longrightarrow> inst_operands inst = [op] \<Longrightarrow>
   op_type op = OPERAND_LABEL \<Longrightarrow>
   emits_branch (encode_call_ret inst) [0xE8] (op_label op) (Callret_family INST_CALL) s"
  by (simp add: emits_branch_def encode_call_ret_def emit_bytes_def split: status.split prod.split)

text \<open>The decoder at the branch, in the resolved text.\<close>

lemma decode_resolved:
  assumes "drop n code = [opc] @ le32 d @ post" "opc = 0xE9 \<or> opc = 0xE8" "n \<le> length code"
  shows "decode_one code base n = Decoded \<lparr>dis_bytes = opc # le32 d,
    dis_text = (if opc = 0xE8 then ''call '' else ''jmp '') @ hex_text (unat (base + of_nat n + 5 + scast d))\<rparr>"
proof -
  have "code = take n code @ (opc # le32 d) @ post"
    using assms(1) by (metis append_Cons append_Nil append_take_drop_id)
  with decode_near [OF assms(2), of "take n code" d post base] assms(3) show ?thesis by simp
qed

text \<open>From the branch instruction to what the disassembler prints in the resolved text.\<close>

lemma near_branch_reads_back:
  assumes br: "emits_branch c [opc] l ty s" "is_branch_type ty" "name_fits l"
    and opc: "opc = 0xE9 \<or> opc = 0xE8"
    and wf: "text_wf s" and run: "c s = (Done, s1)"
    and ext: "pass_extends s1 s2" "text_wf s2" and res: "resolve_fixups s2 = (Done, t)"
  shows "\<exists>target d. find_symbol_address l s2 = Some target \<and>
    decode_one (text_section t) (base_address s) (length (text_section s)) =
      Decoded \<lparr>dis_bytes = opc # le32 d,
        dis_text = (if opc = 0xE8 then ''call '' else ''jmp '') @ hex_text (unat target)\<rparr>"
proof -
  obtain target d post where t: "find_symbol_address l s2 = Some target"
    "drop (length (text_section s)) (text_section t) = [opc] @ le32 d @ post"
    "current_address s + of_nat (length [opc]) + 4 + scast d = target"
    using near_branch_resolved [OF br wf run ext res] by blast
  have "length (text_section s) \<le> length (text_section t)"
    using t(2) by (metis append_is_Nil_conv drop_all le_cases length_0_conv list.distinct(1))
  note dec = decode_resolved [OF t(2) opc this, of "base_address s"]
  have "base_address s + of_nat (length (text_section s)) + 5 + scast d = target"
    using t(3) wf by (simp add: text_wf_def anchored_def algebra_simps)
  with dec t(1) show ?thesis by auto
qed

section \<open>Conditional branches\<close>

lemma cc_opcode:
  fixes cc :: u8
  assumes "cc < 16"
  shows "(0x80 + cc = 5) = False" "(0x80 + cc = 0x1F) = False"
    "(0x80 \<le> 0x80 + cc \<and> 0x80 + cc \<le> 0x8F) = True" "(0x80 + cc) AND 0xF = cc"
    "(0x70 \<le> 0x70 + cc \<and> 0x70 + cc \<le> 0x7F) = True" "(0x70 + cc) AND 0xF = cc"
    "cc AND 0xF = cc"
proof -
  have "unat cc < 16" using assms by (simp add: word_less_nat_alt)
  then have "cc \<in> set (map of_nat [0..<16])" by (auto intro!: image_eqI [of _ _ "unat cc"])
  moreover have "list_all (\<lambda>cc :: u8. 0x80 + cc \<noteq> 5 \<and> 0x80 + cc \<noteq> 0x1F \<and>
      (0x80 \<le> 0x80 + cc \<and> 0x80 + cc \<le> 0x8F) \<and> (0x80 + cc) AND 0xF = cc \<and>
      (0x70 \<le> 0x70 + cc \<and> 0x70 + cc \<le> 0x7F) \<and> (0x70 + cc) AND 0xF = cc \<and> cc AND 0xF = cc) (map of_nat [0..<16])"
    by code_simp
  ultimately show "(0x80 + cc = 5) = False" "(0x80 + cc = 0x1F) = False"
    "(0x80 \<le> 0x80 + cc \<and> 0x80 + cc \<le> 0x8F) = True" "(0x80 + cc) AND 0xF = cc"
    "(0x70 \<le> 0x70 + cc \<and> 0x70 + cc \<le> 0x7F) = True" "(0x70 + cc) AND 0xF = cc"
    "cc AND 0xF = cc"
    by (simp_all only: list_all_iff Ball_def simp_thms)
qed

lemma decode_near_jcc:
  assumes "cc < 16"
  shows "decode_one (pre @ (0x0F # (0x80 + cc) # le32 d) @ post) base (length pre) =
    Decoded \<lparr>dis_bytes = 0x0F # (0x80 + cc) # le32 d, dis_text = cc_name ''j'' cc @ '' '' @
      hex_text (unat (base + of_nat (length pre) + 6 + scast d))\<rparr>"
proof -
  let ?code = "pre @ 0x0F # (0x80 + cc) # le32 d @ post"
  let ?e = "form_env ?code base (length pre) 0"
  have op2: "byte_at ?code (length pre + 1) = Some (0x80 + cc)"
    using byte_at_shift [of pre "0x0F # (0x80 + cc) # le32 d @ post" 1] by simp
  have rel: "read_le32 ?code (length pre + 2) = Some d"
    using read_le32_shift [of pre "0x0F # (0x80 + cc) # le32 d @ post" 2] by (simp add: numeral_2_eq_2)
  have "decode_opcode ?e 0x0F (length pre + 1) = decode_0f ?e (length pre + 1)"
    by (simp add: decode_opcode_def)
  also have "\<dots> = with_imm32 ?e (length pre + 2) (\<lambda>rel c.
       Text_To (cc_name ''j'' (0x80 + cc) @ '' '' @ hex_text (unat (jump_target ?e c (scast rel)))) c)"
    by (simp only: decode_0f_def with_byte_def form_env_simps op2 option.case cc_opcode [OF assms]
        if_True if_False add.assoc one_add_one)
  also have "\<dots> = Text_To (cc_name ''j'' cc @ '' '' @
      hex_text (unat (base + of_nat (length pre) + 6 + scast d))) (length pre + 6)"
    using rel cc_opcode(4,7) [OF assms] by (simp add: with_imm32_def jump_target_def cc_name_def)
  finally show ?thesis
    using decode_one_plain [of "0x0F" pre "(0x80 + cc) # le32 d @ post" base]
      finish_form [of "0x0F # (0x80 + cc) # le32 d" pre post]
    by (simp add: plain_opcode_def legacy_prefix_def)
qed

lemma near_jcc_reads_back:
  assumes br: "short_branch_rel l s = None" "is_branch_type ty" "name_fits l" "cc < 16"
    and wf: "text_wf s" and run: "encode_jcc_label cc ty l s = (Done, s1)"
    and ext: "pass_extends s1 s2" "text_wf s2" and res: "resolve_fixups s2 = (Done, t)"
  shows "\<exists>target d. find_symbol_address l s2 = Some target \<and>
    decode_one (text_section t) (base_address s) (length (text_section s)) =
      Decoded \<lparr>dis_bytes = 0x0F # (0x80 + cc) # le32 d,
        dis_text = cc_name ''j'' cc @ '' '' @ hex_text (unat target)\<rparr>"
proof -
  obtain target d post where t: "find_symbol_address l s2 = Some target"
    "drop (length (text_section s)) (text_section t) = [0x0F, 0x80 + cc] @ le32 d @ post"
    "current_address s + of_nat (length [0x0F, 0x80 + cc]) + 4 + scast d = target"
    using near_branch_resolved [OF jcc_emits_branch [OF br(1)] br(2,3) wf run ext res] by blast
  have len: "length (text_section s) \<le> length (text_section t)"
    using t(2) by (metis append_is_Nil_conv drop_all le_cases list.distinct(1))
  let ?n = "length (text_section s)"
  have "text_section t = take ?n (text_section t) @ (0x0F # (0x80 + cc) # le32 d) @ post"
    using t(2) by (metis append_Cons append_Nil append_take_drop_id)
  with decode_near_jcc [OF br(4), of "take ?n (text_section t)" d post "base_address s"] len
  have "decode_one (text_section t) (base_address s) ?n = Decoded \<lparr>dis_bytes = 0x0F # (0x80 + cc) # le32 d,
      dis_text = cc_name ''j'' cc @ '' '' @ hex_text (unat (base_address s + of_nat ?n + 6 + scast d))\<rparr>"
    by simp
  moreover have "base_address s + of_nat ?n + 6 + scast d = target"
    using t(3) wf by (simp add: text_wf_def anchored_def algebra_simps)
  ultimately show ?thesis using t(1) by auto
qed

text \<open>The mnemonic a condition code is printed with; \<open>jnz\<close> is printed as \<open>jne\<close>.\<close>

definition jcc_mnemonic :: "jcc_kind \<Rightarrow> string" where
  "jcc_mnemonic k =
     (case k of INST_JA \<Rightarrow> ''ja'' | INST_JAE \<Rightarrow> ''jae'' | INST_JB \<Rightarrow> ''jb'' | INST_JBE \<Rightarrow> ''jbe''
      | INST_JE \<Rightarrow> ''je'' | INST_JG \<Rightarrow> ''jg'' | INST_JGE \<Rightarrow> ''jge'' | INST_JL \<Rightarrow> ''jl''
      | INST_JLE \<Rightarrow> ''jle'' | INST_JNE \<Rightarrow> ''jne'' | INST_JNZ \<Rightarrow> ''jne'' | INST_JNO \<Rightarrow> ''jno''
      | INST_JNP \<Rightarrow> ''jnp'' | INST_JNS \<Rightarrow> ''jns'' | INST_JO \<Rightarrow> ''jo'' | INST_JP \<Rightarrow> ''jp''
      | INST_JS \<Rightarrow> ''js'')"

lemma jcc_code_name:
  "\<exists>cc < 16. jcc_code (Jcc_family k) = Some cc \<and> cc_name ''j'' cc = jcc_mnemonic k"
  by (cases k) (simp_all add: jcc_code_def cc_name_def cc_suffixes_def jcc_mnemonic_def)

end
