(* ===== verification/Sample_States.thy ===== *)
theory Sample_States
  imports Branches
begin

text \<open>
  Concrete contexts, operands and instructions on which the general theorems are applied.
\<close>

section \<open>Operands and instructions\<close>

definition no_mem :: mem_operand where
  "no_mem = \<lparr>mem_base = REG_NONE, mem_index = REG_NONE, mem_scale = 1, mem_displacement = 0,
     mem_has_base = False, mem_has_index = False, mem_has_displacement = False,
     mem_is_absolute = False, mem_is_rip_relative = False,
     mem_segment_override = MEM_SEG_DEFAULT, mem_label = []\<rparr>"

definition no_operand :: operand where
  "no_operand = \<lparr>op_type = OPERAND_NONE, op_reg = REG_NONE, op_reg_size = REG_SIZE_64,
     op_immediate = 0, op_mem = no_mem, op_label = [], op_label_rhs = [], op_string = []\<rparr>"

definition reg_operand :: "reg_t \<Rightarrow> reg_size_t \<Rightarrow> operand" where
  "reg_operand r sz = no_operand\<lparr>op_type := OPERAND_REG, op_reg := r, op_reg_size := sz\<rparr>"

definition imm_operand :: "u64 \<Rightarrow> operand" where
  "imm_operand v = no_operand\<lparr>op_type := OPERAND_IMM, op_immediate := v\<rparr>"

definition label_operand :: "string \<Rightarrow> operand" where
  "label_operand l = no_operand\<lparr>op_type := OPERAND_LABEL, op_label := l\<rparr>"

definition base_disp_operand :: "reg_t \<Rightarrow> u32 \<Rightarrow> operand" where
  "base_disp_operand b d = no_operand\<lparr>op_type := OPERAND_MEM,
     op_mem := no_mem\<lparr>mem_base := b, mem_has_base := True, mem_displacement := d,
       mem_has_displacement := True\<rparr>\<rparr>"

definition index_operand :: "reg_t \<Rightarrow> int \<Rightarrow> u32 \<Rightarrow> operand" where
  "index_operand i scale d = no_operand\<lparr>op_type := OPERAND_MEM,
     op_mem := no_mem\<lparr>mem_index := i, mem_has_index := True, mem_scale := scale, mem_displacement := d,
       mem_has_displacement := True\<rparr>\<rparr>"

definition instruction :: "instruction_type \<Rightarrow> operand list \<Rightarrow> parsed_instruction" where
  "instruction ty ops = \<lparr>inst_type = ty, inst_label = [], inst_has_label = False,
     inst_label_column = 0, inst_operands = ops, inst_address = 0, inst_line_number = 1,
     inst_original_line = []\<rparr>"

section \<open>Contexts\<close>

text \<open>The start of a text pass.\<close>

definition start_ctx :: asm_ctx where
  "start_ctx = asm_init\<lparr>current_address := base_address asm_init\<rparr>"

definition far_entry :: hash_entry where
  "far_entry = \<lparr>he_name = ''far'', he_address = 0x401000, he_is_resolved = True,
     he_is_global = False, he_is_external = False, he_section = 0\<rparr>"

text \<open>The start of a pass with one label, a page away, in its hash bucket.\<close>

definition labelled_ctx :: asm_ctx where
  "labelled_ctx = start_ctx\<lparr>symbol_hash_table := (\<lambda>_. [far_entry])\<rparr>"

text \<open>After a near jump to the label: the five bytes and the fixup.\<close>

definition jumped_ctx :: asm_ctx where
  "jumped_ctx = snd (encode_jmp_label ''far'' labelled_ctx)"

lemmas operand_defs = reg_operand_def imm_operand_def label_operand_def base_disp_operand_def
  no_operand_def no_mem_def instruction_def

lemma start_ctx_wf: "text_wf start_ctx"
  by (simp add: start_ctx_def asm_init_def text_wf_def anchored_def)

lemma labelled_ctx_wf: "text_wf labelled_ctx"
  by (simp add: labelled_ctx_def start_ctx_def asm_init_def text_wf_def anchored_def)

lemma far_lookup:
  "get_symbol_info ''far'' labelled_ctx = Some far_entry"
  "find_symbol_address ''far'' labelled_ctx = Some 0x401000"
  by (simp_all add: get_symbol_info_def find_symbol_address_def symbol_hash_lookup_def
      labelled_ctx_def far_entry_def)

lemma far_not_short: "short_branch_rel ''far'' labelled_ctx = None"
  by (simp add: short_branch_rel_def far_lookup)
    (simp add: far_entry_def labelled_ctx_def start_ctx_def asm_init_def Let_def)

lemma emit_le32_room:
  "room 4 s \<Longrightarrow> emit_le32 d s = (Done, put_text (le32 d) s)"
  using emitsD [OF emits_emit_le(2), of d s] by simp

lemma jumped_ctx_run: "encode_jmp_label ''far'' labelled_ctx = (Done, jumped_ctx)"
proof -
  have "fst (encode_jmp_label ''far'' labelled_ctx) = Done"
    unfolding encode_jmp_label_def far_not_short
    by (simp add: emit_byte_def branch_disp32_def add_controlflow_fixup_def labelled_ctx_def
        start_ctx_def asm_init_def Let_def listing_emit_byte_def emit_le32_room room_def)
  then show ?thesis by (metis jumped_ctx_def prod.collapse)
qed

lemma jumped_ctx_wf: "text_wf jumped_ctx"
  using enc_jump_label(1) [of "''far''"] labelled_ctx_wf jumped_ctx_run
  unfolding encoder_cmd_def by (blast dest: safeD)

lemmas jumped_state = near_branch_state [OF jmp_emits_branch [OF far_not_short] labelled_ctx_wf jumped_ctx_run]

lemma labelled_ctx_fields [simp]:
  "text_section labelled_ctx = []" "fixup_count labelled_ctx = 0"
  "current_address labelled_ctx = 0x400000" "base_address labelled_ctx = 0x400000"
  "current_section labelled_ctx = 0" "text_capacity labelled_ctx = MAX_OUTPUT_SIZE"
  by (simp_all add: labelled_ctx_def start_ctx_def asm_init_def)

lemma jumped_far: "find_symbol_address ''far'' jumped_ctx = Some 0x401000"
proof -
  have "symbol_hash_table jumped_ctx = symbol_hash_table labelled_ctx"
    using enc_jump_label(1) [of "''far''"] jumped_ctx_run
    by (auto simp: encoder_cmd_def grows_defs dest!: emitterD)
  then show ?thesis
    using far_lookup(2) by (simp add: find_symbol_address_def symbol_hash_lookup_def)
qed

lemma jumped_field:
  "fx_label (fixups jumped_ctx 0) = ''far''" "field_value jumped_ctx (fixups jumped_ctx 0) 0x401000 = 0xFFB"
  using jumped_state(1,3-7)
  by (simp_all add: copy_bounded_text_def field_value_def fixup_value_def is_branch_type_def
      fixup_offset_def text_addend32_def of_le32_def)

lemma jumped_resolves: "fst (resolve_fixups jumped_ctx) = Done"
  unfolding resolve_fixups_def
  by (rule resolve_loop_total [OF jumped_ctx_wf le_refl])
    (use jumped_state(2) jumped_far jumped_field in \<open>auto simp: fits_int32_def\<close>)

lemma jumped_resolved: "resolve_fixups jumped_ctx = (Done, snd (resolve_fixups jumped_ctx))"
  using jumped_resolves by (metis prod.collapse)

text \<open>A text with one fixup whose label is not defined.\<close>

definition undefined_ctx :: asm_ctx where
  "undefined_ctx = jumped_ctx\<lparr>symbol_hash_table := (\<lambda>_. [])\<rparr>"

lemma undefined_ctx_wf: "text_wf undefined_ctx"
  using jumped_ctx_wf
  by (simp add: undefined_ctx_def text_wf_def anchored_def fixup_in_text_def fixup_offset_def)

lemma undefined_fails: "fst (resolve_fixups undefined_ctx) = Fail Symbol_Error"
  using jumped_state(2)
  by (simp add: resolve_fixups_def resolve_one_def find_symbol_address_def symbol_hash_lookup_def
      undefined_ctx_def)

text \<open>The same for a call and for a conditional jump to the label.\<close>

definition call_far :: parsed_instruction where
  "call_far = instruction (Callret_family INST_CALL) [label_operand ''far'']"

definition called_ctx :: asm_ctx where
  "called_ctx = snd (encode_call_ret call_far labelled_ctx)"

definition je_ctx :: asm_ctx where
  "je_ctx = snd (encode_jcc_label 4 (Jcc_family INST_JE) ''far'' labelled_ctx)"

lemma call_far_emits: "emits_branch (encode_call_ret call_far) [0xE8] ''far'' (Callret_family INST_CALL) labelled_ctx"
  using call_emits_branch [of call_far "label_operand ''far''" labelled_ctx]
  by (simp add: call_far_def operand_defs)

lemma branch_run:
  assumes "emits_branch c opc ''far'' ty labelled_ctx" "length opc \<le> 2"
  shows "fst (c labelled_ctx) = Done"
proof -
  have "emit_bytes opc labelled_ctx = (Done, put_text opc labelled_ctx)"
    using assms(2) emitsD [OF emits_emit_bytes, of opc labelled_ctx] by (simp add: room_def)
  with assms show ?thesis
    by (simp add: emits_branch_def branch_disp32_def add_controlflow_fixup_def emit_le32_room room_def Let_def)
qed

lemma called_ctx_run: "encode_call_ret call_far labelled_ctx = (Done, called_ctx)"
  using branch_run [OF call_far_emits] by (simp add: called_ctx_def prod_eq_iff)

lemma je_ctx_run: "encode_jcc_label 4 (Jcc_family INST_JE) ''far'' labelled_ctx = (Done, je_ctx)"
  using branch_run [OF jcc_emits_branch [OF far_not_short], of 4 "Jcc_family INST_JE"]
  by (simp add: je_ctx_def prod_eq_iff)

lemma called_je_wf: "text_wf called_ctx" "text_wf je_ctx"
  using call_ret_enc.encode_cmd [of call_far] enc_jump_label(2) [of 4 "Jcc_family INST_JE" "''far''"]
    labelled_ctx_wf called_ctx_run je_ctx_run
  unfolding encoder_cmd_def by (blast dest: safeD)+

lemma branch_resolves:
  assumes br: "emits_branch c opc ''far'' ty labelled_ctx" "is_branch_type ty" "length opc \<le> 2"
    and run: "c labelled_ctx = (Done, s1)" and wf: "text_wf s1" and enc: "encoder_cmd c"
  shows "find_symbol_address ''far'' s1 = Some 0x401000" "resolve_fixups s1 = (Done, snd (resolve_fixups s1))"
proof -
  note st = near_branch_state [OF br(1) labelled_ctx_wf run]
  have "symbol_hash_table s1 = symbol_hash_table labelled_ctx"
    using enc run by (auto simp: encoder_cmd_def grows_defs dest!: emitterD)
  then show far: "find_symbol_address ''far'' s1 = Some 0x401000"
    using far_lookup(2) by (simp add: find_symbol_address_def symbol_hash_lookup_def)
  have "length opc < 3" using br(3) by simp
  then have len: "length opc = 0 \<or> length opc = 1 \<or> length opc = 2" by linarith
  have off: "fixup_offset s1 (fixups s1 0) = length opc"
    using st(6,7) len by (auto simp: fixup_offset_def)
  have "text_addend32 (text_section s1) (length opc) = 0"
    using st(1) addend_zero [of opc "[]"] by simp
  then have "fits_int32 (field_value s1 (fixups s1 0) 0x401000)"
    using st(4-6) br(2) len off by (auto simp: field_value_def fixup_value_def fits_int32_def)
  moreover have "fx_label (fixups s1 0) = ''far''" using st(3) by (simp add: copy_bounded_text_def)
  ultimately have "fst (resolve_fixups s1) = Done"
    unfolding resolve_fixups_def using st(2) far
    by (intro resolve_loop_total [OF wf le_refl]) auto
  then show "resolve_fixups s1 = (Done, snd (resolve_fixups s1))" by (metis prod.collapse)
qed

lemmas called_resolved = branch_resolves [OF call_far_emits _ _ called_ctx_run called_je_wf(1) call_ret_enc.encode_cmd,
  unfolded is_branch_type_def, simplified]

lemmas je_resolved = branch_resolves [OF jcc_emits_branch [OF far_not_short] _ _ je_ctx_run called_je_wf(2)
  enc_jump_label(2), unfolded is_branch_type_def, simplified]

text \<open>A label at the current address.\<close>

definition here_ctx :: asm_ctx where
  "here_ctx = start_ctx\<lparr>symbol_hash_table := (\<lambda>_. [far_entry\<lparr>he_name := ''here'', he_address := 0x400000\<rparr>])\<rparr>"

lemma here_ctx_facts:
  "text_wf here_ctx" "room 2 here_ctx" "short_branch_rel ''here'' here_ctx = Some (-2)"
  "text_section here_ctx = []" "base_address here_ctx = 0x400000"
  "find_symbol_address ''here'' here_ctx = Some 0x400000"
  by (simp_all add: here_ctx_def text_wf_def anchored_def room_def start_ctx_def asm_init_def
      short_branch_rel_def get_symbol_info_def symbol_hash_lookup_def find_symbol_address_def
      far_entry_def Let_def)

lemma byte_minus_two: "(18446744073709551614 :: u8) = 0xFE"
  by code_simp

end
