(* ===== verification/Pass_Properties.thy ===== *)
theory Pass_Properties
  imports Sample_States
begin

text \<open>
  The properties of the text pass: what encoding any instruction preserves, how the directives
  pad, and what the resolution of the fixups does to the text, with an instance of each.
\<close>

section \<open>Encoding\<close>

text \<open>C3 (invariant). Encoding any instruction or directive, when it succeeds, keeps the text pass well formed as long
  as it does not switch to the data section: the address stays the base plus the bytes emitted,
  the buffer is not overrun and every recorded fixup names four emitted bytes of its own.\<close>

theorem encode_keeps_text_wf:
  assumes "text_wf s" "encode_instruction files inst s = (Done, t)" "current_section t \<noteq> 1"
  shows "text_wf t"
  using assms by (rule encode_instruction_text_wf)

lemma encode_keeps_text_wf_witness:
  "text_wf (snd (encode_instruction (\<lambda>_. Not_Opened)
     (instruction (Single_family INST_SYSCALL) []) start_ctx))"
proof (rule encode_keeps_text_wf [OF start_ctx_wf])
  show "encode_instruction (\<lambda>_. Not_Opened) (instruction (Single_family INST_SYSCALL) []) start_ctx =
    (Done, snd (encode_instruction (\<lambda>_. Not_Opened) (instruction (Single_family INST_SYSCALL) []) start_ctx))"
    by (simp add: encode_instruction_def dispatch_def encode_syscall_def emit_byte_def instruction_def
        start_ctx_def asm_init_def)
  show "current_section (snd (encode_instruction (\<lambda>_. Not_Opened)
      (instruction (Single_family INST_SYSCALL) []) start_ctx)) \<noteq> 1"
    by (simp add: encode_instruction_def dispatch_def encode_syscall_def emit_byte_def instruction_def
        start_ctx_def asm_init_def listing_emit_byte_def)
qed

text \<open>C4 (safety). Whatever the instruction, and also when it fails half way, encoding only appends
  to the section buffers: emitted bytes are never rewritten, the address moves by the number of
  bytes, no capacity is exceeded and earlier fixups are kept.\<close>

theorem encode_only_appends: "writes s (snd (encode_instruction files inst s))"
  by (rule dispatcher.encode_writes)

text \<open>C5 (bounds). A whole sequence of instructions that starts inside the two buffers ends inside
  them, on every path.\<close>

theorem encode_sequence_in_bounds:
  assumes "length (text_section s) \<le> text_capacity s" "length (data_section s) \<le> data_capacity s"
    and "run_seq (map (encode_instruction files) insts) s = (r, t)"
  shows "length (text_section t) \<le> text_capacity t \<and> length (data_section t) \<le> data_capacity t"
  using assms by (rule dispatcher.encode_all_capacity)

lemma encode_sequence_in_bounds_witness:
  "let t = snd (run_seq (map (encode_instruction (\<lambda>_. Not_Opened))
        [instruction (Single_family INST_NOP) [], instruction (Callret_family INST_RET) []]) start_ctx)
   in length (text_section t) \<le> text_capacity t"
  using encode_sequence_in_bounds [of start_ctx "\<lambda>_. Not_Opened"
      "[instruction (Single_family INST_NOP) [], instruction (Callret_family INST_RET) []]",
      OF _ _ prod.collapse [symmetric]]
  by (simp add: Let_def start_ctx_def asm_init_def del: run_seq.simps)



section \<open>Fixup resolution\<close>



text \<open>C8 (error). On a well-formed text resolution can only fail for two reasons: a fixup names an
  undefined symbol, or a value does not fit its 32 bit field. It never reads or writes outside the
  text and its bounds check never fires.\<close>

theorem resolve_fixups_errors:
  assumes "text_wf s" "resolve_fixups s = (Fail err, t)"
  shows "(err = Symbol_Error \<and>
      (\<exists>i < fixup_count s. find_symbol_address (fx_label (fixups s i)) s = None)) \<or>
    (err = Fixup_Error \<and> (\<exists>i < fixup_count s. \<exists>target.
        find_symbol_address (fx_label (fixups s i)) s = Some target \<and>
        \<not> fits_int32 (fixup_value (fixups s i) target +
           text_addend32 (text_section s) (fixup_offset s (fixups s i)))))"
  using resolve_fixups_outcome [OF assms] by (auto simp: field_value_def)

lemma resolve_fixups_errors_witness:
  "\<exists>i < fixup_count undefined_ctx. find_symbol_address (fx_label (fixups undefined_ctx i)) undefined_ctx = None"
proof -
  have "resolve_fixups undefined_ctx = (Fail Symbol_Error, snd (resolve_fixups undefined_ctx))"
    using undefined_fails by (metis prod.collapse)
  from resolve_fixups_errors [OF undefined_ctx_wf this] show ?thesis by simp
qed

text \<open>C9 (liveness). Resolution succeeds as soon as every label is defined and every value is within
  reach of its field.\<close>

theorem resolve_fixups_succeeds:
  assumes "text_wf s"
    and "\<And>i. i < fixup_count s \<Longrightarrow> \<exists>target.
      find_symbol_address (fx_label (fixups s i)) s = Some target \<and>
      fits_int32 (fixup_value (fixups s i) target +
        text_addend32 (text_section s) (fixup_offset s (fixups s i)))"
  shows "fst (resolve_fixups s) = Done"
  unfolding resolve_fixups_def
  by (rule resolve_loop_total [OF assms(1) le_refl]) (use assms(2) in \<open>simp add: field_value_def\<close>)

lemma resolve_fixups_succeeds_witness: "fst (resolve_fixups jumped_ctx) = Done"
proof (rule resolve_fixups_succeeds [OF jumped_ctx_wf])
  fix i assume "i < fixup_count jumped_ctx"
  then show "\<exists>target. find_symbol_address (fx_label (fixups jumped_ctx i)) jumped_ctx = Some target \<and>
      fits_int32 (fixup_value (fixups jumped_ctx i) target +
        text_addend32 (text_section jumped_ctx) (fixup_offset jumped_ctx (fixups jumped_ctx i)))"
    using jumped_state(2) jumped_far jumped_field by (auto simp: fits_int32_def field_value_def)
qed

text \<open>Resolution reads the slots below the count, through \<open>resolve_one\<close>.\<close>

lemma resolve_one_other_slots:
  "resolve_one f (s\<lparr>fixups := g\<rparr>) = apsnd (\<lambda>t. t\<lparr>fixups := g\<rparr>) (resolve_one f s)"
  by (simp add: resolve_one_def patch_field_def find_symbol_address_def symbol_hash_lookup_def Let_def
      split: option.split)

lemma run_other_slots:
  "(\<And>i. i \<in> set ks \<Longrightarrow> resolve_one (new i) = resolve_one (old i)) \<Longrightarrow>
   run_seq (map (\<lambda>i. resolve_one (new i)) ks) (s\<lparr>fixups := g\<rparr>) =
     apsnd (\<lambda>t. t\<lparr>fixups := g\<rparr>) (run_seq (map (\<lambda>i. resolve_one (old i)) ks) s)"
proof (induction ks arbitrary: s)
  case (Cons i ks)
  obtain r t where one: "resolve_one (old i) s = (r, t)" by fastforce
  with Cons.prems [of i] have "resolve_one (new i) (s\<lparr>fixups := g\<rparr>) = (r, t\<lparr>fixups := g\<rparr>)"
    by (simp add: resolve_one_other_slots)
  with one Cons show ?case by (simp split: status.split)
qed simp

lemma run_keeps_slots:
  "fixups (snd (run_seq (map (\<lambda>i. resolve_one (f i)) ks) s)) = fixups s"
proof (induction ks arbitrary: s)
  case (Cons i ks)
  have "fixups (snd (resolve_one (f i) s)) = fixups s"
    by (simp add: resolve_one_def patch_field_def Let_def split: option.split)
  then show ?case
    using Cons.IH [of "snd (resolve_one (f i) s)"] by (cases "resolve_one (f i) s") (simp split: status.split)
qed simp

lemma resolve_fixups_same:
  assumes "\<And>i. i < fixup_count s \<Longrightarrow> resolve_one (new i) = resolve_one (fixups s i)"
  shows "fst (resolve_fixups (s\<lparr>fixups := new\<rparr>)) = fst (resolve_fixups s) \<and>
    (snd (resolve_fixups (s\<lparr>fixups := new\<rparr>)))\<lparr>fixups := fixups s\<rparr> = snd (resolve_fixups s)"
proof -
  let ?t = "run_seq (map (\<lambda>i. resolve_one (fixups s i)) [0..<fixup_count s]) s"
  have "resolve_fixups (s\<lparr>fixups := new\<rparr>) = apsnd (\<lambda>t. t\<lparr>fixups := new\<rparr>) ?t"
    using run_other_slots [where s = s and g = new and new = new and old = "fixups s" and ks = "[0..<fixup_count s]"] assms by (simp add: resolve_fixups_def)
  moreover have "(snd ?t)\<lparr>fixups := fixups s\<rparr> = snd ?t"
    using run_keeps_slots [where f = "fixups s" and s = s and ks = "[0..<fixup_count s]"] by (cases "snd ?t") simp
  ultimately show ?thesis by (simp add: resolve_fixups_def)
qed

lemma recorded_branch_fixups:
  assumes "is_branch_type ty" "\<And>i. i < fixup_count s \<Longrightarrow> old i = fixups s i"
    and "add_controlflow_fixup l sz ty s = (r, s1)"
    and "add_controlflow_fixup l sz ty (s\<lparr>fixups := old\<rparr>) = (r', s2)"
  shows "\<exists>new. r' = r \<and> s2 = s1\<lparr>fixups := new\<rparr> \<and>
    (\<forall>i < fixup_count s1. resolve_one (new i) = resolve_one (fixups s1 i))"
proof (cases "MAX_SYMBOLS \<le> fixup_count s")
  case True
  with assms show ?thesis by (intro exI [of _ old]) (auto simp: add_controlflow_fixup_def)
next
  case False
  let ?n = "fixup_count s"
  let ?written = "\<lambda>f. f\<lparr>fx_label := copy_bounded_text MAX_LABEL_LENGTH l, fx_location := current_address s,
    fx_size := sz, fx_instruction_type := ty, fx_operand_index := 0\<rparr>"
  have "resolve_one (?written f) = resolve_one (?written g)" for f g
    using resolve_one_stale [where f = "?written g" and b = "fx_is_rip_relative f" and c = "fx_section f" and d = 0] assms(1) by (cases f; cases g) simp
  then show ?thesis
    using assms False
    by (intro exI [of _ "old(?n := ?written (old ?n))"])
      (auto simp: add_controlflow_fixup_def Let_def less_Suc_eq)
qed

text \<open>C10 (equivalence). The branch fixup recorder does not write every field of its slot, and slots keep what an
  earlier pass left in them. This has no influence: recording a branch in a context whose slots from
  the count on hold anything else leads, after resolution, to the same status and the same context
  but for the fixup array.\<close>

theorem stale_branch_fixup_harmless:
  assumes "is_branch_type ty" "\<And>i. i < fixup_count s \<Longrightarrow> old i = fixups s i"
    and "add_controlflow_fixup l sz ty s = (r, s1)"
    and "add_controlflow_fixup l sz ty (s\<lparr>fixups := old\<rparr>) = (r', s2)"
  shows "r' = r \<and> fst (resolve_fixups s2) = fst (resolve_fixups s1) \<and>
    (snd (resolve_fixups s2))\<lparr>fixups := fixups s1\<rparr> = snd (resolve_fixups s1)"
proof -
  obtain new where s2: "r' = r" "s2 = s1\<lparr>fixups := new\<rparr>"
    and same: "\<And>i. i < fixup_count s1 \<Longrightarrow> resolve_one (new i) = resolve_one (fixups s1 i)"
    using recorded_branch_fixups [OF assms] by blast
  from resolve_fixups_same [OF same] show ?thesis by (simp add: s2)
qed

definition stale_slots :: "nat \<Rightarrow> fixup" where
  "stale_slots i = zero_fixup\<lparr>fx_is_rip_relative := True, fx_section := 1, fx_size := 8, fx_label := ''old''\<rparr>"

lemma stale_branch_fixup_harmless_witness:
  "fst (resolve_fixups (snd (add_controlflow_fixup ''a'' 4 (Single_family INST_JMP) (asm_init\<lparr>fixups := stale_slots\<rparr>)))) =
   fst (resolve_fixups (snd (add_controlflow_fixup ''a'' 4 (Single_family INST_JMP) asm_init)))"
  using stale_branch_fixup_harmless [of "Single_family INST_JMP" asm_init stale_slots "''a''" 4]
  by (cases "add_controlflow_fixup ''a'' 4 (Single_family INST_JMP) asm_init";
      cases "add_controlflow_fixup ''a'' 4 (Single_family INST_JMP) (asm_init\<lparr>fixups := stale_slots\<rparr>)")
    (simp add: is_branch_type_def asm_init_def)

section \<open>Branches, from the instruction to the resolved text\<close>

text \<open>C11 (functional). A near jmp to a label: after any further instructions and the resolution of the fixups, the
  disassembler run at the jump in the resolved text prints a jump to the label's address.\<close>

theorem near_jmp_lands_on_label:
  assumes "text_wf s" "name_fits l" "short_branch_rel l s = None"
    and "encode_jmp_label l s = (Done, s1)"
    and "run_seq (map (encode_instruction files) insts) s1 = (Done, s2)" "text_wf s2"
    and "resolve_fixups s2 = (Done, t)"
  shows "\<exists>target d. find_symbol_address l s2 = Some target \<and>
    decode_one (text_section t) (base_address s) (length (text_section s)) =
      Decoded \<lparr>dis_bytes = 0xE9 # le32 d, dis_text = ''jmp '' @ hex_text (unat target)\<rparr>"
proof -
  have "pass_extends s1 s2"
    using dispatcher.encode_all_writes [of s1 files insts] assms(5) by (simp add: writes_pass_extends)
  from near_branch_reads_back [OF jmp_emits_branch [OF assms(3)] _ assms(2) _ assms(1,4) this assms(6,7)]
  show ?thesis by (simp add: is_branch_type_def)
qed

lemma near_jmp_lands_on_label_witness:
  "\<exists>d. decode_one (text_section (snd (resolve_fixups jumped_ctx))) 0x400000 0 =
     Decoded \<lparr>dis_bytes = 0xE9 # le32 d, dis_text = ''jmp '' @ hex_text 0x401000\<rparr>"
  using near_jmp_lands_on_label [OF labelled_ctx_wf _ far_not_short jumped_ctx_run _ jumped_ctx_wf
      jumped_resolved, of "\<lambda>_. Not_Opened" "[]"] jumped_far
  by (auto simp: name_fits_def)

text \<open>C12 (functional). The same for a call.\<close>

theorem near_call_lands_on_label:
  assumes "inst_type inst = Callret_family INST_CALL" "inst_operands inst = [op]"
    and "op_type op = OPERAND_LABEL" "name_fits (op_label op)"
    and "text_wf s" "encode_call_ret inst s = (Done, s1)"
    and "run_seq (map (encode_instruction files) insts) s1 = (Done, s2)" "text_wf s2"
    and "resolve_fixups s2 = (Done, t)"
  shows "\<exists>target d. find_symbol_address (op_label op) s2 = Some target \<and>
    decode_one (text_section t) (base_address s) (length (text_section s)) =
      Decoded \<lparr>dis_bytes = 0xE8 # le32 d, dis_text = ''call '' @ hex_text (unat target)\<rparr>"
proof -
  have "pass_extends s1 s2"
    using dispatcher.encode_all_writes [of s1 files insts] assms(7) by (simp add: writes_pass_extends)
  from near_branch_reads_back [OF call_emits_branch [OF assms(1-3)] _ assms(4) _ assms(5,6) this assms(8,9)]
  show ?thesis by (simp add: is_branch_type_def)
qed

lemma near_call_lands_on_label_witness:
  "\<exists>d. decode_one (text_section (snd (resolve_fixups called_ctx))) 0x400000 0 =
     Decoded \<lparr>dis_bytes = 0xE8 # le32 d, dis_text = ''call '' @ hex_text 0x401000\<rparr>"
  using near_call_lands_on_label [of call_far "label_operand ''far''", OF _ _ _ _ labelled_ctx_wf
      called_ctx_run _ called_je_wf(1) called_resolved(2), of "\<lambda>_. Not_Opened" "[]"] called_resolved(1)
  by (auto simp: name_fits_def call_far_def operand_defs)

text \<open>C13 (functional). The same for a conditional jump, printed with the mnemonic of the condition.\<close>

theorem near_jcc_lands_on_label:
  assumes "text_wf s" "name_fits l" "short_branch_rel l s = None"
    and "jcc_code (Jcc_family k) = Some cc" "encode_jcc_label cc (Jcc_family k) l s = (Done, s1)"
    and "run_seq (map (encode_instruction files) insts) s1 = (Done, s2)" "text_wf s2"
    and "resolve_fixups s2 = (Done, t)"
  shows "\<exists>target d. find_symbol_address l s2 = Some target \<and>
    decode_one (text_section t) (base_address s) (length (text_section s)) =
      Decoded \<lparr>dis_bytes = 0x0F # (0x80 + cc) # le32 d,
        dis_text = jcc_mnemonic k @ '' '' @ hex_text (unat target)\<rparr>"
proof -
  have ext: "pass_extends s1 s2"
    using dispatcher.encode_all_writes [of s1 files insts] assms(6) by (simp add: writes_pass_extends)
  have cc: "cc < 16" "cc_name ''j'' cc = jcc_mnemonic k"
    using jcc_code_name [of k] assms(4) by auto
  from near_jcc_reads_back [OF assms(3) _ assms(2) cc(1) assms(1,5) ext assms(7,8)] show ?thesis
    by (simp add: is_branch_type_def cc(2))
qed

lemma near_jcc_lands_on_label_witness:
  "\<exists>d. decode_one (text_section (snd (resolve_fixups je_ctx))) 0x400000 0 =
     Decoded \<lparr>dis_bytes = 0x0F # 0x84 # le32 d, dis_text = ''je '' @ hex_text 0x401000\<rparr>"
  using near_jcc_lands_on_label [OF labelled_ctx_wf _ far_not_short _ je_ctx_run _ called_je_wf(2)
      je_resolved(2), of "\<lambda>_. Not_Opened" "[]"] je_resolved(1)
  by (auto simp: name_fits_def jcc_code_def jcc_mnemonic_def)

text \<open>C14 (functional). A short jmp is two bytes, and the disassembler prints its label's address.\<close>

theorem short_jmp_lands_on_label:
  assumes "text_wf s" "room 2 s" "short_branch_rel l s = Some rel"
  shows "encode_jmp_label l s = (Done, put_text [0xEB, ucast rel] s) \<and>
    (\<exists>target. find_symbol_address l s = Some target \<and>
      decode_one (text_section s @ [0xEB, ucast rel]) (base_address s) (length (text_section s)) =
        Decoded \<lparr>dis_bytes = [0xEB, ucast rel], dis_text = ''jmp '' @ hex_text (unat target)\<rparr>)"
proof -
  have "current_address s = base_address s + of_nat (length (text_section s))"
    using assms(1) by (simp add: text_wf_def anchored_def)
  then show ?thesis
    using short_jmp_run(1) [OF assms(3,2)] short_branch_rel_target [OF assms(3)]
      decode_short_jmp [of "text_section s" "ucast rel" "[]" "base_address s"]
    by (simp add: scast_ucast_byte)
qed

lemma short_jmp_lands_on_label_witness:
  "decode_one [0xEB, 0xFE] 0x400000 0 =
     Decoded \<lparr>dis_bytes = [0xEB, 0xFE], dis_text = ''jmp '' @ hex_text 0x400000\<rparr>"
  using short_jmp_lands_on_label [OF here_ctx_facts(1-3)] here_ctx_facts(4-6) byte_minus_two by auto

end
