(* ===== verification/Format_Properties.thy ===== *)
theory Format_Properties
  imports Sample_States
begin

text \<open>
  The properties of the instruction formats: the disassembler's bounds and coverage, and the
  round trips between the encoders and the decoder, with an instance of each. The last section
  states forms whose encoding denotes another operand than the one written.
\<close>

section \<open>The disassembler\<close>

text \<open>C15 (safety). A decoded instruction covers between 1 and 15 bytes, all of them inside the code, and
  its text fits the 192 byte buffer.\<close>

theorem decode_one_bounds:
  assumes "decode_one code base start = Decoded d"
  shows "0 < length (dis_bytes d) \<and> length (dis_bytes d) \<le> DIS_MAX_INST_BYTES \<and>
    take (length (dis_bytes d)) (drop start code) = dis_bytes d \<and>
    start + length (dis_bytes d) \<le> length code \<and> length (dis_text d) < 192"
  using decode_one_spec [OF assms] by blast

lemma decode_one_bounds_witness:
  "length (dis_text \<lparr>dis_bytes = [0xC3], dis_text = ''ret''\<rparr>) < 192"
proof -
  have "decode_one [0xC3] 0 0 = Decoded \<lparr>dis_bytes = [0xC3], dis_text = ''ret''\<rparr>"
    by code_simp
  from decode_one_bounds [OF this] show ?thesis by blast
qed

text \<open>C16 (functional). The lines of a disassembly cover every byte of the code once, in order.\<close>

theorem disassembly_partitions_code:
  assumes "disassemble_from code base 0 = Some items"
  shows "concat (map fst items) = code"
  using disassemble_from_partition [OF assms] by simp

lemma disassembly_partitions_code_witness:
  "\<exists>items. disassemble_from [0x55, 0x0F, 0x05, 0xC3] 0 0 = Some items \<and> length items = 3 \<and>
     concat (map fst items) = [0x55, 0x0F, 0x05, 0xC3]"
proof -
  let ?code = "[0x55, 0x0F, 0x05, 0xC3] :: u8 list"
  have "decode_one ?code 0 0 = Decoded \<lparr>dis_bytes = [0x55], dis_text = ''push rbp''\<rparr>"
    "decode_one ?code 0 1 = Decoded \<lparr>dis_bytes = [0x0F, 0x05], dis_text = ''syscall''\<rparr>"
    "decode_one ?code 0 3 = Decoded \<lparr>dis_bytes = [0xC3], dis_text = ''ret''\<rparr>"
    by code_simp+
  then have "map_option length (disassemble_from ?code 0 0) = Some 3"
    by (simp add: disassemble_from.simps [of ?code] numeral_3_eq_3)
  then obtain items where "disassemble_from ?code 0 0 = Some items" "length items = 3" by auto
  with disassembly_partitions_code [OF this(1)] show ?thesis by blast
qed

text \<open>C17 (termination). The disassembly of a buffer always completes when no position starts a run of more
  than four prefixes: no copy into the 15 byte array overruns it.\<close>

theorem disassembly_completes:
  assumes "\<And>pos. fst (scan_prefixes (drop pos code) False 0) \<le> 4"
  shows "disassemble_code_buffer code base \<noteq> None"
  using disassemble_from_total [OF assms] by (simp add: disassemble_code_buffer_def)

lemma disassembly_completes_witness: "disassemble_code_buffer [0x66, 0x90] 0 \<noteq> None"
proof (rule disassembly_completes)
  fix pos :: nat
  consider "pos = 0" | "pos = 1" | "pos \<ge> 2" by linarith
  then show "fst (scan_prefixes (drop pos [0x66, 0x90]) False 0) \<le> 4"
    by cases (simp_all add: legacy_prefix_def)
qed

text \<open>Prefix bytes, and the opcodes that are a whole instruction (push, pop, nop, leave, ret).\<close>

definition prefix_byte :: "u8 \<Rightarrow> bool" where
  "prefix_byte b \<longleftrightarrow> b = 0x66 \<or> legacy_prefix b \<or> 0x40 \<le> b \<and> b \<le> 0x4F"

definition one_byte_opcode :: "u8 \<Rightarrow> bool" where
  "one_byte_opcode opc \<longleftrightarrow> 0x50 \<le> opc \<and> opc \<le> 0x5F \<or> opc \<in> {0x90, 0xC3, 0xC9}"

lemma scan_prefix_run:
  "list_all prefix_byte ps \<Longrightarrow> \<not> prefix_byte opc \<Longrightarrow>
   fst (scan_prefixes (ps @ opc # post) ov rex) = length ps"
  by (induction ps arbitrary: ov rex) (auto simp: prefix_byte_def)

lemma decode_one_byte_opcode:
  assumes "one_byte_opcode opc"
  shows "\<not> prefix_byte opc \<and> (\<exists>t. decode_opcode e opc c = Text_To t c)"
proof -
  from assms have "opc \<in> set (map word_of_nat [0x50..<0x60]) \<union> {0x90, 0xC3, 0xC9}"
  proof (cases "0x50 \<le> opc \<and> opc \<le> 0x5F")
    case True
    then have "unat opc \<in> {0x50..<0x60}" by (simp add: word_le_nat_alt)
    then have "opc \<in> word_of_nat ` {0x50..<0x60}" by (intro image_eqI [of _ _ "unat opc"]) simp_all
    then show ?thesis unfolding set_map set_upt by blast
  qed (auto simp: one_byte_opcode_def)
  moreover have "list_all (\<lambda>opc. \<not> prefix_byte opc) (map word_of_nat [0x50..<0x60] @ [0x90, 0xC3, 0xC9])"
    by code_simp
  ultimately have "\<not> prefix_byte opc" by (auto simp: list_all_iff)
  moreover have "\<exists>t. decode_opcode e opc c = Text_To t c"
  proof (cases "opc \<in> {0x90, 0xC3, 0xC9}")
    case True
    have "0xC3 \<notin> set modrm_group" by code_simp
    with True show ?thesis by (elim insertE emptyE) (simp_all add: decode_opcode_def Let_def)
  next
    case False
    with assms have "0x50 \<le> opc" "opc \<le> 0x5F" by (auto simp: one_byte_opcode_def)
    moreover from this have "opc \<le> 0x57 \<or> 0x58 \<le> opc" by unat_arith
    ultimately show ?thesis by (auto simp: decode_opcode_def Let_def)
  qed
  ultimately show ?thesis by blast
qed

text \<open>C18 (safety). Known defect: behind a run of prefix bytes of any length the decoder accepts a one byte instruction. Up
  to fourteen prefixes it decodes to exactly these bytes; from fifteen prefixes on the decoder copies the
  prefixes and the opcode, more than fifteen bytes, into its array of fifteen.\<close>

theorem prefix_run_overruns:
  assumes "list_all prefix_byte ps" "one_byte_opcode opc"
  shows "if length ps < 15
    then \<exists>t. decode_one (pre @ ps @ opc # post) base (length pre) = Decoded \<lparr>dis_bytes = ps @ [opc], dis_text = t\<rparr>
    else decode_one (pre @ ps @ opc # post) base (length pre) = Bytes_Overrun (length ps + 1)"
proof -
  let ?code = "pre @ ps @ opc # post"
  obtain ov rex where scan: "scan_prefixes (ps @ opc # post) False 0 = (length ps, ov, rex)"
    using scan_prefix_run [OF assms(1), of opc post False 0] decode_one_byte_opcode [OF assms(2)] by (metis prod.collapse)
  obtain t where "decode_opcode \<lparr>de_code = ?code, de_base = base, de_start = length pre, de_override = ov, de_rex = rex\<rparr>
      opc (length pre + length ps + 1) = Text_To t (length pre + length ps + 1)"
    using decode_one_byte_opcode [OF assms(2)] by blast
  moreover have "byte_at ?code (length pre + length ps) = Some opc" by (simp add: byte_at_def nth_append)
  ultimately have "decode_one ?code base (length pre) =
      finish_step ?code (length pre) (Text_To t (length pre + length (ps @ [opc])))"
    by (simp add: decode_one_def scan with_byte_def Let_def)
  then show ?thesis
    using finish_form [of "ps @ [opc]" pre post t] by (simp add: finish_step_def Let_def)
qed

lemma prefix_run_overruns_witness:
  "decode_one (replicate 16 0x66 @ [0x90]) 0x400000 0 = Bytes_Overrun 17"
  using prefix_run_overruns [of "replicate 16 0x66" "0x90" "[]" "[]" "0x400000"]
  by (simp add: prefix_byte_def one_byte_opcode_def list_all_iff)

text \<open>C19 (roundtrip). The name of a register, in any capitalisation, parses to the same register and size.\<close>

theorem register_names_parse:
  assumes "register_name r sz \<noteq> ''???''" "strcase_eq name (register_name r sz)"
  shows "parse_register name = (r, sz)"
  using parse_listed_name [OF register_name_listed [OF assms(1)] assms(2)] .

lemma register_names_parse_witness: "parse_register ''R13D'' = (13, REG_SIZE_32)"
proof (rule register_names_parse)
  have "register_name 13 REG_SIZE_32 = ''r13d''"
    by (simp add: register_name_def reg_table_def)
  then show "register_name 13 REG_SIZE_32 \<noteq> ''???''" "strcase_eq ''R13D'' (register_name 13 REG_SIZE_32)"
    by (simp_all add: strcase_eq_def c_tolower_def char_of_def bit_0 bit_Suc)
qed

section \<open>Operand forms\<close>

text \<open>C20 (roundtrip). Operands without a label that have a form of their own: registers, and memory operands that
  are rip-relative, absolute, or have a base and possibly an index other than rsp (with a displacement
  when an index stands beside rbp or r13). Their ModRM, SIB and displacement bytes are those of the
  form, and decode, given the REX bits of the operand and whatever follows, to the same register
  or address. One exception is a known defect: the decoder drops the index r12.\<close>

theorem operand_form_roundtrip:
  assumes "has_form op" "rex_covers rex op"
  shows "emits (emit_modrm_sib reg op sz) (operand_bytes reg op) \<and>
    decodes_to (operand_bytes reg op) rex
      (if r12_index op then Address (Some (nat (mem_base (op_mem op)))) None (mem_displacement (op_mem op))
       else operand_location op)"
  using emits_has_form [OF assms(1)] has_form_decodes [OF assms] by (simp add: shown_location_def)

lemma base_disp_ok: "operand_ok (base_disp_operand 13 0x80)" "operand_ok (base_disp_operand 5 0x80)"
  by (simp_all add: operand_ok_def mem_ok_def reg_code_ok_def operand_defs)

lemma operand_form_roundtrip_witness:
  "decodes_to (operand_bytes 0 (base_disp_operand 13 0x80)) 0x41 (Address (Some 13) None 0x80)"
proof -
  have "rex_covers 0x41 (base_disp_operand 13 0x80)"
    by (simp add: rex_covers_def rex_b_bit_def rex_x_bit_def operand_defs)
  from operand_form_roundtrip [OF _ this, where reg = 0] base_disp_ok(1) show ?thesis
    by (simp add: has_form_def r12_index_def operand_location_def operand_defs)
qed

text \<open>\<open>[r9+r12*8+0x10]\<close> is written with a form of its own, and read as \<open>[r9+0x10]\<close>.\<close>

lemma r12_index_dropped:
  assumes "op = no_operand\<lparr>op_type := OPERAND_MEM, op_mem := no_mem\<lparr>mem_has_base := True, mem_base := 9,
    mem_has_index := True, mem_index := 12, mem_scale := 8, mem_has_displacement := True, mem_displacement := 0x10\<rparr>\<rparr>"
  shows "decodes_to (operand_bytes 0 op) 0x4B (Address (Some 9) None 0x10)"
proof -
  have "has_form op" "rex_covers 0x4B op" "shown_location op = Address (Some 9) None 0x10"
    by (simp_all add: assms has_form_def r12_index_def reg_code_ok_def rex_covers_def rex_b_bit_def rex_x_bit_def
        no_mem_def no_operand_def Let_def shown_location_def)
  with has_form_decodes [where op = op and rex = "0x4B" and reg = 0] show ?thesis by simp
qed

section \<open>Instructions\<close>



lemma room_start: "room 8 start_ctx"
  by (simp add: room_def start_ctx_def asm_init_def)






text \<open>C24 (roundtrip). push and pop of a 64 bit register read back.\<close>

theorem stack_roundtrip:
  assumes "inst_operands inst = [op]" "op_type op = OPERAND_REG" "reg_code_ok (op_reg op)"
    and "inst_type inst = Stack_family k" "room 2 s"
  shows "\<exists>bs. encode_push_pop inst s = (Done, put_text bs s) \<and>
    (\<forall>pre post base. decode_one (pre @ bs @ post) base (length pre) = Decoded \<lparr>dis_bytes = bs,
       dis_text = (if k = INST_PUSH then ''push '' else ''pop '') @ register_name (op_reg op) REG_SIZE_64\<rparr>)"
proof -
  let ?opc = "if k = INST_PUSH then 0x50 else 0x58"
  have "encode_push_pop inst s = (Done, put_text (stack_reg_bytes ?opc op) s)"
    using push_pop_bytes [OF assms(1,2)] assms(4,5) length_rex_bytes [of False None "Some op" None]
    by (auto simp: emits_def stack_reg_bytes_def room_def)
  with stack_reads_back [OF _ assms(2,3), of ?opc] show ?thesis
    by (intro exI [of _ "stack_reg_bytes ?opc op"]) simp
qed

lemma stack_roundtrip_witness:
  "\<exists>bs. encode_push_pop (instruction (Stack_family INST_PUSH) [reg_operand 13 REG_SIZE_64]) start_ctx =
     (Done, put_text bs start_ctx) \<and>
     decode_one bs 0x400000 0 = Decoded \<lparr>dis_bytes = bs, dis_text = ''push '' @ ''r13''\<rparr>"
proof -
  have "register_name 13 REG_SIZE_64 = ''r13''" by (simp add: register_name_def reg_table_def)
  with stack_roundtrip [of "instruction (Stack_family INST_PUSH) [reg_operand 13 REG_SIZE_64]"
      "reg_operand 13 REG_SIZE_64" INST_PUSH start_ctx] obtain bs
    where "encode_push_pop (instruction (Stack_family INST_PUSH) [reg_operand 13 REG_SIZE_64]) start_ctx =
        (Done, put_text bs start_ctx)"
      "\<forall>pre post base. decode_one (pre @ bs @ post) base (length pre) =
        Decoded \<lparr>dis_bytes = bs, dis_text = ''push '' @ ''r13''\<rparr>"
    by (auto simp: instruction_def operand_defs reg_code_ok_def room_def start_ctx_def asm_init_def)
  then show ?thesis by (metis append_Nil append_Nil2 list.size(3))
qed

section \<open>Forms that denote another operand\<close>

lemma rex_r_only: "op_type op = OPERAND_REG \<Longrightarrow> 8 \<le> op_reg op \<Longrightarrow>
    rex_bytes False (Some op) None None = [0x44] \<and> rex_value False (Some op) None None = 0x44"
  by (simp add: rex_bytes_def rex_value_def rex_r_bit_def rex_x_bit_def rex_b_bit_def make_rex_def)

lemma mov_imm_opcode:
  "plain_opcode (0xB8 + low3 r)"
  "decode_opcode e (0xB8 + low3 r) c = decode_mov_imm e (0xB8 + low3 r) c"
proof -
  from low3_values [of r] show "plain_opcode (0xB8 + low3 r)"
    by (elim insertE emptyE disjE) (simp_all add: plain_opcode_def legacy_prefix_def)
  have "opc \<in> {0xB8, 0xB9, 0xBA, 0xBB, 0xBC, 0xBD, 0xBE, 0xBF} \<Longrightarrow>
      decode_opcode e opc c = decode_mov_imm e opc c" for opc
    by (elim insertE emptyE; simp add: decode_opcode_def Let_def)
  moreover have "0xB8 + low3 r \<in> {0xB8, 0xB9, 0xBA, 0xBB, 0xBC, 0xBD, 0xBE, 0xBF}"
    using low3_values [of r] by (elim insertE emptyE) simp_all
  ultimately show "decode_opcode e (0xB8 + low3 r) c = decode_mov_imm e (0xB8 + low3 r) c" by blast
qed

text \<open>C25 (functional). Known defect: a 32 bit mov of an immediate to r8d up to r15d sets REX.R where the form needs
  REX.B, so it writes the register eight lower.\<close>

theorem mov_imm_extended_register:
  assumes "inst_operands inst = [dst, src]" "gp_reg REG_SIZE_32 dst" "8 \<le> op_reg dst"
    and "op_type src = OPERAND_IMM" "room 8 s"
  shows "\<exists>bs. encode_mov inst s = (Done, put_text bs s) \<and>
    (\<forall>pre post base. decode_one (pre @ bs @ post) base (length pre) = Decoded \<lparr>dis_bytes = bs,
       dis_text = ''mov '' @ register_name (op_reg dst - 8) REG_SIZE_32 @ '', '' @
         hex_text (unat (ucast (op_immediate src) :: u32))\<rparr>)"
proof -
  let ?imm = "ucast (op_immediate src) :: u32" and ?opc = "0xB8 + low3 (op_reg dst)"
  let ?bs = "rex_bytes False (Some dst) None None @ ?opc # le32 ?imm"
  have dst: "op_type dst = OPERAND_REG" "op_reg_size dst = REG_SIZE_32" "op_reg dst < 16"
    using assms(2) by (simp_all add: gp_reg_def reg_code_ok_def)
  have "encode_mov inst = run_seq [emit_if (needs_rex dst \<or> needs_rex src) (emit_rex False (Some dst) None None),
      emit_byte ?opc, emit_le32 ?imm]"
    using no_conflict [OF assms(1), of REG_SIZE_32] assms(1,4) dst
    by (simp add: encode_mov_def encode_mov_reg_imm_def operation_size_def wide_def del: run_seq.simps)
  moreover have "needs_rex dst" using dst assms(3) by (simp add: needs_rex_def)
  moreover have "emits (run_seq [emit_rex False (Some dst) None None, emit_byte ?opc, emit_le32 ?imm]) ?bs"
    by (rule emits_eq [OF emits_Cons [OF emits_rex emits_run_seq2 [OF emits_emit_byte emits_emit_le(2)]]]) simp
  ultimately have run: "encode_mov inst s = (Done, put_text ?bs s)"
    using assms(5) rex_r_only [OF dst(1) assms(3)]
    by (simp add: emits_def emit_if_def [abs_def] room_def del: run_seq.simps put_text_simps)
  have "decode_one (pre @ ?bs @ post) base (length pre) = Decoded \<lparr>dis_bytes = ?bs,
      dis_text = ''mov '' @ register_name (op_reg dst - 8) REG_SIZE_32 @ '', '' @ hex_text (unat ?imm)\<rparr>"
    for pre post base
  proof -
    let ?code = "pre @ ?bs @ post"
    have code: "?code = pre @ rex_bytes False (Some dst) None None @ ?opc # le32 ?imm @ post" by simp
    have r: "unat (low3 (op_reg dst)) = nat (op_reg dst - 8)"
      using reg_code_split [of "op_reg dst"] dst(3) assms(3) by (simp add: reg_code_ok_def)
    have name: "select_reg_name (nat (op_reg dst - 8)) 32 True = register_name (op_reg dst - 8) REG_SIZE_32"
      using register_name_agrees(2) [of "op_reg dst - 8"] dst(3) assms(3)
      by (simp add: reg_code_ok_def select_reg_name_def)
    have imm: "read_le32 ?code (length pre + 2) = Some ?imm"
      using read_le32_shift [of pre "0x44 # ?opc # le32 ?imm @ post" 2] rex_r_only [OF dst(1) assms(3)]
      by (simp add: numeral_2_eq_2)
    have "decode_one ?code base (length pre) = finish_step ?code (length pre)
        (decode_mov_imm (form_env ?code base (length pre) 0x44) ?opc (length pre + 2))"
      unfolding code decode_one_opcode [OF mov_imm_opcode(1)] mov_imm_opcode(2)
      using rex_r_only [OF dst(1) assms(3)] by simp
    also have "decode_mov_imm (form_env ?code base (length pre) 0x44) ?opc (length pre + 2) =
        Text_To (''mov '' @ register_name (op_reg dst - 8) REG_SIZE_32 @ '', '' @ hex_text (unat ?imm))
          (length pre + length ?bs)"
      using imm r name rex_r_only [OF dst(1) assms(3)]
      by (simp add: decode_mov_imm_def with_imm32_def de_w_def de_bits_def de_name_def rex_ext_def Let_def)
    also have "finish_step ?code (length pre) \<dots> = Decoded \<lparr>dis_bytes = ?bs, dis_text =
        ''mov '' @ register_name (op_reg dst - 8) REG_SIZE_32 @ '', '' @ hex_text (unat ?imm)\<rparr>"
      using rex_r_only [OF dst(1) assms(3)] by (intro finish_form) simp_all
    finally show ?thesis .
  qed
  with run show ?thesis by blast
qed

lemma mov_imm_extended_register_witness:
  "\<exists>bs. encode_mov (instruction (Mov_family INST_MOV) [reg_operand 8 REG_SIZE_32, imm_operand 1]) start_ctx =
     (Done, put_text bs start_ctx) \<and>
     decode_one bs 0 0 = Decoded \<lparr>dis_bytes = bs, dis_text = ''mov '' @ ''eax'' @ '', '' @ hex_text 1\<rparr>"
proof -
  have "register_name 0 REG_SIZE_32 = ''eax''" by (simp add: register_name_def reg_table_def)
  with mov_imm_extended_register [of "instruction (Mov_family INST_MOV) [reg_operand 8 REG_SIZE_32, imm_operand 1]"
      "reg_operand 8 REG_SIZE_32" "imm_operand 1" start_ctx] room_start obtain bs
    where "encode_mov (instruction (Mov_family INST_MOV) [reg_operand 8 REG_SIZE_32, imm_operand 1]) start_ctx =
        (Done, put_text bs start_ctx)"
      "\<forall>pre post base. decode_one (pre @ bs @ post) base (length pre) =
        Decoded \<lparr>dis_bytes = bs, dis_text = ''mov '' @ ''eax'' @ '', '' @ hex_text 1\<rparr>"
    by (auto simp: instruction_def operand_defs gp_reg_def reg_code_ok_def)
  then show ?thesis by (metis append_Nil append_Nil2 list.size(3))
qed

text \<open>C26 (functional). Known defect: a memory operand with an index and no base is written in a form that denotes
  rbp plus the index, whatever the displacement. (Stated for the indices the decoder shows, all but r12.)\<close>

theorem index_without_base_reads_rbp:
  assumes "op_type op = OPERAND_MEM" "mem_has_index mem" "\<not> mem_has_base mem" "mem = op_mem op"
    and "\<not> mem_is_rip_relative mem" "reg_code_ok (mem_index mem)" "low3 (mem_index mem) \<noteq> 4"
    and "mem_scale mem \<in> {1, 2, 4, 8}" "rex_covers rex op"
  shows "\<exists>bs. emits (emit_modrm_sib reg op sz) bs \<and> decodes_to bs rex
    (Address (Some 5) (Some (nat (mem_index mem), nat (mem_scale mem))) (mem_displacement mem))"
proof -
  let ?sib = "make_sib (word_of_int (mem_scale mem)) (low3 (mem_index mem)) 5"
  let ?short = "mem_has_displacement mem \<and> fits_in_int8 (mem_displacement mem) \<and> mem_displacement mem \<noteq> 0"
  let ?bs = "if ?short then [make_modrm 1 reg 4, ?sib, ucast (mem_displacement mem)]
     else make_modrm 2 reg 4 # ?sib # le32 (mem_displacement mem)"
  have "emits (emit_mem_indexed reg mem) ?bs"
    using assms(3) unfolding emit_mem_indexed_def Let_def
    by (auto simp del: run_seq.simps intro!: emits_eq [OF emits_Cons] emits_intro simp: emit_if_def)
  then have e: "emits (emit_modrm_sib reg op sz) ?bs"
    using assms by (auto simp: emit_modrm_sib_def)
  have index: "unat (low3 (mem_index mem)) + rex_ext (Suc 0) rex = nat (mem_index mem)"
    using assms reg_code_split [of "mem_index mem"] rex_ext_covers(1) [of rex op] by simp
  have base: "rex_ext 0 rex = 0"
    using assms by (simp add: rex_ext_def rex_covers_def rex_b_bit_def)
  have "mem_scale mem = 1 \<or> mem_scale mem = 2 \<or> mem_scale mem = 4 \<or> mem_scale mem = 8"
    using assms(8) by simp
  then have "decodes_to ?bs rex
      (Address (Some 5) (Some (nat (mem_index mem), nat (mem_scale mem))) (mem_displacement mem))"
    by (elim disjE)
      (use index base assms(7) in \<open>auto simp: decodes_to_def parse_form_simps\<close>)
  with e show ?thesis by blast
qed

lemma index_without_base_reads_rbp_witness:
  "\<exists>bs. emits (emit_modrm_sib 0 (index_operand 1 4 0x10) REG_SIZE_64) bs \<and>
     decodes_to bs 0x48 (Address (Some 5) (Some (1, 4)) 0x10)"
proof -
  have "rex_covers 0x48 (index_operand 1 4 0x10)"
    by (simp add: rex_covers_def rex_b_bit_def rex_x_bit_def operand_defs index_operand_def)
  from index_without_base_reads_rbp [OF _ _ _ refl _ _ _ _ this, of 0 REG_SIZE_64] show ?thesis
    by (simp add: index_operand_def operand_defs reg_code_ok_def low3_def)
qed

text \<open>C27 (error). Known defect: a base of rbp or r13 with an index and no displacement is written in two bytes that
  announce a displacement of four more.\<close>

theorem index_on_rbp_incomplete:
  assumes "op_type op = OPERAND_MEM" "mem = op_mem op" "mem_has_index mem" "mem_has_base mem"
    and "\<not> mem_has_displacement mem" "mem_base mem = 5 \<or> mem_base mem = 13"
    and "\<not> mem_is_rip_relative mem" "mem_scale mem \<in> {1, 2, 4, 8}"
  shows "\<exists>bs. length bs = 2 \<and> emits (emit_modrm_sib reg op sz) bs \<and> parse_rm bs 0 rex = None"
proof -
  let ?bs = "[make_modrm 0 reg 4, make_sib (word_of_int (mem_scale mem)) (low3 (mem_index mem)) 5]"
  have b5: "low3 (mem_base mem) = 5" using assms(6) by (auto simp: low3_def)
  have "emits (emit_mem_indexed reg mem) ?bs"
    using assms(4,5) b5 unfolding emit_mem_indexed_def Let_def
    by (auto simp del: run_seq.simps intro!: emits_eq [OF emits_Cons] emits_intro simp: emit_if_def)
  then have "emits (emit_modrm_sib reg op sz) ?bs"
    using assms by (auto simp: emit_modrm_sib_def)
  moreover have "parse_rm ?bs 0 rex = None"
    using assms(8) by (auto simp: parse_form_simps read_disp_def read_le32_def byte_at_def)
  ultimately show ?thesis by (intro exI [of _ ?bs]) simp
qed

lemma index_on_rbp_incomplete_witness:
  "\<exists>bs. length bs = 2 \<and> parse_rm bs 0 0 = None \<and>
     emits (emit_modrm_sib 0 (no_operand\<lparr>op_type := OPERAND_MEM,
       op_mem := no_mem\<lparr>mem_base := 13, mem_has_base := True, mem_index := 1, mem_has_index := True\<rparr>\<rparr>) REG_SIZE_64) bs"
  using index_on_rbp_incomplete [of "no_operand\<lparr>op_type := OPERAND_MEM,
      op_mem := no_mem\<lparr>mem_base := 13, mem_has_base := True, mem_index := 1, mem_has_index := True\<rparr>\<rparr>",
      OF _ refl, of 0 REG_SIZE_64 0]
  by (auto simp: no_operand_def no_mem_def)

end
