(* ===== verification/Name_Distance.thy ===== *)
theory Name_Distance
  imports Asm_Types
begin

text \<open>
  The spelling suggestions: \<open>symbol_name_distance\<close> and \<open>find_closest_symbol_name\<close> of
  src/x86_64_asm.c, and their twin \<open>instruction_name_distance\<close> in src/x86_64_parser.c. The two
  row arrays of the C loops are lists; \<open>aligned\<close> is the specification of the distance, the
  edit scripts between two words.
\<close>

section \<open>The two-row computation\<close>

definition min3_int :: "int \<Rightarrow> int \<Rightarrow> int \<Rightarrow> int" where
  "min3_int a b c = (let m = (if a < b then a else b) in if m < c then m else c)"

text \<open>The inner loop from column \<open>j\<close> on: the rest of the right word, the previous row from
  column \<open>j - 1\<close>, and the entry just written at \<open>j - 1\<close>.\<close>

fun distance_row :: "char \<Rightarrow> string \<Rightarrow> int list \<Rightarrow> int \<Rightarrow> int list" where
  "distance_row lc (rc # rcs) (p # q # ps) left =
     (let cost = (if lc = c_tolower rc then 0 else 1);
          v = min3_int (q + 1) (left + 1) (p + cost)
      in v # distance_row lc rcs (q # ps) v)"
| "distance_row lc _ _ left = []"

fun distance_rows :: "nat \<Rightarrow> string \<Rightarrow> string \<Rightarrow> int list \<Rightarrow> int list" where
  "distance_rows i [] rhs prev = prev"
| "distance_rows i (c # cs) rhs prev =
     distance_rows (Suc i) cs rhs (int i # distance_row (c_tolower c) rhs prev (int i))"

definition symbol_name_distance :: "string \<Rightarrow> string \<Rightarrow> int" where
  "symbol_name_distance lhs rhs =
     (if 63 < length lhs \<or> 63 < length rhs then 999
      else distance_rows 1 lhs rhs (map int [0..<length rhs + 1]) ! length rhs)"

text \<open>The candidates of the symbol array: not empty and not an internal name.\<close>

fun closest_name :: "string \<Rightarrow> string list \<Rightarrow> string option \<Rightarrow> int \<Rightarrow> string option \<times> int" where
  "closest_name name [] best best_dist = (best, best_dist)"
| "closest_name name (candidate # cs) best best_dist =
     (let dist = symbol_name_distance name candidate in
      if candidate = [] \<or> take 2 candidate = ''__'' then closest_name name cs best best_dist
      else if dist < best_dist then closest_name name cs (Some candidate) dist
      else closest_name name cs best best_dist)"

definition find_closest_symbol_name :: "asm_ctx \<Rightarrow> string \<Rightarrow> string option \<times> int" where
  "find_closest_symbol_name ctx name =
     (if name = [] then (None, 999) else closest_name name (map sym_name (symbols ctx)) None 999)"

section \<open>Edit scripts\<close>

inductive aligned :: "'a list \<Rightarrow> 'a list \<Rightarrow> int \<Rightarrow> bool" where
  Stop: "aligned [] [] 0"
| Keep: "aligned xs ys n \<Longrightarrow> aligned (x # xs) (x # ys) n"
| Replace: "aligned xs ys n \<Longrightarrow> aligned (x # xs) (y # ys) (n + 1)"
| Insert: "aligned xs ys n \<Longrightarrow> aligned xs (y # ys) (n + 1)"
| Delete: "aligned xs ys n \<Longrightarrow> aligned (x # xs) ys (n + 1)"

inductive_cases aligned_nilE: "aligned [] ys n" "aligned xs [] n"
inductive_cases aligned_consE: "aligned (x # xs) (y # ys) n"

text \<open>The least cost by recursion on the two words.\<close>

fun lev :: "'a list \<Rightarrow> 'a list \<Rightarrow> int" where
  "lev [] ys = int (length ys)"
| "lev xs [] = int (length xs)"
| "lev (x # xs) (y # ys) =
     min3_int (lev xs (y # ys) + 1) (lev (x # xs) ys + 1) (lev xs ys + (if x = y then 0 else 1))"

lemma lev_nil [simp]: "lev xs [] = int (length xs)"
  by (cases xs) simp_all

lemma min3_int_le: "min3_int a b c \<le> a" "min3_int a b c \<le> b" "min3_int a b c \<le> c"
  and min3_int_cases: "min3_int a b c = a \<or> min3_int a b c = b \<or> min3_int a b c = c"
  by (simp_all add: min3_int_def Let_def)

lemma aligned_nil: "aligned [] ys (int (length ys))" "aligned xs [] (int (length xs))"
proof -
  show "aligned [] ys (int (length ys))"
    by (induction ys) (auto intro: aligned.Stop dest: aligned.Insert simp: add.commute)
  show "aligned xs [] (int (length xs))"
    by (induction xs) (auto intro: aligned.Stop dest: aligned.Delete simp: add.commute)
qed

lemma aligned_lev: "aligned xs ys (lev xs ys)"
proof (induction xs ys rule: lev.induct)
  case (1 ys)
  show ?case using aligned_nil(1) [of ys] by simp
next
  case (2 v va)
  show ?case using aligned_nil(2) [of "v # va"] by simp
next
  case (3 x xs y ys)
  have "aligned (x # xs) (y # ys) (lev xs ys + (if x = y then 0 else 1))"
    using aligned.Keep [OF 3(3)] aligned.Replace [OF 3(3)] by simp
  then show ?case
    using min3_int_cases [of "lev xs (y # ys) + 1" "lev (x # xs) ys + 1"
        "lev xs ys + (if x = y then 0 else 1)"]
      aligned.Delete [OF 3(1)] aligned.Insert [OF 3(2)] by auto
qed

lemma lev_cons_le: "lev (x # xs) ys \<le> lev xs ys + 1" "lev xs (y # ys) \<le> lev xs ys + 1"
  by (cases ys; cases xs; use min3_int_le in \<open>force simp: algebra_simps\<close>)+

lemma lev_least: "aligned xs ys n \<Longrightarrow> lev xs ys \<le> n"
proof (induction rule: aligned.induct)
  case (Keep xs ys n x)
  then show ?case by (simp add: min3_int_def Let_def)
next
  case (Replace xs ys n x y)
  then show ?case by (simp add: min3_int_def Let_def)
next
  case (Insert xs ys n y)
  then show ?case using lev_cons_le(2) [of xs y ys] by linarith
next
  case (Delete xs ys n x)
  then show ?case using lev_cons_le(1) [of x xs ys] by linarith
qed simp

lemma aligned_append: "aligned xs ys m \<Longrightarrow> aligned us vs n \<Longrightarrow> aligned (xs @ us) (ys @ vs) (m + n)"
proof (induction rule: aligned.induct)
  case (Replace xs ys m x y)
  from aligned.Replace [OF Replace.IH [OF Replace.prems], of x y] show ?case by (simp add: algebra_simps)
next
  case (Insert xs ys m y)
  from aligned.Insert [OF Insert.IH [OF Insert.prems], of y] show ?case by (simp add: algebra_simps)
next
  case (Delete xs ys m x)
  from aligned.Delete [OF Delete.IH [OF Delete.prems], of x] show ?case by (simp add: algebra_simps)
qed (simp_all add: aligned.Keep)

lemma aligned_single: "aligned [x] [x] 0" "aligned [x] [y] 1" "aligned [] [y] 1" "aligned [x] [] 1"
  using aligned.Keep [OF aligned.Stop] aligned.Replace [OF aligned.Stop]
    aligned.Insert [OF aligned.Stop] aligned.Delete [OF aligned.Stop] by simp_all

lemma aligned_rev: "aligned xs ys n \<Longrightarrow> aligned (rev xs) (rev ys) n"
proof (induction rule: aligned.induct)
  case (Keep xs ys n x)
  from aligned_append [OF Keep.IH aligned_single(1), of x] show ?case by simp
next
  case (Replace xs ys n x y)
  from aligned_append [OF Replace.IH aligned_single(2), of x y] show ?case by simp
next
  case (Insert xs ys n y)
  from aligned_append [OF Insert.IH aligned_single(3), of y] show ?case by simp
next
  case (Delete xs ys n x)
  from aligned_append [OF Delete.IH aligned_single(4), of x] show ?case by simp
qed (simp add: aligned.Stop)

definition edit_distance :: "'a list \<Rightarrow> 'a list \<Rightarrow> int \<Rightarrow> bool" where
  "edit_distance xs ys n \<longleftrightarrow> aligned xs ys n \<and> (\<forall>m. aligned xs ys m \<longrightarrow> n \<le> m)"

lemma edit_distance_rev: "edit_distance (rev xs) (rev ys) n \<Longrightarrow> edit_distance xs ys n"
  unfolding edit_distance_def by (metis aligned_rev rev_rev_ident)

section \<open>The rows hold the distances of the prefixes\<close>

abbreviation lower :: "string \<Rightarrow> string" where
  "lower \<equiv> map c_tolower"

definition prefix_distance :: "string \<Rightarrow> string \<Rightarrow> int" where
  "prefix_distance xs ys = lev (rev (lower xs)) (rev (lower ys))"

lemma prefix_distance_nil: "prefix_distance [] ys = int (length ys)" "prefix_distance xs [] = int (length xs)"
  by (simp_all add: prefix_distance_def)

lemma prefix_distance_snoc:
  "prefix_distance (xs @ [x]) (ys @ [y]) = min3_int (prefix_distance xs (ys @ [y]) + 1)
     (prefix_distance (xs @ [x]) ys + 1)
     (prefix_distance xs ys + (if c_tolower x = c_tolower y then 0 else 1))"
  by (simp add: prefix_distance_def)

lemma distance_row_prefixes:
  "distance_row (c_tolower x) rcs (map (\<lambda>j. prefix_distance xs (done @ take j rcs)) [0..<Suc (length rcs)])
     (prefix_distance (xs @ [x]) done) =
   map (\<lambda>j. prefix_distance (xs @ [x]) (done @ take (Suc j) rcs)) [0..<length rcs]"
proof (induction rcs arbitrary: "done")
  case (Cons r rcs)
  have row: "map (\<lambda>j. prefix_distance xs (done @ take j (r # rcs))) [0..<Suc (length (r # rcs))] =
      prefix_distance xs done #
        map (\<lambda>j. prefix_distance xs ((done @ [r]) @ take j rcs)) [0..<Suc (length rcs)]"
    by (simp add: map_upt_Suc del: upt_Suc)
  obtain ps where ps: "map (\<lambda>j. prefix_distance xs ((done @ [r]) @ take j rcs)) [0..<Suc (length rcs)] =
      prefix_distance xs (done @ [r]) # ps"
    by (simp add: map_upt_Suc del: upt_Suc)
  have "distance_row (c_tolower x) (r # rcs)
      (prefix_distance xs done # prefix_distance xs (done @ [r]) # ps) (prefix_distance (xs @ [x]) done) =
    prefix_distance (xs @ [x]) (done @ [r]) # distance_row (c_tolower x) rcs
      (prefix_distance xs (done @ [r]) # ps) (prefix_distance (xs @ [x]) (done @ [r]))"
    by (simp add: prefix_distance_snoc Let_def)
  with Cons.IH [of "done @ [r]"] show ?case
    unfolding row ps by (simp add: map_upt_Suc del: upt_Suc)
qed simp

lemma distance_rows_prefixes:
  "distance_rows (Suc (length xs)) cs rhs (map (\<lambda>j. prefix_distance xs (take j rhs)) [0..<Suc (length rhs)]) =
   map (\<lambda>j. prefix_distance (xs @ cs) (take j rhs)) [0..<Suc (length rhs)]"
proof (induction cs arbitrary: xs)
  case (Cons c cs)
  from distance_row_prefixes [of c rhs xs "[]"] Cons.IH [of "xs @ [c]"] show ?case
    by (simp add: prefix_distance_nil map_upt_Suc add.commute del: upt_Suc)
qed simp

lemma symbol_name_distance_lev:
  assumes "length lhs \<le> 63" "length rhs \<le> 63"
  shows "symbol_name_distance lhs rhs = prefix_distance lhs rhs"
proof -
  have row: "map int [0..<length rhs + 1] = map (\<lambda>j. prefix_distance [] (take j rhs)) [0..<Suc (length rhs)]"
    by (simp add: prefix_distance_nil)
  have "distance_rows 1 lhs rhs (map int [0..<length rhs + 1]) =
      map (\<lambda>j. prefix_distance lhs (take j rhs)) [0..<Suc (length rhs)]"
    using distance_rows_prefixes [of "[]" lhs rhs] by (simp only: row) simp
  then show ?thesis
    using assms by (simp add: symbol_name_distance_def del: upt_Suc)
qed

end
