(* ===== verification/Labels.thy ===== *)
theory Labels
  imports Name_Distance
begin

text \<open>
  Local and anonymous labels (src/x86_64_asm.c): a label that starts with a dot belongs to the
  scope of the last global label, \<open>@@\<close> defines an anonymous one that \<open>@B\<close> and \<open>@F\<close> refer to.
  \<open>canonicalize_symbol_labels\<close> gives each a program-wide name, first in the definitions and
  then in the references. The alias table caches the names; \<open>scoped_name\<close> is what it caches.
\<close>

section \<open>Kinds of labels\<close>

definition is_local_label_name :: "string \<Rightarrow> bool" where
  "is_local_label_name name \<longleftrightarrow> (case name of c # _ # _ \<Rightarrow> c = CHR ''.'' | _ \<Rightarrow> False)"

definition is_anonymous_label_definition :: "string \<Rightarrow> bool" where
  "is_anonymous_label_definition name \<longleftrightarrow> name = ''@@''"

definition is_anonymous_backward_ref :: "string \<Rightarrow> bool" where
  "is_anonymous_backward_ref name \<longleftrightarrow> strcase_eq name ''@B''"

definition is_anonymous_forward_ref :: "string \<Rightarrow> bool" where
  "is_anonymous_forward_ref name \<longleftrightarrow> strcase_eq name ''@F''"

text \<open>\<open>%d\<close> of a count.\<close>

fun dec_of :: "nat \<Rightarrow> string" where
  "dec_of n = (if n < 10 then [char_of (48 + n)] else dec_of (n div 10) @ [char_of (48 + n mod 10)])"

declare dec_of.simps [simp del]

section \<open>The alias table\<close>

record local_label_alias =
  al_scope_id :: nat
  al_local_name :: string
  al_scoped_name :: string

record anonymous_label_def =
  an_instruction_index :: nat
  an_scoped_name :: string

definition build_scoped_local_label :: "nat \<Rightarrow> string \<Rightarrow> string option" where
  "build_scoped_local_label scope_id local_name =
     (if local_name = [] \<or> hd local_name \<noteq> CHR ''.'' then None
      else let written = ''__loc_'' @ dec_of scope_id @ ''_'' @ tl local_name in
        if MAX_LABEL_LENGTH \<le> length written then None else Some written)"

definition lookup_local_alias :: "local_label_alias list \<Rightarrow> nat \<Rightarrow> string \<Rightarrow> string option" where
  "lookup_local_alias aliases scope_id local_name =
     map_option (\<lambda>a. copy_bounded_text MAX_LABEL_LENGTH (al_scoped_name a))
       (find (\<lambda>a. al_scope_id a = scope_id \<and> al_local_name a = local_name) aliases)"

definition get_or_create_local_alias ::
  "local_label_alias list \<Rightarrow> nat \<Rightarrow> string \<Rightarrow> (string \<times> local_label_alias list) option" where
  "get_or_create_local_alias aliases scope_id local_name =
     (case lookup_local_alias aliases scope_id local_name of
        Some out \<Rightarrow> Some (out, aliases)
      | None \<Rightarrow>
          if MAX_SYMBOLS \<le> length aliases then None
          else (case build_scoped_local_label scope_id local_name of
              None \<Rightarrow> None
            | Some scoped \<Rightarrow> Some (copy_bounded_text MAX_LABEL_LENGTH scoped,
                aliases @ [\<lparr>al_scope_id = scope_id,
                  al_local_name = copy_bounded_text MAX_LABEL_LENGTH local_name,
                  al_scoped_name = scoped\<rparr>])))"

text \<open>Forwards the first definition behind the instruction, backwards the last one before it.\<close>

definition lookup_anonymous_ref :: "anonymous_label_def list \<Rightarrow> nat \<Rightarrow> bool \<Rightarrow> string option" where
  "lookup_anonymous_ref defs instruction_index forward =
     map_option (\<lambda>d. copy_bounded_text MAX_LABEL_LENGTH (an_scoped_name d))
       (if forward then find (\<lambda>d. instruction_index < an_instruction_index d) defs
        else find (\<lambda>d. an_instruction_index d < instruction_index) (rev defs))"

section \<open>References\<close>

text \<open>A label field after its reference is rewritten, with the alias table; \<open>None\<close> is the error
  return.\<close>

definition normalize_label_reference ::
  "string \<Rightarrow> nat \<Rightarrow> nat \<Rightarrow> anonymous_label_def list \<Rightarrow> local_label_alias list \<Rightarrow>
   (string \<times> local_label_alias list) option" where
  "normalize_label_reference label scope_id instruction_index anon_defs aliases =
     (if label = [] then Some (label, aliases)
      else if is_local_label_name label then
        map_option (apfst (copy_bounded_text MAX_LABEL_LENGTH))
          (get_or_create_local_alias aliases scope_id label)
      else if is_anonymous_forward_ref label then
        map_option (\<lambda>r. (copy_bounded_text MAX_LABEL_LENGTH r, aliases))
          (lookup_anonymous_ref anon_defs instruction_index True)
      else if is_anonymous_backward_ref label then
        map_option (\<lambda>r. (copy_bounded_text MAX_LABEL_LENGTH r, aliases))
          (lookup_anonymous_ref anon_defs instruction_index False)
      else Some (label, aliases))"

definition normalize_operand ::
  "nat \<Rightarrow> nat \<Rightarrow> anonymous_label_def list \<Rightarrow> operand \<Rightarrow> local_label_alias list \<Rightarrow>
   (operand \<times> local_label_alias list) option" where
  "normalize_operand scope_id i anon_defs op aliases =
     (let normalize = (\<lambda>l. normalize_label_reference l scope_id i anon_defs) in
      if op_type op = OPERAND_LABEL then
        map_option (apfst (\<lambda>l. op\<lparr>op_label := l\<rparr>)) (normalize (op_label op) aliases)
      else if op_type op = OPERAND_LABEL_DIFF then
        (case normalize (op_label op) aliases of
           None \<Rightarrow> None
         | Some (l, aliases1) \<Rightarrow>
             map_option (apfst (\<lambda>r. op\<lparr>op_label := l, op_label_rhs := r\<rparr>))
               (normalize (op_label_rhs op) aliases1))
      else if op_type op = OPERAND_MEM \<and> mem_label (op_mem op) \<noteq> [] then
        map_option (apfst (\<lambda>l. op\<lparr>op_mem := (op_mem op)\<lparr>mem_label := l\<rparr>\<rparr>))
          (normalize (mem_label (op_mem op)) aliases)
      else Some (op, aliases))"

fun normalize_operands ::
  "nat \<Rightarrow> nat \<Rightarrow> anonymous_label_def list \<Rightarrow> operand list \<Rightarrow> local_label_alias list \<Rightarrow>
   (operand list \<times> local_label_alias list) option" where
  "normalize_operands scope_id i anon_defs [] aliases = Some ([], aliases)"
| "normalize_operands scope_id i anon_defs (op # ops) aliases =
     (case normalize_operand scope_id i anon_defs op aliases of
        None \<Rightarrow> None
      | Some (op', aliases1) \<Rightarrow>
          map_option (apfst (Cons op')) (normalize_operands scope_id i anon_defs ops aliases1))"

section \<open>The two passes\<close>

record canon_state =
  cs_aliases :: "local_label_alias list"
  cs_anon_defs :: "anonymous_label_def list"
  cs_scope_id :: nat
  cs_anonymous_counter :: nat

definition canon_start :: canon_state where
  "canon_start = \<lparr>cs_aliases = [], cs_anon_defs = [], cs_scope_id = 0, cs_anonymous_counter = 0\<rparr>"

text \<open>Pass 1 on the instruction of index \<open>i\<close>: its label is rewritten.\<close>

definition canon_definition ::
  "nat \<Rightarrow> parsed_instruction \<Rightarrow> canon_state \<Rightarrow> (parsed_instruction \<times> canon_state) option" where
  "canon_definition i inst st =
     (if \<not> inst_has_label inst then Some (inst, st)
      else if is_anonymous_label_definition (inst_label inst) then
        (if MAX_SYMBOLS \<le> length (cs_anon_defs st) then None
         else let scoped = ''__anon_'' @ dec_of (cs_anonymous_counter st) in
           if MAX_LABEL_LENGTH \<le> length scoped then None
           else Some (inst\<lparr>inst_label := copy_bounded_text MAX_LABEL_LENGTH scoped\<rparr>,
             st\<lparr>cs_anonymous_counter := Suc (cs_anonymous_counter st),
                cs_anon_defs := cs_anon_defs st @
                  [\<lparr>an_instruction_index = i,
                    an_scoped_name = copy_bounded_text MAX_LABEL_LENGTH scoped\<rparr>]\<rparr>))
      else if is_local_label_name (inst_label inst) then
        (if lookup_local_alias (cs_aliases st) (cs_scope_id st) (inst_label inst) \<noteq> None then None
         else case get_or_create_local_alias (cs_aliases st) (cs_scope_id st) (inst_label inst) of
            None \<Rightarrow> None
          | Some (scoped, aliases) \<Rightarrow>
              Some (inst\<lparr>inst_label := copy_bounded_text MAX_LABEL_LENGTH scoped\<rparr>,
                st\<lparr>cs_aliases := aliases\<rparr>))
      else if inst_type inst \<noteq> Directive_family INST_EQU then
        Some (inst, st\<lparr>cs_scope_id := Suc (cs_scope_id st)\<rparr>)
      else Some (inst, st))"

fun canon_definitions ::
  "nat \<Rightarrow> parsed_instruction list \<Rightarrow> canon_state \<Rightarrow> (parsed_instruction list \<times> canon_state) option" where
  "canon_definitions i [] st = Some ([], st)"
| "canon_definitions i (inst # insts) st =
     (case canon_definition i inst st of
        None \<Rightarrow> None
      | Some (inst', st') \<Rightarrow>
          map_option (apfst (Cons inst')) (canon_definitions (Suc i) insts st'))"

text \<open>Pass 2: the labels that open a scope are those that the first pass did not rewrite.\<close>

definition opens_scope :: "parsed_instruction \<Rightarrow> bool" where
  "opens_scope inst \<longleftrightarrow>
     inst_has_label inst \<and> inst_type inst \<noteq> Directive_family INST_EQU \<and>
     \<not> is_local_label_name (inst_label inst) \<and>
     take 6 (inst_label inst) \<noteq> ''__loc_'' \<and> take 7 (inst_label inst) \<noteq> ''__anon_''"

fun canon_references ::
  "nat \<Rightarrow> nat \<Rightarrow> anonymous_label_def list \<Rightarrow> parsed_instruction list \<Rightarrow> local_label_alias list \<Rightarrow>
   parsed_instruction list option" where
  "canon_references i scope_id anon_defs [] aliases = Some []"
| "canon_references i scope_id anon_defs (inst # insts) aliases =
     (let scope = (if opens_scope inst then Suc scope_id else scope_id) in
      case normalize_operands scope i anon_defs (inst_operands inst) aliases of
        None \<Rightarrow> None
      | Some (ops, aliases1) \<Rightarrow>
          map_option (Cons (inst\<lparr>inst_operands := ops\<rparr>))
            (canon_references (Suc i) scope anon_defs insts aliases1))"

definition canonicalize_symbol_labels :: "parsed_instruction list \<Rightarrow> parsed_instruction list option" where
  "canonicalize_symbol_labels insts =
     (case canon_definitions 0 insts canon_start of
        None \<Rightarrow> None
      | Some (insts1, st) \<Rightarrow> canon_references 0 0 (cs_anon_defs st) insts1 (cs_aliases st))"

end
