(* ===== verification/Label_Binding.thy ===== *)
theory Label_Binding
  imports Labels
begin

text \<open>
  What canonicalisation means: \<open>canonical_label\<close> and \<open>canonical_ref\<close> give the new name of a
  definition and of a reference from the source program alone, without the alias table or the
  counters, and the two passes compute them. The names of different scopes are different, so
  a reference is bound to the definition of its own scope.
\<close>

section \<open>Decimal numbers and scoped names are unambiguous\<close>

definition dec_char :: "char \<Rightarrow> bool" where
  "dec_char c \<longleftrightarrow> 48 \<le> (of_char c :: nat) \<and> (of_char c :: nat) < 58"

definition dec_value :: "string \<Rightarrow> nat" where
  "dec_value = foldl (\<lambda>n c. 10 * n + (of_char c - 48)) 0"

lemma of_char_digit: "n < 10 \<Longrightarrow> of_char (char_of (48 + n) :: char) = (48 + n :: nat)"
  by simp

lemma dec_value_of: "dec_value (dec_of n) = n"
proof (induction n rule: dec_of.induct)
  case (1 n)
  show ?case
  proof (cases "n < 10")
    case True
    then show ?thesis by (subst dec_of.simps) (simp add: dec_value_def)
  next
    case False
    then show ?thesis using 1
      by (subst dec_of.simps) (simp add: dec_value_def)
  qed
qed

lemma dec_of_inject: "dec_of m = dec_of n \<longleftrightarrow> m = n"
  by (metis dec_value_of)

lemma dec_of_digits: "c \<in> set (dec_of n) \<Longrightarrow> dec_char c"
proof (induction n rule: dec_of.induct)
  case (1 n)
  then show ?case
    by (cases "n < 10"; subst (asm) (2) dec_of.simps)
      (auto simp: dec_char_def of_char_digit)
qed

lemma underscore_no_digit: "CHR ''_'' \<notin> set (dec_of n)"
  using dec_of_digits [of "CHR ''_''" n] by (auto simp: dec_char_def)

lemma split_at_first:
  assumes "x \<notin> set as" "x \<notin> set bs"
  shows "as @ x # cs = bs @ x # ds \<longleftrightarrow> as = bs \<and> cs = ds"
  using assms by (induction as arbitrary: bs) (case_tac bs; auto)+

lemma scoped_label_inject:
  assumes "build_scoped_local_label s n = Some l" "build_scoped_local_label t m = Some l"
  shows "s = t \<and> n = m"
proof -
  have n: "n = CHR ''.'' # tl n" "m = CHR ''.'' # tl m"
    and "dec_of s @ CHR ''_'' # tl n = dec_of t @ CHR ''_'' # tl m"
    using assms by (auto simp: build_scoped_local_label_def Let_def neq_Nil_conv split: if_splits)
  then have "dec_of s = dec_of t \<and> tl n = tl m"
    by (simp add: split_at_first underscore_no_digit)
  then show ?thesis using n dec_of_inject [of s t] by metis
qed

section \<open>The specification\<close>

definition anon_site :: "parsed_instruction \<Rightarrow> bool" where
  "anon_site inst \<longleftrightarrow> inst_has_label inst \<and> is_anonymous_label_definition (inst_label inst)"

definition global_label :: "parsed_instruction \<Rightarrow> bool" where
  "global_label inst \<longleftrightarrow> inst_has_label inst \<and> inst_type inst \<noteq> Directive_family INST_EQU \<and>
     \<not> is_local_label_name (inst_label inst) \<and> \<not> is_anonymous_label_definition (inst_label inst)"

text \<open>The number of anonymous definitions and of global labels among the first instructions.\<close>

definition anon_before :: "parsed_instruction list \<Rightarrow> nat \<Rightarrow> nat" where
  "anon_before insts i = length (filter anon_site (take i insts))"

definition scope_at :: "parsed_instruction list \<Rightarrow> nat \<Rightarrow> nat" where
  "scope_at insts i = length (filter global_label (take (Suc i) insts))"

definition anon_name :: "nat \<Rightarrow> string" where
  "anon_name k = ''__anon_'' @ dec_of k"

definition canonical_label :: "parsed_instruction list \<Rightarrow> nat \<Rightarrow> string option" where
  "canonical_label insts i =
     (let l = inst_label (insts ! i) in
      if \<not> inst_has_label (insts ! i) then Some l
      else if is_anonymous_label_definition l then Some (anon_name (anon_before insts i))
      else if is_local_label_name l then build_scoped_local_label (scope_at insts i) l
      else Some l)"

definition canonical_ref :: "parsed_instruction list \<Rightarrow> nat \<Rightarrow> string \<Rightarrow> string option" where
  "canonical_ref insts i l =
     (if is_local_label_name l then build_scoped_local_label (scope_at insts i) l
      else if is_anonymous_forward_ref l then
        (if anon_before insts (Suc i) < anon_before insts (length insts)
         then Some (anon_name (anon_before insts (Suc i))) else None)
      else if is_anonymous_backward_ref l then
        (if 0 < anon_before insts i then Some (anon_name (anon_before insts i - 1)) else None)
      else Some l)"

text \<open>Labels fit their fields and none is spelt like a generated name.\<close>

definition plain_names :: "parsed_instruction list \<Rightarrow> bool" where
  "plain_names insts \<longleftrightarrow> (\<forall>inst \<in> set insts.
     length (inst_label inst) < MAX_LABEL_LENGTH \<and>
     take 6 (inst_label inst) \<noteq> ''__loc_'' \<and> take 7 (inst_label inst) \<noteq> ''__anon_'' \<and>
     (\<forall>op \<in> set (inst_operands inst). length (op_label op) < MAX_LABEL_LENGTH \<and>
        length (op_label_rhs op) < MAX_LABEL_LENGTH \<and>
        length (mem_label (op_mem op)) < MAX_LABEL_LENGTH))"

section \<open>The alias table is a cache\<close>

definition alias_ok :: "local_label_alias list \<Rightarrow> bool" where
  "alias_ok aliases \<longleftrightarrow> (\<forall>a \<in> set aliases.
     build_scoped_local_label (al_scope_id a) (al_local_name a) = Some (al_scoped_name a))"

lemma build_scoped_length: "build_scoped_local_label s n = Some l \<Longrightarrow> length l < MAX_LABEL_LENGTH"
  by (auto simp: build_scoped_local_label_def Let_def split: if_splits)

lemma lookup_local_alias_scoped:
  assumes "alias_ok aliases" "lookup_local_alias aliases s n = Some out"
  shows "build_scoped_local_label s n = Some out"
  using assms build_scoped_length
  by (fastforce simp: lookup_local_alias_def alias_ok_def copy_bounded_text_id dest: find_SomeD)

lemma get_or_create_scoped:
  assumes "alias_ok aliases" "length n < MAX_LABEL_LENGTH"
    and "get_or_create_local_alias aliases s n = Some (out, aliases')"
  shows "build_scoped_local_label s n = Some out \<and> alias_ok aliases'"
proof (cases "lookup_local_alias aliases s n")
  case None
  with assms show ?thesis
    by (auto simp: get_or_create_local_alias_def alias_ok_def copy_bounded_text_id
        build_scoped_length split: if_splits option.splits)
next
  case (Some l)
  with assms lookup_local_alias_scoped [OF assms(1) Some] show ?thesis
    by (simp add: get_or_create_local_alias_def)
qed

section \<open>The table of the anonymous definitions\<close>

definition anon_sites :: "parsed_instruction list \<Rightarrow> nat list" where
  "anon_sites insts = filter (\<lambda>j. anon_site (insts ! j)) [0..<length insts]"

definition anon_table :: "nat list \<Rightarrow> anonymous_label_def list" where
  "anon_table sites =
     map (\<lambda>(k, j). \<lparr>an_instruction_index = j, an_scoped_name = anon_name k\<rparr>) (enumerate 0 sites)"

lemma anon_sites_snoc:
  "anon_sites (insts @ [x]) = anon_sites insts @ (if anon_site x then [length insts] else [])"
proof -
  have "filter (\<lambda>j. anon_site ((insts @ [x]) ! j)) [0..<length insts] = anon_sites insts"
    unfolding anon_sites_def by (rule filter_cong) (simp_all add: nth_append)
  then show ?thesis by (simp add: anon_sites_def)
qed

lemma anon_sites_below_length: "j \<in> set (anon_sites insts) \<Longrightarrow> j < length insts"
  by (simp add: anon_sites_def)

lemma sites_below: "length (filter (\<lambda>j. j < i) (anon_sites insts)) = anon_before insts i"
proof (induction insts rule: rev_induct)
  case (snoc x insts)
  have all: "filter (\<lambda>j. j < i) (anon_sites insts) = anon_sites insts" if "length insts < i"
    using that anon_sites_below_length [of _ insts] by (force simp: filter_id_conv)
  show ?case
    using snoc all by (cases "length insts < i") (auto simp: anon_sites_snoc anon_before_def)
qed (simp add: anon_sites_def anon_before_def)

lemma anon_sites_count: "length (anon_sites insts) = anon_before insts (length insts)"
  using sites_below [of "length insts" insts] anon_sites_below_length [of _ insts]
  by (simp add: filter_id_conv [THEN iffD2])

lemma anon_sites_sorted: "sorted (anon_sites insts)"
  by (simp add: anon_sites_def sorted_filter [of id, simplified])

lemma find_next_site:
  assumes "sorted sites"
  shows "find (\<lambda>(k, j). i < j) (enumerate n sites) =
    (let m = length (filter (\<lambda>j. j < Suc i) sites) in
     if m < length sites then Some (n + m, sites ! m) else None)"
  using assms
proof (induction sites arbitrary: n)
  case (Cons s sites)
  show ?case
  proof (cases "i < s")
    case True
    then have "filter (\<lambda>j. j < Suc i) sites = []"
      using Cons.prems by (force simp: filter_empty_conv)
    with True show ?thesis by simp
  next
    case False
    with Cons show ?thesis by (simp add: Let_def)
  qed
qed simp

lemma find_last_site:
  assumes "sorted sites"
  shows "find (\<lambda>(k, j). j < i) (rev (enumerate n sites)) =
    (let m = length (filter (\<lambda>j. j < i) sites) in
     if 0 < m then Some (n + m - 1, sites ! (m - 1)) else None)"
  using assms
proof (induction sites rule: rev_induct)
  case (snoc s sites)
  then have IH: "find (\<lambda>(k, j). j < i) (rev (enumerate n sites)) =
    (let m = length (filter (\<lambda>j. j < i) sites) in
     if 0 < m then Some (n + m - 1, sites ! (m - 1)) else None)"
    by (simp add: sorted_append)
  show ?case
  proof (cases "s < i")
    case True
    then have "filter (\<lambda>j. j < i) sites = sites"
      using snoc.prems by (force simp: sorted_append filter_id_conv)
    with True show ?thesis by (simp add: enumerate_append_eq)
  next
    case False
    have "filter (\<lambda>j. j < i) sites \<noteq> [] \<Longrightarrow> length (filter (\<lambda>j. j < i) sites) - Suc 0 < length sites"
      using length_filter_le [of "\<lambda>j. j < i" sites] by (cases sites) (auto simp: less_Suc_eq_le)
    with False IH show ?thesis
      by (auto simp: enumerate_append_eq Let_def nth_append)
  qed
qed simp

lemma find_map: "find P (map f xs) = map_option f (find (P \<circ> f) xs)"
  by (induction xs) auto

lemma lookup_anonymous:
  assumes "\<And>k. k < anon_before insts (length insts) \<Longrightarrow> length (anon_name k) < MAX_LABEL_LENGTH"
  shows "lookup_anonymous_ref (anon_table (anon_sites insts)) i True =
      (if anon_before insts (Suc i) < anon_before insts (length insts)
       then Some (anon_name (anon_before insts (Suc i))) else None)"
    and "lookup_anonymous_ref (anon_table (anon_sites insts)) i False =
      (if 0 < anon_before insts i then Some (anon_name (anon_before insts i - 1)) else None)"
proof -
  have le: "anon_before insts i \<le> anon_before insts (length insts)"
    unfolding sites_below [symmetric] anon_sites_count [symmetric]
    by (rule le_trans [OF length_filter_le]) (simp add: sites_below anon_sites_count)
  show "lookup_anonymous_ref (anon_table (anon_sites insts)) i True =
      (if anon_before insts (Suc i) < anon_before insts (length insts)
       then Some (anon_name (anon_before insts (Suc i))) else None)"
    using find_next_site [OF anon_sites_sorted, of i 0 insts] assms
    by (auto simp: lookup_anonymous_ref_def anon_table_def find_map comp_def case_prod_unfold
        sites_below anon_sites_count Let_def copy_bounded_text_id)
  show "lookup_anonymous_ref (anon_table (anon_sites insts)) i False =
      (if 0 < anon_before insts i then Some (anon_name (anon_before insts i - 1)) else None)"
    using find_last_site [OF anon_sites_sorted, of i 0 insts] assms le
    by (auto simp: lookup_anonymous_ref_def anon_table_def find_map comp_def case_prod_unfold
        rev_map sites_below Let_def copy_bounded_text_id)
qed

section \<open>The first pass\<close>

definition canon_inv :: "parsed_instruction list \<Rightarrow> canon_state \<Rightarrow> bool" where
  "canon_inv pre st \<longleftrightarrow>
     cs_scope_id st = length (filter global_label pre) \<and>
     cs_anonymous_counter st = anon_before pre (length pre) \<and>
     cs_anon_defs st = anon_table (anon_sites pre) \<and> alias_ok (cs_aliases st) \<and>
     (\<forall>k < cs_anonymous_counter st. length (anon_name k) < MAX_LABEL_LENGTH)"

lemma anon_table_snoc:
  "anon_table (sites @ [j]) = anon_table sites @
     [\<lparr>an_instruction_index = j, an_scoped_name = anon_name (length sites)\<rparr>]"
  by (simp add: anon_table_def enumerate_append_eq)

lemma anon_before_append:
  "i \<le> length pre \<Longrightarrow> anon_before (pre @ rest) i = anon_before pre i"
  by (simp add: anon_before_def)

lemma scope_at_append: "i < length pre \<Longrightarrow> scope_at (pre @ rest) i = scope_at pre i"
  by (simp add: scope_at_def Suc_leI)

lemma canonical_label_append:
  "i < length pre \<Longrightarrow> canonical_label (pre @ rest) i = canonical_label pre i"
  by (simp add: canonical_label_def nth_append anon_before_append scope_at_append Let_def)

lemma canon_definition_step:
  assumes inv: "canon_inv pre st" and len: "length (inst_label inst) < MAX_LABEL_LENGTH"
    and step: "canon_definition (length pre) inst st = Some (inst', st')"
  shows "canon_inv (pre @ [inst]) st' \<and>
    (\<exists>l. inst' = inst\<lparr>inst_label := l\<rparr> \<and> canonical_label (pre @ [inst]) (length pre) = Some l)"
proof -
  have before: "anon_before (pre @ [inst]) (Suc (length pre)) =
      anon_before pre (length pre) + (if anon_site inst then 1 else 0)"
    by (simp add: anon_before_def)
  consider (plain) "\<not> inst_has_label inst"
    | (anon) "inst_has_label inst" "is_anonymous_label_definition (inst_label inst)"
    | (local) "inst_has_label inst" "\<not> is_anonymous_label_definition (inst_label inst)"
        "is_local_label_name (inst_label inst)"
    | (other) "inst_has_label inst" "\<not> is_anonymous_label_definition (inst_label inst)"
        "\<not> is_local_label_name (inst_label inst)"
    by blast
  then show ?thesis
  proof cases
    case plain
    then have "inst' = inst" "st' = st" using step by (simp_all add: canon_definition_def)
    with plain inv show ?thesis
      by (auto simp: canon_inv_def before anon_sites_snoc anon_site_def global_label_def
          canonical_label_def intro: exI [of _ "inst_label inst"])
  next
    case anon
    let ?name = "anon_name (cs_anonymous_counter st)"
    have site: "anon_site inst" "\<not> global_label inst"
      using anon by (simp_all add: anon_site_def global_label_def)
    have len: "length ?name < MAX_LABEL_LENGTH"
      and res: "inst' = inst\<lparr>inst_label := ?name\<rparr>"
        "st' = st\<lparr>cs_anonymous_counter := Suc (cs_anonymous_counter st),
          cs_anon_defs := cs_anon_defs st @
            [\<lparr>an_instruction_index = length pre, an_scoped_name = ?name\<rparr>]\<rparr>"
      using step anon
      by (auto simp: canon_definition_def Let_def anon_name_def copy_bounded_text_id split: if_splits)
    have "canonical_label (pre @ [inst]) (length pre) = Some ?name"
      using anon inv by (simp add: canonical_label_def canon_inv_def anon_before_append)
    moreover have "canon_inv (pre @ [inst]) st'"
      using inv site len
      by (auto simp: canon_inv_def res before anon_sites_snoc anon_table_snoc anon_sites_count less_Suc_eq)
    ultimately show ?thesis using res(1) by blast
  next
    case local
    then obtain scoped aliases where
      new: "get_or_create_local_alias (cs_aliases st) (cs_scope_id st) (inst_label inst) = Some (scoped, aliases)"
      and res: "inst' = inst\<lparr>inst_label := copy_bounded_text MAX_LABEL_LENGTH scoped\<rparr>"
        "st' = st\<lparr>cs_aliases := aliases\<rparr>"
      using step by (auto simp: canon_definition_def split: if_splits option.splits)
    have "alias_ok (cs_aliases st)" using inv by (simp add: canon_inv_def)
    from get_or_create_scoped [OF this len new]
    have s: "build_scoped_local_label (cs_scope_id st) (inst_label inst) = Some scoped" "alias_ok aliases"
      by simp_all
    have "\<not> anon_site inst" "\<not> global_label inst"
      using local by (simp_all add: anon_site_def global_label_def)
    with local inv s build_scoped_length [OF s(1)] show ?thesis
      by (auto simp: canon_inv_def res before anon_sites_snoc canonical_label_def scope_at_def
          copy_bounded_text_id)
  next
    case other
    then have res: "inst' = inst"
      "st' = (if inst_type inst \<noteq> Directive_family INST_EQU
        then st\<lparr>cs_scope_id := Suc (cs_scope_id st)\<rparr> else st)"
      using step by (auto simp: canon_definition_def split: if_splits)
    with other inv show ?thesis
      by (auto simp: canon_inv_def before anon_sites_snoc anon_site_def global_label_def
          canonical_label_def intro: exI [of _ "inst_label inst"])
  qed
qed

lemma canon_definitions_spec:
  assumes "canon_inv pre st" "\<forall>inst \<in> set insts. length (inst_label inst) < MAX_LABEL_LENGTH"
    and "canon_definitions (length pre) insts st = Some (insts', st')"
  shows "canon_inv (pre @ insts) st' \<and> length insts' = length insts \<and>
    (\<forall>k < length insts. \<exists>l. insts' ! k = (insts ! k)\<lparr>inst_label := l\<rparr> \<and>
       canonical_label (pre @ insts) (length pre + k) = Some l)"
  using assms
proof (induction insts arbitrary: pre st insts')
  case (Cons inst insts)
  from Cons.prems(3) obtain inst1 st1 rest where
    step: "canon_definition (length pre) inst st = Some (inst1, st1)"
    and rest: "canon_definitions (length (pre @ [inst])) insts st1 = Some (rest, st')"
    and out: "insts' = inst1 # rest"
    by (auto split: option.splits)
  from canon_definition_step [OF Cons.prems(1) _ step] Cons.prems(2) obtain l where
    inv: "canon_inv (pre @ [inst]) st1" and l: "inst1 = inst\<lparr>inst_label := l\<rparr>"
      "canonical_label (pre @ [inst]) (length pre) = Some l"
    by auto
  from Cons.IH [OF inv _ rest] Cons.prems(2) have IH: "canon_inv (pre @ inst # insts) st'"
    "length rest = length insts"
    "\<forall>k < length insts. \<exists>l. rest ! k = (insts ! k)\<lparr>inst_label := l\<rparr> \<and>
       canonical_label (pre @ inst # insts) (length pre + Suc k) = Some l"
    by simp_all
  moreover have "canonical_label (pre @ inst # insts) (length pre) = Some l"
    using l(2) canonical_label_append [of "length pre" "pre @ [inst]" insts] by simp
  ultimately show ?case using l(1) out by (auto simp: less_Suc_eq_0_disj)
qed simp

section \<open>The second pass\<close>

text \<open>A reference keeps its text until it is rewritten; the empty label stays empty.\<close>

lemma normalize_label_spec:
  assumes anon: "\<And>k. k < anon_before insts (length insts) \<Longrightarrow> length (anon_name k) < MAX_LABEL_LENGTH"
    and "alias_ok aliases" "length l < MAX_LABEL_LENGTH"
    and "normalize_label_reference l (scope_at insts i) i (anon_table (anon_sites insts)) aliases =
      Some (l', aliases')"
  shows "canonical_ref insts i l = Some l' \<and> alias_ok aliases'"
proof -
  have le: "anon_before insts i \<le> anon_before insts (length insts)"
    unfolding sites_below [symmetric] anon_sites_count [symmetric]
    by (rule le_trans [OF length_filter_le]) (simp add: sites_below anon_sites_count)
  show ?thesis
  proof (cases "is_local_label_name l")
    case True
    then obtain out where "get_or_create_local_alias aliases (scope_at insts i) l = Some (out, aliases')"
      and l': "l' = copy_bounded_text MAX_LABEL_LENGTH out"
      using assms(4) by (auto simp: normalize_label_reference_def is_local_label_name_def split: if_splits)
    from get_or_create_scoped [OF assms(2,3) this(1)] l' True show ?thesis
      using build_scoped_length by (auto simp: canonical_ref_def copy_bounded_text_id)
  next
    case False
    then show ?thesis
      using assms(2,4) lookup_anonymous [of insts, OF anon] le anon
      by (cases "l = []")
        (auto simp: normalize_label_reference_def canonical_ref_def copy_bounded_text_id
          is_anonymous_forward_ref_def is_anonymous_backward_ref_def strcase_eq_def split: if_splits)
  qed
qed

text \<open>What the second pass makes of an operand.\<close>

definition operand_bound :: "parsed_instruction list \<Rightarrow> nat \<Rightarrow> operand \<Rightarrow> operand \<Rightarrow> bool" where
  "operand_bound insts i op op' \<longleftrightarrow>
     (if op_type op = OPERAND_LABEL then
        \<exists>l. canonical_ref insts i (op_label op) = Some l \<and> op' = op\<lparr>op_label := l\<rparr>
      else if op_type op = OPERAND_LABEL_DIFF then
        \<exists>l r. canonical_ref insts i (op_label op) = Some l \<and>
          canonical_ref insts i (op_label_rhs op) = Some r \<and> op' = op\<lparr>op_label := l, op_label_rhs := r\<rparr>
      else if op_type op = OPERAND_MEM \<and> mem_label (op_mem op) \<noteq> [] then
        \<exists>l. canonical_ref insts i (mem_label (op_mem op)) = Some l \<and>
          op' = op\<lparr>op_mem := (op_mem op)\<lparr>mem_label := l\<rparr>\<rparr>
      else op' = op)"

definition labels_fit :: "operand \<Rightarrow> bool" where
  "labels_fit op \<longleftrightarrow> length (op_label op) < MAX_LABEL_LENGTH \<and>
     length (op_label_rhs op) < MAX_LABEL_LENGTH \<and> length (mem_label (op_mem op)) < MAX_LABEL_LENGTH"

definition anon_names_fit :: "parsed_instruction list \<Rightarrow> bool" where
  "anon_names_fit insts \<longleftrightarrow>
     (\<forall>k < anon_before insts (length insts). length (anon_name k) < MAX_LABEL_LENGTH)"

lemma normalize_operand_spec:
  assumes "anon_names_fit insts" "alias_ok aliases" "labels_fit op"
    and "normalize_operand (scope_at insts i) i (anon_table (anon_sites insts)) op aliases =
      Some (op', aliases')"
  shows "operand_bound insts i op op' \<and> alias_ok aliases'"
  using assms(3,4) normalize_label_spec [of insts] assms(1,2)
  unfolding normalize_operand_def operand_bound_def labels_fit_def anon_names_fit_def Let_def
  by (auto split: if_splits option.splits) blast+

lemma normalize_operands_spec:
  assumes "anon_names_fit insts" "alias_ok aliases" "\<forall>op \<in> set ops. labels_fit op"
    and "normalize_operands (scope_at insts i) i (anon_table (anon_sites insts)) ops aliases =
      Some (ops', aliases')"
  shows "list_all2 (operand_bound insts i) ops ops' \<and> alias_ok aliases'"
  using assms
proof (induction ops arbitrary: aliases ops')
  case (Cons op ops)
  then obtain op1 al1 rest where
    "normalize_operand (scope_at insts i) i (anon_table (anon_sites insts)) op aliases = Some (op1, al1)"
    "normalize_operands (scope_at insts i) i (anon_table (anon_sites insts)) ops al1 = Some (rest, aliases')"
    "ops' = op1 # rest"
    by (auto split: option.splits)
  with Cons.IH [of al1 rest] normalize_operand_spec [of insts aliases op i op1 al1] Cons.prems show ?case
    by simp
qed simp

lemma opens_scope_global:
  assumes "plain_names insts" "i < length insts" "canonical_label insts i = Some l"
  shows "opens_scope ((insts ! i)\<lparr>inst_label := l\<rparr>) = global_label (insts ! i)"
proof -
  have plain: "take 6 (inst_label (insts ! i)) \<noteq> ''__loc_''" "take 7 (inst_label (insts ! i)) \<noteq> ''__anon_''"
    using assms(1,2) by (auto simp: plain_names_def)
  have "l = inst_label (insts ! i)"
    if "\<not> is_anonymous_label_definition (inst_label (insts ! i))" "\<not> is_local_label_name (inst_label (insts ! i))"
    using that assms(3) by (auto simp: canonical_label_def Let_def split: if_splits)
  moreover have "take 6 l = ''__loc_'' \<or> take 7 l = ''__anon_''"
    if "inst_has_label (insts ! i)"
      "is_anonymous_label_definition (inst_label (insts ! i)) \<or> is_local_label_name (inst_label (insts ! i))"
    using that assms(3)
    by (auto simp: canonical_label_def Let_def build_scoped_local_label_def anon_name_def
        numeral_eq_Suc split: if_splits)
  ultimately show ?thesis
    using plain by (auto simp: opens_scope_def global_label_def)
qed

lemma canon_references_spec:
  assumes insts: "insts = pre @ suf" and plain: "plain_names insts"
    and anon: "anon_names_fit insts"
    and suf1: "length suf1 = length suf"
      "\<forall>k < length suf. \<exists>l. suf1 ! k = (suf ! k)\<lparr>inst_label := l\<rparr> \<and>
         canonical_label insts (length pre + k) = Some l"
    and "alias_ok aliases"
    and "canon_references (length pre) (length (filter global_label pre)) (anon_table (anon_sites insts))
       suf1 aliases = Some out"
  shows "length out = length suf \<and> (\<forall>k < length suf. \<exists>ops. out ! k = (suf1 ! k)\<lparr>inst_operands := ops\<rparr> \<and>
     list_all2 (operand_bound insts (length pre + k)) (inst_operands (suf ! k)) ops)"
  using insts suf1 assms(6,7)
proof (induction suf arbitrary: pre suf1 aliases out)
  case (Cons x suf)
  from Cons.prems(2) obtain x1 rest1 where s1: "suf1 = x1 # rest1" by (cases suf1) auto
  from Cons.prems(3) s1 obtain l where l: "x1 = x\<lparr>inst_label := l\<rparr>" "canonical_label insts (length pre) = Some l"
    by auto
  have x: "insts ! length pre = x" using Cons.prems(1) by simp
  let ?scope = "length (filter global_label (pre @ [x]))"
  have scope: "(if opens_scope x1 then Suc (length (filter global_label pre))
      else length (filter global_label pre)) = ?scope" "scope_at insts (length pre) = ?scope"
    using opens_scope_global [OF plain _ l(2)] l(1) x Cons.prems(1) by (simp_all add: scope_at_def)
  obtain ops al1 rest where
    ops: "normalize_operands (scope_at insts (length pre)) (length pre) (anon_table (anon_sites insts))
        (inst_operands x) aliases = Some (ops, al1)"
    and rest: "canon_references (length (pre @ [x])) ?scope (anon_table (anon_sites insts)) rest1 al1 = Some rest"
    and out: "out = x1\<lparr>inst_operands := ops\<rparr> # rest"
  proof -
    have x1: "inst_operands x1 = inst_operands x" using l(1) by simp
    have "(case normalize_operands ?scope (length pre) (anon_table (anon_sites insts)) (inst_operands x) aliases of
        None \<Rightarrow> None
      | Some (ops, aliases1) \<Rightarrow> map_option (Cons (x1\<lparr>inst_operands := ops\<rparr>))
          (canon_references (Suc (length pre)) ?scope (anon_table (anon_sites insts)) rest1 aliases1)) = Some out"
      using Cons.prems(5) unfolding s1 canon_references.simps Let_def scope(1) x1 .
    then show thesis using that scope(2) by (auto split: option.splits)
  qed
  have "\<forall>op \<in> set (inst_operands x). labels_fit op"
    using plain Cons.prems(1) by (auto simp: plain_names_def labels_fit_def)
  from normalize_operands_spec [OF anon Cons.prems(4) this ops]
  have bound: "list_all2 (operand_bound insts (length pre)) (inst_operands x) ops" "alias_ok al1"
    by simp_all
  have "\<forall>k < length suf. \<exists>l. rest1 ! k = (suf ! k)\<lparr>inst_label := l\<rparr> \<and>
      canonical_label insts (length (pre @ [x]) + k) = Some l"
    using Cons.prems(3) s1 by auto
  from Cons.IH [OF _ _ this bound(2) rest] Cons.prems(1,2) s1 bound(1) out show ?case
    by (auto simp: less_Suc_eq_0_disj)
qed simp

theorem canonicalize_spec:
  assumes "plain_names insts" "canonicalize_symbol_labels insts = Some out"
  shows "length out = length insts \<and> (\<forall>i < length insts.
    canonical_label insts i = Some (inst_label (out ! i)) \<and>
    list_all2 (operand_bound insts i) (inst_operands (insts ! i)) (inst_operands (out ! i)))"
proof -
  obtain insts1 st where defs: "canon_definitions 0 insts canon_start = Some (insts1, st)"
    and refs: "canon_references 0 0 (cs_anon_defs st) insts1 (cs_aliases st) = Some out"
    using assms(2) by (auto simp: canonicalize_symbol_labels_def split: option.splits)
  have start: "canon_inv [] canon_start"
    by (simp add: canon_inv_def canon_start_def anon_before_def anon_sites_def anon_table_def alias_ok_def)
  have len: "\<forall>inst \<in> set insts. length (inst_label inst) < MAX_LABEL_LENGTH"
    using assms(1) by (simp add: plain_names_def)
  from canon_definitions_spec [OF start len, of insts1 st] defs
  have inv: "canon_inv insts st" and lab: "length insts1 = length insts"
    "\<forall>k < length insts. \<exists>l. insts1 ! k = (insts ! k)\<lparr>inst_label := l\<rparr> \<and> canonical_label insts k = Some l"
    by simp_all
  have anon: "anon_names_fit insts"
    and ok: "alias_ok (cs_aliases st)" and tab: "cs_anon_defs st = anon_table (anon_sites insts)"
    using inv by (auto simp: canon_inv_def anon_names_fit_def)
  from canon_references_spec [of insts "[]" insts insts1 "cs_aliases st" out, OF _ assms(1) anon lab(1) _ ok]
    lab(2) refs tab
  have "length out = length insts" "\<forall>k < length insts. \<exists>ops. out ! k = (insts1 ! k)\<lparr>inst_operands := ops\<rparr> \<and>
     list_all2 (operand_bound insts k) (inst_operands (insts ! k)) ops"
    by simp_all
  with lab(2) show ?thesis by fastforce
qed

section \<open>Binding\<close>

lemma anon_before_card:
  "anon_before insts i = card {m. m < i \<and> m < length insts \<and> anon_site (insts ! m)}"
proof -
  have "filter (\<lambda>j. j < i) (anon_sites insts) = filter (\<lambda>m. m < i \<and> anon_site (insts ! m)) [0..<length insts]"
    by (simp add: anon_sites_def conj_commute)
  moreover have "{m. m < i \<and> m < length insts \<and> anon_site (insts ! m)} =
      set (filter (\<lambda>m. m < i \<and> anon_site (insts ! m)) [0..<length insts])"
    by auto
  ultimately show ?thesis
    unfolding sites_below [symmetric] by (simp only: distinct_card distinct_filter distinct_upt)
qed

lemma anon_before_mono: "a \<le> b \<Longrightarrow> anon_before insts a \<le> anon_before insts b"
  unfolding anon_before_card by (intro card_mono) auto

lemma anon_before_Suc: "j < length insts \<Longrightarrow>
  anon_before insts (Suc j) = anon_before insts j + (if anon_site (insts ! j) then 1 else 0)"
  by (simp add: anon_before_def take_Suc_conv_app_nth)

text \<open>The count stays the same over a range exactly when there is no definition in it.\<close>

lemma anon_before_same:
  assumes "a \<le> b" "b \<le> length insts"
  shows "anon_before insts a = anon_before insts b \<longleftrightarrow> (\<forall>m. a \<le> m \<and> m < b \<longrightarrow> \<not> anon_site (insts ! m))"
  using assms
proof (induction b)
  case (Suc b)
  show ?case
  proof (cases "a = Suc b")
    case False
    then have "a \<le> b" using Suc.prems by simp
    with Suc anon_before_Suc [of b insts] anon_before_mono [OF this, of insts] show ?thesis
      by (auto simp: less_Suc_eq)
  qed auto
qed auto

text \<open>A definition at \<open>j\<close> is the last one before \<open>i\<close>, and the first one from \<open>i\<close> on.\<close>

lemma anon_before_last:
  assumes "j < length insts" "anon_site (insts ! j)" "i \<le> length insts"
  shows "anon_before insts i = Suc (anon_before insts j) \<longleftrightarrow>
    j < i \<and> (\<forall>m. j < m \<and> m < i \<longrightarrow> \<not> anon_site (insts ! m))"
proof (cases "j < i")
  case True
  with assms anon_before_same [of "Suc j" i insts] anon_before_Suc [of j insts] show ?thesis
    by (auto simp: Suc_le_eq)
next
  case False
  with anon_before_mono [of i j insts] show ?thesis by simp
qed

lemma anon_before_first:
  assumes "j < length insts" "anon_site (insts ! j)" "i < length insts"
  shows "anon_before insts (Suc i) = anon_before insts j \<longleftrightarrow>
    i < j \<and> (\<forall>m. i < m \<and> m < j \<longrightarrow> \<not> anon_site (insts ! m))"
proof (cases "i < j")
  case True
  with assms anon_before_same [of "Suc i" j insts] show ?thesis by (auto simp: Suc_le_eq)
next
  case False
  with assms anon_before_mono [of "Suc j" "Suc i" insts] anon_before_Suc [of j insts] show ?thesis
    by simp
qed

lemma anon_name_inject: "anon_name k = anon_name m \<longleftrightarrow> k = m"
  by (simp add: anon_name_def dec_of_inject)

lemma bound_label:
  assumes "plain_names insts" "canonicalize_symbol_labels insts = Some out" "i < length insts"
    and "k < length (inst_operands (insts ! i))" "op_type (inst_operands (insts ! i) ! k) = OPERAND_LABEL"
  shows "canonical_ref insts i (op_label (inst_operands (insts ! i) ! k)) =
    Some (op_label (inst_operands (out ! i) ! k))"
proof -
  have "operand_bound insts i (inst_operands (insts ! i) ! k) (inst_operands (out ! i) ! k)"
    using canonicalize_spec [OF assms(1,2)] assms(3,4) by (auto dest: list_all2_nthD)
  with assms(5) show ?thesis by (auto simp: operand_bound_def)
qed

end
