(* ===== verification/Label_Types.thy ===== *)
theory Label_Types
  imports Label_Binding Symbols
begin

text \<open>
  The name fields keep their bound through label canonicalisation: every label of an instruction
  and of its operands has room in its array of \<open>MAX_LABEL_LENGTH\<close> characters.
\<close>

definition operand_fits :: "operand \<Rightarrow> bool" where
  "operand_fits op \<longleftrightarrow> name_fits (op_label op) \<and> name_fits (op_label_rhs op) \<and>
     name_fits (mem_label (op_mem op))"

definition instruction_fits :: "parsed_instruction \<Rightarrow> bool" where
  "instruction_fits inst \<longleftrightarrow> name_fits (inst_label inst) \<and> (\<forall>op \<in> set (inst_operands inst). operand_fits op)"

lemma bounded_fits [simp]: "name_fits (copy_bounded_text MAX_LABEL_LENGTH x)"
  unfolding name_fits_def by (rule length_copy_bounded_text) simp

lemma normalize_label_fits:
  "normalize_label_reference l sc i defs al = Some (l', al') \<Longrightarrow> name_fits l \<Longrightarrow> name_fits l'"
  by (auto simp: normalize_label_reference_def split: if_splits)

lemma normalize_operand_fits:
  assumes "normalize_operand sc i defs op al = Some (op', al')" "operand_fits op"
  shows "operand_fits op'"
  using assms
  by (auto simp: normalize_operand_def operand_fits_def Let_def split: if_splits option.splits)
    (metis normalize_label_fits)+

lemma normalize_operands_fit:
  "normalize_operands sc i defs ops al = Some (ops', al') \<Longrightarrow> \<forall>op \<in> set ops. operand_fits op \<Longrightarrow>
   \<forall>op \<in> set ops'. operand_fits op"
  by (induction ops arbitrary: al ops' al')
    (auto split: option.splits, metis normalize_operand_fits)

lemma canon_definition_fits:
  "canon_definition i inst st = Some (inst', st') \<Longrightarrow> instruction_fits inst \<Longrightarrow> instruction_fits inst'"
  by (auto simp: canon_definition_def instruction_fits_def Let_def split: if_splits option.splits)

lemma canon_definitions_fit:
  "canon_definitions i insts st = Some (insts', st') \<Longrightarrow> \<forall>inst \<in> set insts. instruction_fits inst \<Longrightarrow>
   \<forall>inst \<in> set insts'. instruction_fits inst"
  by (induction insts arbitrary: i st insts') (auto split: option.splits, metis canon_definition_fits)

lemma canon_references_fit:
  "canon_references i sc defs insts al = Some insts' \<Longrightarrow> \<forall>inst \<in> set insts. instruction_fits inst \<Longrightarrow>
   \<forall>inst \<in> set insts'. instruction_fits inst"
proof (induction insts arbitrary: i sc al insts')
  case (Cons inst insts)
  define sc' where "sc' = (if opens_scope inst then Suc sc else sc)"
  from Cons.prems(1) obtain ops al1 rest where r: "normalize_operands sc' i defs (inst_operands inst) al = Some (ops, al1)"
    "canon_references (Suc i) sc' defs insts al1 = Some rest" "insts' = inst\<lparr>inst_operands := ops\<rparr> # rest"
    by (auto simp: Let_def sc'_def split: option.splits)
  have "\<forall>op \<in> set ops. operand_fits op"
    using normalize_operands_fit [OF r(1)] Cons.prems(2) by (simp add: instruction_fits_def)
  with Cons.IH [OF r(2)] Cons.prems(2) r(3) show ?case by (simp add: instruction_fits_def)
qed simp

lemma canonicalize_fits:
  assumes "canonicalize_symbol_labels insts = Some insts'" "\<forall>inst \<in> set insts. instruction_fits inst"
  shows "\<forall>inst \<in> set insts'. instruction_fits inst"
proof -
  from assms(1) obtain insts1 st where p: "canon_definitions 0 insts canon_start = Some (insts1, st)"
    "canon_references 0 0 (cs_anon_defs st) insts1 (cs_aliases st) = Some insts'"
    by (auto simp: canonicalize_symbol_labels_def split: option.splits)
  from canon_references_fit [OF p(2) canon_definitions_fit [OF p(1) assms(2)]] show ?thesis .
qed

end
