(* ===== verification/Name_Properties.thy ===== *)
theory Name_Properties
  imports Label_Binding Label_Types Sample_States
begin

text \<open>
  The properties of names: the distance behind the spelling suggestions and the binding of local
  and anonymous labels.
\<close>

section \<open>A sample program\<close>

text \<open>A program with two scopes that each have a local label and an anonymous one between them.\<close>

definition labelled_inst :: "string \<Rightarrow> instruction_type \<Rightarrow> operand list \<Rightarrow> parsed_instruction" where
  "labelled_inst l ty ops = (instruction ty ops)\<lparr>inst_label := l, inst_has_label := True\<rparr>"

definition scoped_program :: "parsed_instruction list" where
  "scoped_program =
    [labelled_inst ''a'' (Single_family INST_NOP) [],
     labelled_inst ''.x'' (Single_family INST_JMP) [label_operand ''.x''],
     labelled_inst ''@@'' (Single_family INST_JMP) [label_operand ''a''],
     instruction (Single_family INST_JMP) [label_operand ''@B''],
     labelled_inst ''b'' (Single_family INST_NOP) [],
     labelled_inst ''.x'' (Single_family INST_JMP) [label_operand ''.x'']]"

lemmas program_defs = scoped_program_def labelled_inst_def instruction_def label_operand_def no_operand_def no_mem_def

lemma dec_of_small: "dec_of 0 = ''0''" "dec_of (Suc 0) = ''1''" "dec_of (Suc (Suc 0)) = ''2''"
  by (simp_all add: dec_of.simps char_of_def bit_0 bit_Suc)

lemma anonymous_words:
  "strcase_eq ''@B'' ''@F'' = False" "strcase_eq ''@F'' ''@F'' = True" "strcase_eq ''@B'' ''@B'' = True"
  "strcase_eq ''a'' ''@F'' = False" "strcase_eq ''a'' ''@B'' = False"
  by (simp_all add: strcase_eq_def c_tolower_def char_of_def bit_0 bit_Suc)

lemma scoped_program_canonical:
  obtains out where "canonicalize_symbol_labels scoped_program = Some out"
  by (simp add: canonicalize_symbol_labels_def program_defs canon_start_def canon_definition_def
      is_anonymous_label_definition_def is_local_label_name_def lookup_local_alias_def
      get_or_create_local_alias_def build_scoped_local_label_def dec_of_small Let_def
      copy_bounded_text_def opens_scope_def normalize_operand_def normalize_label_reference_def
      anonymous_words is_anonymous_forward_ref_def is_anonymous_backward_ref_def
      lookup_anonymous_ref_def)

lemma scoped_program_plain: "plain_names scoped_program"
  by (simp add: plain_names_def program_defs)

section \<open>Distances\<close>

text \<open>C32 (equivalence). The two-row computation returns the edit distance of the two names without regard to case:
  it is the cost of an edit script and no script is cheaper. Names over 63 characters give 999.\<close>

theorem name_distance_is_edit_distance:
  "if length lhs \<le> 63 \<and> length rhs \<le> 63
   then edit_distance (map c_tolower lhs) (map c_tolower rhs) (symbol_name_distance lhs rhs)
   else symbol_name_distance lhs rhs = 999"
proof (cases "length lhs \<le> 63 \<and> length rhs \<le> 63")
  case True
  have "edit_distance (rev (map c_tolower lhs)) (rev (map c_tolower rhs)) (prefix_distance lhs rhs)"
    unfolding edit_distance_def prefix_distance_def by (blast intro: aligned_lev lev_least)
  with True show ?thesis
    by (simp add: symbol_name_distance_lev edit_distance_rev)
next
  case False
  then have "63 < length lhs \<or> 63 < length rhs" by linarith
  with False show ?thesis by (simp only: symbol_name_distance_def if_True if_False)
qed

section \<open>Labels\<close>

text \<open>C33 (functional). In a program that uses no label starting with __loc_ or __anon_ and whose names fit their
  arrays: after canonicalisation a reference to a local label and the definition of a local label carry
  the same name exactly when they have the same local name and lie in the same scope. (With
  a label of its own that starts with __loc_ a program can lose this: a known defect.)\<close>

theorem local_reference_binding:
  assumes "plain_names insts" "canonicalize_symbol_labels insts = Some out"
    and "i < length insts" "k < length (inst_operands (insts ! i))"
    and "op_type (inst_operands (insts ! i) ! k) = OPERAND_LABEL"
    and "is_local_label_name (op_label (inst_operands (insts ! i) ! k))"
    and "j < length insts" "inst_has_label (insts ! j)" "is_local_label_name (inst_label (insts ! j))"
  shows "op_label (inst_operands (out ! i) ! k) = inst_label (out ! j) \<longleftrightarrow>
    op_label (inst_operands (insts ! i) ! k) = inst_label (insts ! j) \<and> scope_at insts i = scope_at insts j"
proof -
  have ref: "build_scoped_local_label (scope_at insts i) (op_label (inst_operands (insts ! i) ! k)) =
      Some (op_label (inst_operands (out ! i) ! k))"
    using bound_label [OF assms(1-5)] assms(6) by (simp add: canonical_ref_def)
  have "\<not> is_anonymous_label_definition (inst_label (insts ! j))"
    using assms(9) by (auto simp: is_anonymous_label_definition_def is_local_label_name_def)
  then have lab: "build_scoped_local_label (scope_at insts j) (inst_label (insts ! j)) = Some (inst_label (out ! j))"
    using canonicalize_spec [OF assms(1,2)] assms(7-9) by (auto simp: canonical_label_def Let_def)
  show ?thesis using scoped_label_inject [of _ _ _ _ _] ref lab by (metis option.inject)
qed

lemma local_reference_binding_witness:
  "\<exists>out. canonicalize_symbol_labels scoped_program = Some out \<and>
     op_label (inst_operands (out ! 5) ! 0) = inst_label (out ! 5) \<and>
     op_label (inst_operands (out ! 5) ! 0) \<noteq> inst_label (out ! 1)"
proof -
  obtain out where out: "canonicalize_symbol_labels scoped_program = Some out"
    by (rule scoped_program_canonical)
  have "op_label (inst_operands (out ! 5) ! 0) = inst_label (out ! 5)"
    by (subst local_reference_binding [OF scoped_program_plain out])
      (simp_all add: program_defs is_local_label_name_def)
  moreover have "op_label (inst_operands (out ! 5) ! 0) \<noteq> inst_label (out ! 1)"
    by (subst local_reference_binding [OF scoped_program_plain out])
      (simp_all add: program_defs is_local_label_name_def scope_at_def global_label_def
        is_anonymous_label_definition_def)
  ultimately show ?thesis using out by blast
qed

text \<open>The condition is needed: a global label that starts with \<open>__loc_\<close> opens a scope in the first pass and
  not in the second, and the reference misses the definition on its own line.\<close>

lemma reserved_prefix_splits_scope:
  "\<exists>out. canonicalize_symbol_labels
      [labelled_inst ''__loc_x'' (Single_family INST_NOP) [],
       labelled_inst ''.a'' (Single_family INST_JMP) [label_operand ''.a'']] = Some out \<and>
     inst_label (out ! 1) = ''__loc_1_a'' \<and> op_label (inst_operands (out ! 1) ! 0) = ''__loc_0_a''"
  by (simp add: canonicalize_symbol_labels_def program_defs canon_start_def canon_definition_def
      is_anonymous_label_definition_def is_local_label_name_def lookup_local_alias_def
      get_or_create_local_alias_def build_scoped_local_label_def dec_of_small Let_def
      copy_bounded_text_def opens_scope_def normalize_operand_def normalize_label_reference_def)

text \<open>C40 (functional). In a program that uses no label starting with __loc_ or __anon_ and whose names fit their
  arrays: after canonicalisation a backward anonymous reference names the nearest anonymous
  definition before it, and a forward one the nearest behind it.\<close>

theorem anonymous_reference_binding:
  assumes "plain_names insts" "canonicalize_symbol_labels insts = Some out"
    and "i < length insts" "k < length (inst_operands (insts ! i))"
    and "op_type (inst_operands (insts ! i) ! k) = OPERAND_LABEL"
    and "op_label (inst_operands (insts ! i) ! k) = (if forward then ''@F'' else ''@B'')"
    and "j < length insts" "anon_site (insts ! j)"
  shows "op_label (inst_operands (out ! i) ! k) = inst_label (out ! j) \<longleftrightarrow>
    (if forward then i < j \<and> (\<forall>m. i < m \<and> m < j \<longrightarrow> \<not> anon_site (insts ! m))
     else j < i \<and> (\<forall>m. j < m \<and> m < i \<longrightarrow> \<not> anon_site (insts ! m)))"
proof -
  have lab: "inst_label (out ! j) = anon_name (anon_before insts j)"
    using canonicalize_spec [OF assms(1,2)] assms(7,8)
    by (auto simp: canonical_label_def anon_site_def Let_def)
  have ref: "canonical_ref insts i (if forward then ''@F'' else ''@B'') = Some (op_label (inst_operands (out ! i) ! k))"
    using bound_label [OF assms(1-5)] assms(6) by simp
  have kinds: "\<not> is_local_label_name ''@F''" "\<not> is_local_label_name ''@B''"
    "is_anonymous_forward_ref ''@F''" "\<not> is_anonymous_forward_ref ''@B''" "is_anonymous_backward_ref ''@B''"
    by (simp_all add: is_local_label_name_def is_anonymous_forward_ref_def is_anonymous_backward_ref_def
        strcase_eq_def c_tolower_def char_of_def bit_0 bit_Suc)
  show ?thesis
  proof (cases forward)
    case True
    then have "op_label (inst_operands (out ! i) ! k) = anon_name (anon_before insts (Suc i))"
      using ref kinds by (auto simp: canonical_ref_def split: if_splits)
    with True lab anon_before_first [OF assms(7,8,3)] show ?thesis by (simp add: anon_name_inject)
  next
    case False
    then have "0 < anon_before insts i"
      "op_label (inst_operands (out ! i) ! k) = anon_name (anon_before insts i - 1)"
      using ref kinds by (auto simp: canonical_ref_def split: if_splits)
    with False lab anon_before_last [OF assms(7,8), of i] assms(3) show ?thesis
      by (auto simp: anon_name_inject)
  qed
qed

lemma anonymous_reference_binding_witness:
  "\<exists>out. canonicalize_symbol_labels scoped_program = Some out \<and>
     op_label (inst_operands (out ! 3) ! 0) = inst_label (out ! 2)"
proof -
  obtain out where out: "canonicalize_symbol_labels scoped_program = Some out"
    by (rule scoped_program_canonical)
  have "op_label (inst_operands (out ! 3) ! 0) = inst_label (out ! 2)"
    by (subst anonymous_reference_binding [OF scoped_program_plain out, where forward = False])
      (simp_all add: program_defs anon_site_def is_anonymous_label_definition_def)
  with out show ?thesis by blast
qed

text \<open>C29 (type). Canonicalisation keeps the bound of the name arrays: when every label of the parsed program
  has fewer than MAX_LABEL_LENGTH (256) characters, so has every label it writes.\<close>

theorem canonical_names_fit:
  assumes "canonicalize_symbol_labels insts = Some out"
    and "\<And>inst. inst \<in> set insts \<Longrightarrow> name_fits (inst_label inst) \<and> (\<forall>op \<in> set (inst_operands inst).
      name_fits (op_label op) \<and> name_fits (op_label_rhs op) \<and> name_fits (mem_label (op_mem op)))"
    and "inst \<in> set out"
  shows "length (inst_label inst) < MAX_LABEL_LENGTH \<and> (\<forall>op \<in> set (inst_operands inst).
    length (op_label op) < MAX_LABEL_LENGTH \<and> length (op_label_rhs op) < MAX_LABEL_LENGTH \<and>
    length (mem_label (op_mem op)) < MAX_LABEL_LENGTH)"
proof -
  have "\<forall>inst \<in> set insts. instruction_fits inst"
    using assms(2) by (simp add: instruction_fits_def operand_fits_def)
  from canonicalize_fits [OF assms(1) this] assms(3) have "instruction_fits inst" by blast
  then show ?thesis by (simp add: instruction_fits_def operand_fits_def name_fits_def)
qed

lemma canonical_names_fit_witness:
  "\<exists>out. canonicalize_symbol_labels scoped_program = Some out \<and>
     (\<forall>inst \<in> set out. length (inst_label inst) < MAX_LABEL_LENGTH)"
proof -
  obtain out where out: "canonicalize_symbol_labels scoped_program = Some out"
    by (rule scoped_program_canonical)
  have "name_fits (inst_label inst) \<and> (\<forall>op \<in> set (inst_operands inst).
      name_fits (op_label op) \<and> name_fits (op_label_rhs op) \<and> name_fits (mem_label (op_mem op)))"
    if "inst \<in> set scoped_program" for inst
    using that by (auto simp: program_defs name_fits_def)
  from canonical_names_fit [OF out this] out show ?thesis by blast
qed

end
