(* ===== verification/Layout.thy ===== *)
theory Layout
  imports Dispatch
begin

text \<open>
  The layout of a program before any code is emitted (src/x86_64_asm.c): the size estimates, the
  first pass that gives every label an address from them, and the relaxation that repeats the
  text layout with short branches until no label moves, at most eight times.
\<close>

section \<open>Size estimates\<close>

definition is_reg :: "operand \<Rightarrow> bool" where
  "is_reg op \<longleftrightarrow> op_type op = OPERAND_REG"

definition is_mem :: "operand \<Rightarrow> bool" where
  "is_mem op \<longleftrightarrow> op_type op = OPERAND_MEM"

definition is_imm :: "operand \<Rightarrow> bool" where
  "is_imm op \<longleftrightarrow> op_type op = OPERAND_IMM"

definition is_label :: "operand \<Rightarrow> bool" where
  "is_label op \<longleftrightarrow> op_type op = OPERAND_LABEL"

definition estimate_push_pop :: "stack_kind \<Rightarrow> operand list \<Rightarrow> nat" where
  "estimate_push_pop kind ops =
     (case ops of
        [op] \<Rightarrow> if is_reg op then (if 8 \<le> op_reg op then 2 else 1)
               else if kind = INST_PUSH then 5 else 1
      | _ \<Rightarrow> if kind = INST_PUSH then 5 else 1)"

definition estimate_mov :: "operand list \<Rightarrow> nat" where
  "estimate_mov ops =
     (case ops of
        [dst, src] \<Rightarrow>
          if is_reg dst \<and> is_label src then 7
          else if is_reg dst \<and> is_imm src then
            (if -2147483648 \<le> sint (op_immediate src) \<and> sint (op_immediate src) \<le> 2147483647
             then 8 else 10)
          else if is_reg dst \<and> is_reg src then 3
          else if is_reg dst \<and> is_mem src \<or> is_mem dst \<and> is_reg src then 9
          else if is_mem dst \<and> is_imm src then 13
          else 10
      | _ \<Rightarrow> 10)"

definition estimate_arithmetic :: "operand list \<Rightarrow> nat" where
  "estimate_arithmetic ops =
     (case ops of
        [dst, src] \<Rightarrow>
          if is_reg dst \<and> is_imm src then
            (if -128 \<le> sint (op_immediate src) \<and> sint (op_immediate src) \<le> 127 then 4 else 7)
          else if is_reg dst \<and> is_reg src \<or> is_reg dst \<and> is_mem src \<or> is_mem dst \<and> is_reg src then 9
          else if is_mem dst \<and> is_imm src then 14
          else 10
      | _ \<Rightarrow> 10)"

text \<open>One operand, a register or memory, with the size of any other case.\<close>

definition estimate_one :: "nat \<Rightarrow> operand list \<Rightarrow> nat" where
  "estimate_one other ops =
     (case ops of [op] \<Rightarrow> if is_reg op then 3 else if is_mem op then 9 else other | _ \<Rightarrow> other)"

text \<open>\<open>jmp\<close> and \<open>call\<close>: a label, a register or memory.\<close>

definition estimate_target :: "operand list \<Rightarrow> nat" where
  "estimate_target ops =
     (case ops of [op] \<Rightarrow> if is_label op then 5 else if is_reg op then 3 else 9 | _ \<Rightarrow> 9)"

definition estimate_shift :: "operand list \<Rightarrow> nat" where
  "estimate_shift ops =
     (case ops of
        [_, src] \<Rightarrow> if is_imm src then 4 else if is_reg src \<and> op_reg src = 1 then 3 else 9
      | _ \<Rightarrow> 9)"

definition estimate_single :: "single_kind \<Rightarrow> operand list \<Rightarrow> nat" where
  "estimate_single kind ops =
     (case kind of
        INST_NOP \<Rightarrow> 1 | INST_LEAVE \<Rightarrow> 1 | INST_HLT \<Rightarrow> 1
      | INST_INT \<Rightarrow> 2 | INST_SYSCALL \<Rightarrow> 2 | INST_SYSRET \<Rightarrow> 2
      | INST_JMP \<Rightarrow> estimate_target ops
      | INST_LEA \<Rightarrow> (case ops of
            [_, src] \<Rightarrow> if is_mem src \<and> mem_is_rip_relative (op_mem src) then 7 else 9
          | _ \<Rightarrow> 9)
      | INST_XCHG \<Rightarrow> (case ops of [a, b] \<Rightarrow> if is_reg a \<and> is_reg b then 3 else 9 | _ \<Rightarrow> 9)
      | INST_IMUL \<Rightarrow> 9 | INST_TEST \<Rightarrow> 9
      | INST_BSWAP \<Rightarrow> 15 | INST_ENTER \<Rightarrow> 15)"

definition estimate_instruction_size :: "parsed_instruction \<Rightarrow> nat" where
  "estimate_instruction_size inst =
     (let ops = inst_operands inst in
      case inst_type inst of
        Callret_family INST_RET \<Rightarrow> 1
      | Flag_family _ \<Rightarrow> 2 | Cwd_family _ \<Rightarrow> 2 | Cbw_family _ \<Rightarrow> 2
      | Stack_family kind \<Rightarrow> estimate_push_pop kind ops
      | Mov_family kind \<Rightarrow> if kind = INST_MOV then estimate_mov ops else 9
      | Arith_family _ \<Rightarrow> estimate_arithmetic ops
      | Unary_family _ \<Rightarrow> estimate_one 4 ops
      | Callret_family INST_CALL \<Rightarrow> estimate_target ops
      | Jcc_family _ \<Rightarrow> 6
      | Muldiv_family _ \<Rightarrow> estimate_one 9 ops
      | Shift_family _ \<Rightarrow> estimate_shift ops
      | Setcc_family _ \<Rightarrow> 4
      | Cmov_family _ \<Rightarrow> 9
      | Single_family kind \<Rightarrow> estimate_single kind ops
      | _ \<Rightarrow> 15)"

text \<open>The branch forms with the addresses known so far: two bytes when the label is in reach.\<close>

definition relaxed_branch :: "nat \<Rightarrow> string \<Rightarrow> u64 \<Rightarrow> asm_ctx \<Rightarrow> nat" where
  "relaxed_branch near label address ctx =
     (case find_symbol_address label ctx of
        Some target \<Rightarrow>
          let rel8 = target - (address + 2) in
          if -128 \<le> sint rel8 \<and> sint rel8 \<le> 127 then 2 else near
      | None \<Rightarrow> near)"

definition estimate_instruction_size_relaxed :: "asm_ctx \<Rightarrow> parsed_instruction \<Rightarrow> u64 \<Rightarrow> nat" where
  "estimate_instruction_size_relaxed ctx inst address =
     (case (inst_type inst, inst_operands inst) of
        (Single_family INST_JMP, [op]) \<Rightarrow>
          if is_label op then relaxed_branch 5 (op_label op) address ctx
          else estimate_instruction_size inst
      | (Jcc_family _, [op]) \<Rightarrow>
          if is_label op then relaxed_branch 6 (op_label op) address ctx
          else estimate_instruction_size inst
      | _ \<Rightarrow> estimate_instruction_size inst)"

section \<open>Sizes of directives\<close>

definition data_unit :: "data_kind \<Rightarrow> u64" where
  "data_unit kind = (case kind of INST_DB \<Rightarrow> 1 | INST_DW \<Rightarrow> 2 | INST_DD \<Rightarrow> 4 | INST_DQ \<Rightarrow> 8)"

definition data_size_of :: "data_kind \<Rightarrow> operand list \<Rightarrow> u64" where
  "data_size_of kind ops = sum_list (map (\<lambda>op.
     if op_type op = OPERAND_STRING \<and> kind = INST_DB then of_nat (length (op_string op))
     else data_unit kind) ops)"

definition is_symdir :: "instruction_type \<Rightarrow> bool" where
  "is_symdir ty = (case ty of Symdir_family _ \<Rightarrow> True | _ \<Rightarrow> False)"

section \<open>The first pass\<close>

text \<open>Pass 1a: the estimated size of the text.\<close>

definition text_size_step :: "parsed_instruction \<Rightarrow> u64 \<times> asm_ctx \<Rightarrow> u64 \<times> asm_ctx" where
  "text_size_step inst st =
     (let (text_size, ctx) = st in
      if inst_type inst = Directive_family INST_SECTION then (text_size, apply_section_directive inst ctx)
      else if current_section ctx \<noteq> 0 then (text_size, ctx)
      else case inst_type inst of
          Data_family kind \<Rightarrow> (text_size + data_unit kind * of_nat (length (inst_operands inst)), ctx)
        | ty \<Rightarrow> if is_symdir ty \<or> ty = Single_family INST_NOP then (text_size, ctx)
                else (text_size + of_nat (estimate_instruction_size inst), ctx))"

definition estimate_text_size :: "parsed_instruction list \<Rightarrow> asm_ctx \<Rightarrow> u64" where
  "estimate_text_size insts ctx = fst (fold text_size_step insts (0, ctx\<lparr>current_section := 0\<rparr>))"

text \<open>Pass 1b: where the counter of the section stands behind an instruction; \<open>None\<close> is the error
  of a negative reserve.\<close>

definition advance_counter :: "(string \<Rightarrow> file_outcome) \<Rightarrow> parsed_instruction \<Rightarrow> int \<Rightarrow> u64 \<Rightarrow> u64 option" where
  "advance_counter files inst section addr =
     (let ops = inst_operands inst in
      case inst_type inst of
        Data_family kind \<Rightarrow> Some (addr + data_size_of kind ops)
      | Reserve_family kind \<Rightarrow>
          (case ops of
             op # _ \<Rightarrow>
               if is_imm op then
                 let reserved = op_immediate op * reserve_unit kind in
                 if sint reserved < 0 then None else Some (addr + reserved)
               else Some addr
           | [] \<Rightarrow> Some addr)
      | Directive_family INST_EQU \<Rightarrow> Some addr
      | Directive_family INST_ALIGN \<Rightarrow>
          (case ops of
             op # _ \<Rightarrow>
               if is_imm op then
                 let alignment = (ucast (op_immediate op) :: u32) in
                 if sint alignment > 0 \<and> alignment AND (alignment - 1) = 0 then
                   Some (addr + scast (ucast (round_up addr (ucast alignment) - addr) :: u32))
                 else Some addr
               else Some addr
           | [] \<Rightarrow> Some addr)
      | Directive_family INST_INCBIN \<Rightarrow>
          (case ops of
             op # _ \<Rightarrow>
               if op_type op = OPERAND_STRING then
                 (case files (op_string op) of
                    Opened sz _ _ \<Rightarrow> Some (if sz > 0 then addr + word_of_int sz else addr)
                  | Not_Opened \<Rightarrow> Some addr)
               else Some addr
           | [] \<Rightarrow> Some addr)
      | Common_family _ \<Rightarrow>
          (case ops of
             _ # size_op # rest \<Rightarrow>
               if is_imm size_op \<and> sint (op_immediate size_op) > 0 then
                 let alignment = (case rest of a # _ \<Rightarrow> op_immediate a | [] \<Rightarrow> 1) in
                 Some ((if sint alignment > 1 then round_up addr alignment else addr) + op_immediate size_op)
               else Some addr
           | _ \<Rightarrow> Some addr)
      | Symdir_family _ \<Rightarrow> Some addr
      | Directive_family INST_TIMES \<Rightarrow> Some addr
      | ty \<Rightarrow>
          if ty = Single_family INST_NOP then Some addr
          else if section = 0 then Some (addr + of_nat (estimate_instruction_size inst))
          else Some addr)"

text \<open>The declaration a label gets: its source position the first time, and \<open>_start\<close> is a function.\<close>

definition mark_declared :: "parsed_instruction \<Rightarrow> int \<Rightarrow> symbol \<Rightarrow> symbol" where
  "mark_declared inst section s =
     (if sym_decl_line s \<noteq> 0 then s
      else s\<lparr>sym_decl_line := (if 0 < inst_line_number inst then inst_line_number inst else 1),
             sym_decl_column := (if 0 < inst_label_column inst then inst_label_column inst else 1),
             sym_is_function := (sym_is_function s \<or> section = 0 \<and> inst_label inst = ''_start'')\<rparr>)"

definition record_label :: "parsed_instruction \<Rightarrow> u64 \<Rightarrow> asm_ctx \<Rightarrow> asm_ctx" where
  "record_label inst data_addr ctx =
     (if \<not> inst_has_label inst then ctx
      else let addr = (if current_section ctx = 0 then current_address ctx else data_addr);
               ctx1 = snd (add_symbol (inst_label inst) addr False False (current_section ctx) ctx)
           in ctx1\<lparr>symbols := update_first (\<lambda>s. sym_name s = inst_label inst)
                     (mark_declared inst (current_section ctx)) (symbols ctx1)\<rparr>)"

definition label_pass_step ::
  "(string \<Rightarrow> file_outcome) \<Rightarrow> parsed_instruction \<Rightarrow> asm_ctx \<times> u64 \<Rightarrow> status \<times> asm_ctx \<times> u64" where
  "label_pass_step files inst st =
     (let (ctx, data_addr) = st in
      if inst_type inst = Directive_family INST_SECTION then
        (Done, apply_section_directive inst ctx, data_addr)
      else let ctx1 = record_label inst data_addr ctx in
        if current_section ctx1 = 0 then
          (case advance_counter files inst 0 (current_address ctx1) of
             None \<Rightarrow> (Fail Directive_Error, ctx1, data_addr)
           | Some a \<Rightarrow> (Done, ctx1\<lparr>current_address := a\<rparr>, data_addr))
        else
          (case advance_counter files inst (current_section ctx1) data_addr of
             None \<Rightarrow> (Fail Directive_Error, ctx1, data_addr)
           | Some a \<Rightarrow> (Done, ctx1, a)))"

text \<open>The pass stops at the first failure, in the state it has reached: the labels recorded so far stay.\<close>

fun label_pass ::
  "(string \<Rightarrow> file_outcome) \<Rightarrow> parsed_instruction list \<Rightarrow> asm_ctx \<times> u64 \<Rightarrow> status \<times> asm_ctx \<times> u64" where
  "label_pass files [] st = (Done, st)"
| "label_pass files (inst # insts) st =
     (case label_pass_step files inst st of
        (Fail e, st') \<Rightarrow> (Fail e, st')
      | (Done, st') \<Rightarrow> label_pass files insts st')"

section \<open>Relaxation\<close>

record relax_state =
  rx_ctx :: asm_ctx
  rx_section :: int
  rx_address :: u64
  rx_changed :: bool

text \<open>The label of an instruction moves to the address reached.\<close>

definition relax_label :: "parsed_instruction \<Rightarrow> relax_state \<Rightarrow> relax_state" where
  "relax_label inst st =
     (case (inst_has_label inst, find_symbol_entry (inst_label inst) (rx_ctx st)) of
        (True, Some entry) \<Rightarrow>
          if sym_address entry \<noteq> rx_address st then
            let ctx1 = (rx_ctx st)\<lparr>symbols := update_first (\<lambda>s. sym_name s = inst_label inst)
                  (\<lambda>s. s\<lparr>sym_address := rx_address st\<rparr>) (symbols (rx_ctx st))\<rparr>
            in st\<lparr>rx_changed := True,
                 rx_ctx := snd (symbol_hash_update (inst_label inst) (rx_address st)
                   (sym_is_global entry) (sym_is_external entry) (sym_section entry) ctx1)\<rparr>
          else st
      | _ \<Rightarrow> st)"

text \<open>The number of bytes the layout reserves for an instruction.\<close>

definition relax_size :: "asm_ctx \<Rightarrow> parsed_instruction \<Rightarrow> u64 \<Rightarrow> u64" where
  "relax_size ctx inst address =
     (case inst_type inst of
        Symdir_family _ \<Rightarrow> 0
      | Directive_family INST_TIMES \<Rightarrow> 0
      | Directive_family INST_EQU \<Rightarrow> 0
      | Data_family kind \<Rightarrow> data_size_of kind (inst_operands inst)
      | Reserve_family kind \<Rightarrow>
          (case inst_operands inst of
             op # _ \<Rightarrow> if is_imm op then op_immediate op * reserve_unit kind else 0
           | [] \<Rightarrow> 0)
      | ty \<Rightarrow>
          if ty = Single_family INST_NOP \<and> inst_operands inst = [] \<and> inst_has_label inst then 0
          else of_nat (estimate_instruction_size_relaxed ctx inst address))"

definition relax_step :: "parsed_instruction \<Rightarrow> relax_state \<Rightarrow> relax_state" where
  "relax_step inst st =
     (if inst_type inst = Directive_family INST_SECTION then
        st\<lparr>rx_section := (case section_name_from_instruction inst of
           None \<Rightarrow> 0 | Some name \<Rightarrow> classify_section_name name)\<rparr>
      else if rx_section st = 1 then st
      else let st1 = relax_label inst st
           in st1\<lparr>rx_address := rx_address st1 + relax_size (rx_ctx st1) inst (rx_address st1)\<rparr>)"

definition relax_pass :: "parsed_instruction list \<Rightarrow> asm_ctx \<Rightarrow> relax_state" where
  "relax_pass insts ctx = fold relax_step insts
     \<lparr>rx_ctx = ctx, rx_section = 0, rx_address = base_address ctx, rx_changed = False\<rparr>"

fun relax_iterate :: "nat \<Rightarrow> parsed_instruction list \<Rightarrow> asm_ctx \<Rightarrow> asm_ctx" where
  "relax_iterate 0 insts ctx = ctx"
| "relax_iterate (Suc n) insts ctx =
     (let st = relax_pass insts ctx in
      if rx_changed st then relax_iterate n insts (rx_ctx st) else rx_ctx st)"

definition recompute_text_layout_relaxed :: "parsed_instruction list \<Rightarrow> asm_ctx \<Rightarrow> asm_ctx" where
  "recompute_text_layout_relaxed insts ctx = relax_iterate 8 insts ctx"

end
