(* ===== verification/Assembly.thy ===== *)
theory Assembly
  imports Layout Fixups
begin

text \<open>
  The pass driver \<open>asm_assemble\<close> of src/x86_64_asm.c from the parsed and canonicalised program
  on: the label pass, equ resolution and relaxation, the text pass repeated until no text label
  moves (at most six times with forward short branches and six times without), the symbol
  attributes, the data pass and fixup resolution. The instructions are part of the state: the
  text pass writes their addresses and replaces constant labels by immediates.
\<close>

section \<open>One instruction of the text pass\<close>

record text_state =
  tx_ctx :: asm_ctx
  tx_changed :: bool
  tx_weak :: "string list"
  tx_hidden :: "string list"

text \<open>Every symbol of the label's name takes the address, in the array and in the table.\<close>

definition sync_symbol :: "u64 \<Rightarrow> symbol \<Rightarrow> asm_ctx \<Rightarrow> asm_ctx" where
  "sync_symbol addr s ctx =
     snd (symbol_hash_update (sym_name s) addr (sym_is_global s) (sym_is_external s) (sym_section s) ctx)"

definition place_label :: "parsed_instruction \<Rightarrow> asm_ctx \<Rightarrow> asm_ctx" where
  "place_label inst ctx =
     (if \<not> inst_has_label inst then ctx
      else let addr = current_address ctx in
        fold (sync_symbol addr) (filter (\<lambda>s. sym_name s = inst_label inst) (symbols ctx))
          (ctx\<lparr>symbols := map (\<lambda>s. if sym_name s = inst_label inst then s\<lparr>sym_address := addr\<rparr> else s)
             (symbols ctx)\<rparr>))"

definition label_moves :: "parsed_instruction \<Rightarrow> asm_ctx \<Rightarrow> bool" where
  "label_moves inst ctx \<longleftrightarrow> inst_has_label inst \<and>
     (\<exists>s \<in> set (symbols ctx). sym_name s = inst_label inst \<and> sym_address s \<noteq> current_address ctx)"

definition label_operands :: "parsed_instruction \<Rightarrow> string list" where
  "label_operands inst = map op_label (filter (\<lambda>op. op_type op = OPERAND_LABEL) (inst_operands inst))"

definition mark_global :: "string \<Rightarrow> asm_ctx \<Rightarrow> asm_ctx" where
  "mark_global name ctx = ctx\<lparr>symbols := map (\<lambda>s.
     if sym_name s = name
     then s\<lparr>sym_is_global := True, sym_is_function := (sym_is_function s \<or> sym_section s = 0)\<rparr>
     else s) (symbols ctx)\<rparr>"

definition mark_called :: "parsed_instruction \<Rightarrow> asm_ctx \<Rightarrow> asm_ctx" where
  "mark_called inst ctx =
     (case (inst_type inst, inst_operands inst) of
        (Callret_family INST_CALL, op # _) \<Rightarrow>
          if op_type op = OPERAND_LABEL then
            ctx\<lparr>symbols := update_first (\<lambda>s. sym_name s = op_label op \<and> sym_section s = 0)
              (\<lambda>s. s\<lparr>sym_is_function := True\<rparr>) (symbols ctx)\<rparr>
          else ctx
      | _ \<Rightarrow> ctx)"

definition declare_extern :: "string \<Rightarrow> asm_ctx \<Rightarrow> asm_ctx" where
  "declare_extern name ctx = snd (add_symbol name 0 False True 0 ctx)"

definition map_line :: "parsed_instruction \<Rightarrow> asm_ctx \<Rightarrow> asm_ctx" where
  "map_line inst ctx =
     (if MAX_LINE_MAP \<le> length (line_map ctx) then ctx
      else ctx\<lparr>line_map := line_map ctx @
        [(inst_address inst, if 0 < inst_line_number inst then inst_line_number inst else 1)]\<rparr>)"

text \<open>Encoding with the listing record around it; the record is closed on failure too.\<close>

definition encode_listed :: "file_reader \<Rightarrow> parsed_instruction \<Rightarrow> cmd" where
  "encode_listed files inst ctx =
     (case encode_instruction files inst
         (listing_start_instruction (inst_line_number inst) (inst_original_line inst) ctx) of
        (r, ctx1) \<Rightarrow> (r, listing_end_instruction ctx1))"

text \<open>The operands of a weak or hidden directive are collected; each must be a label and the
  table of names has room for \<open>MAX_SYMBOLS\<close>.\<close>

fun collect_names :: "operand list \<Rightarrow> string list \<Rightarrow> string list + asm_error" where
  "collect_names [] names = Inl names"
| "collect_names (op # ops) names =
     (if op_type op \<noteq> OPERAND_LABEL then Inr Directive_Error
      else if MAX_SYMBOLS \<le> length names then Inr Directive_Error
      else collect_names ops (names @ [copy_bounded_text MAX_LABEL_LENGTH (op_label op)]))"

definition attribute_step :: "symdir_kind \<Rightarrow> operand list \<Rightarrow> text_state \<Rightarrow> status \<times> text_state" where
  "attribute_step kind ops st =
     (if kind = INST_WEAK then
        (case collect_names ops (tx_weak st) of
           Inl names \<Rightarrow> (Done, st\<lparr>tx_weak := names\<rparr>) | Inr e \<Rightarrow> (Fail e, st))
      else
        (case collect_names ops (tx_hidden st) of
           Inl names \<Rightarrow> (Done, st\<lparr>tx_hidden := names\<rparr>) | Inr e \<Rightarrow> (Fail e, st)))"

text \<open>The part behind the label update, with the instruction already rewritten.\<close>

definition text_encode :: "file_reader \<Rightarrow> parsed_instruction \<Rightarrow> cmd" where
  "text_encode files inst ctx =
     (if inst_type inst = Symdir_family INST_GLOBAL then
        (Done, fold mark_global (label_operands inst) ctx)
      else let ctx1 = mark_called inst ctx in
        if inst_type inst = Symdir_family INST_EXTERN then
          (Done, fold declare_extern (label_operands inst) ctx1)
        else if inst_type inst = Single_family INST_NOP \<and> inst_operands inst = [] \<and> inst_has_label inst then
          (Done, ctx1)
        else encode_listed files inst (map_line inst ctx1))"

definition text_step ::
  "file_reader \<Rightarrow> parsed_instruction \<Rightarrow> text_state \<Rightarrow> (status \<times> text_state) \<times> parsed_instruction" where
  "text_step files inst st =
     (let ctx = tx_ctx st in
      if inst_type inst = Directive_family INST_SECTION then
        ((Done, st\<lparr>tx_ctx := apply_section_directive inst ctx\<rparr>), inst)
      else if inst_type inst = Symdir_family INST_WEAK then
        (attribute_step INST_WEAK (inst_operands inst) st, inst)
      else if inst_type inst = Symdir_family INST_HIDDEN then
        (attribute_step INST_HIDDEN (inst_operands inst) st, inst)
      else if current_section ctx = 1 then ((Done, st), inst)
      else let ctx1 = place_label inst ctx;
               inst1 = rewrite_constant_label_operands ctx1 (inst\<lparr>inst_address := current_address ctx1\<rparr>)
           in (case text_encode files inst1 ctx1 of
                 (r, ctx2) \<Rightarrow>
                   ((r, st\<lparr>tx_ctx := ctx2, tx_changed := (tx_changed st \<or> label_moves inst ctx)\<rparr>), inst1)))"

text \<open>A pass stops at the first failure; the instructions behind it stay as they were.\<close>

fun text_pass ::
  "file_reader \<Rightarrow> parsed_instruction list \<Rightarrow> text_state \<Rightarrow> (status \<times> text_state) \<times> parsed_instruction list" where
  "text_pass files [] st = ((Done, st), [])"
| "text_pass files (inst # insts) st =
     (case text_step files inst st of
        ((Fail e, st1), inst1) \<Rightarrow> ((Fail e, st1), inst1 # insts)
      | ((Done, st1), inst1) \<Rightarrow>
          (case text_pass files insts st1 of (out, insts1) \<Rightarrow> (out, inst1 # insts1)))"

section \<open>Iterating the text pass\<close>

definition text_reset :: "asm_ctx \<Rightarrow> text_state" where
  "text_reset ctx = \<lparr>tx_ctx = ctx\<lparr>current_address := base_address ctx, current_section := 0,
       text_section := [], fixup_count := 0, line_map := [], listing_entries := [],
       listing_active := False, listing_active_index := -1\<rparr>,
     tx_changed = False, tx_weak = [], tx_hidden = []\<rparr>"

text \<open>\<open>n\<close> passes at most in one mode: the outcome, with \<open>tx_changed\<close> false when a pass moved no label.\<close>

fun text_iterate ::
  "nat \<Rightarrow> file_reader \<Rightarrow> parsed_instruction list \<Rightarrow> text_state \<Rightarrow> (status \<times> text_state) \<times> parsed_instruction list" where
  "text_iterate 0 files insts st = ((Done, st), insts)"
| "text_iterate (Suc n) files insts st =
     (case text_pass files insts (text_reset (tx_ctx st)) of
        ((Fail e, st1), insts1) \<Rightarrow> ((Fail e, st1), insts1)
      | ((Done, st1), insts1) \<Rightarrow>
          if tx_changed st1 then text_iterate n files insts1 st1 else ((Done, st1), insts1))"

definition text_max_iterations :: nat where
  "text_max_iterations = 6"

definition text_mode :: "bool \<Rightarrow> file_reader \<Rightarrow> parsed_instruction list \<Rightarrow> asm_ctx \<Rightarrow>
    (status \<times> text_state) \<times> parsed_instruction list" where
  "text_mode short files insts ctx =
     text_iterate text_max_iterations files insts
       (text_reset (ctx\<lparr>enable_forward_short_branches := short\<rparr>))"

definition text_passes :: "file_reader \<Rightarrow> parsed_instruction list \<Rightarrow> asm_ctx \<Rightarrow>
    (status \<times> text_state) \<times> parsed_instruction list" where
  "text_passes files insts ctx =
     (case text_mode True files insts ctx of
        ((Fail e, st), insts1) \<Rightarrow> ((Fail e, st), insts1)
      | ((Done, st), insts1) \<Rightarrow>
          if \<not> tx_changed st then ((Done, st), insts1)
          else (case text_mode False files insts1 (tx_ctx st) of
              ((Done, st2), insts2) \<Rightarrow>
                ((Done, if tx_changed st2
                   then st2\<lparr>tx_ctx := (tx_ctx st2)\<lparr>enable_forward_short_branches := False\<rparr>\<rparr>
                   else st2), insts2)
            | out \<Rightarrow> out))"

section \<open>The data pass\<close>

definition data_encode :: "file_reader \<Rightarrow> parsed_instruction \<Rightarrow> cmd" where
  "data_encode files inst ctx =
     (let listed = (\<lambda>c. (case c (listing_start_instruction (inst_line_number inst) (inst_original_line inst) ctx) of
            (r, ctx1) \<Rightarrow> (r :: status, listing_end_instruction ctx1))) in
      case inst_type inst of
        Data_family kind \<Rightarrow> listed (encode_data kind (inst_operands inst))
      | Reserve_family kind \<Rightarrow>
          (case inst_operands inst of
             op # _ \<Rightarrow> if op_type op = OPERAND_IMM then listed (encode_reserve kind (inst_operands inst))
                       else (Done, ctx)
           | [] \<Rightarrow> (Done, ctx))
      | Directive_family kind \<Rightarrow>
          if kind = INST_ALIGN \<or> kind = INST_INCBIN then encode_listed files inst ctx else (Done, ctx)
      | Common_family _ \<Rightarrow> encode_listed files inst ctx
      | _ \<Rightarrow> (Done, ctx))"

definition data_step :: "file_reader \<Rightarrow> parsed_instruction \<Rightarrow> cmd" where
  "data_step files inst ctx =
     (if inst_type inst = Directive_family INST_SECTION then (Done, apply_section_directive inst ctx)
      else if current_section ctx = 0 then (Done, ctx)
      else let ctx1 = place_label inst ctx
           in data_encode files (rewrite_constant_label_operands ctx1 inst) ctx1)"

definition data_pass :: "file_reader \<Rightarrow> parsed_instruction list \<Rightarrow> cmd" where
  "data_pass files insts ctx =
     run_seq (map (data_step files) insts)
       (ctx\<lparr>current_section := 0, data_section := [],
          current_address := base_address ctx + of_nat (length (text_section ctx))\<rparr>)"

section \<open>The driver\<close>

text \<open>The passes before code is emitted.\<close>

definition label_passes :: "file_reader \<Rightarrow> parsed_instruction list \<Rightarrow> cmd" where
  "label_passes files insts ctx =
     (let ctx0 = ctx\<lparr>current_address := base_address ctx, line_map := [], listing_entries := [],
            listing_active_index := -1, listing_active := False\<rparr>;
          data_address = base_address ctx + estimate_text_size insts ctx0 in
      case label_pass files insts (ctx0\<lparr>current_section := 0\<rparr>, data_address) of
        (Fail e, ctx1, _) \<Rightarrow> (Fail e, ctx1)
      | (Done, ctx1, _) \<Rightarrow>
          run_seq [resolve_equ_symbol_values insts,
            \<lambda>c. (Done, recompute_text_layout_relaxed insts c),
            resolve_equ_symbol_values insts] ctx1)"

definition assemble_parsed :: "file_reader \<Rightarrow> parsed_instruction list \<Rightarrow> cmd" where
  "assemble_parsed files insts ctx =
     (case label_passes files insts ctx of
        (Fail e, ctx1) \<Rightarrow> (Fail e, ctx1)
      | (Done, ctx1) \<Rightarrow>
          (case text_passes files insts ctx1 of
             ((Fail e, st), _) \<Rightarrow> (Fail e, tx_ctx st)
           | ((Done, st), insts1) \<Rightarrow>
               run_seq [apply_symbol_attributes (tx_weak st) True False,
                 apply_symbol_attributes (tx_hidden st) False True,
                 data_pass files insts1, resolve_fixups] (tx_ctx st)))"

end
