(* ===== verification/Table_Refinement.thy ===== *)
theory Table_Refinement
  imports Assembly
begin

text \<open>
  The symbol array is the reference copy of the labels and the hash table the one that is read
  when code is emitted. \<open>table_ok\<close> says that reading the table by name is reading the array by
  name; every operation of an assembly keeps it, and those of a pass other than the placement of
  a label also keep the bindings of the names already bound (\<open>names_kept\<close>).
\<close>

section \<open>The two views\<close>

type_synonym name_info = "u64 \<times> int \<times> bool"

definition sym_row :: "symbol \<Rightarrow> string \<times> name_info" where
  "sym_row s = (sym_name s, sym_address s, sym_section s, sym_is_external s)"

definition array_view :: "asm_ctx \<Rightarrow> string \<Rightarrow> name_info option" where
  "array_view ctx = map_of (map sym_row (symbols ctx))"

definition table_view :: "asm_ctx \<Rightarrow> string \<Rightarrow> name_info option" where
  "table_view ctx n = map_option (\<lambda>e. (he_address e, he_section e, he_is_external e))
     (symbol_hash_lookup n ctx)"

definition table_ok :: "asm_ctx \<Rightarrow> bool" where
  "table_ok ctx \<longleftrightarrow> table_view ctx = array_view ctx \<and> distinct (map sym_name (symbols ctx)) \<and>
     (\<forall>n e. symbol_hash_lookup n ctx = Some e \<longrightarrow> he_is_resolved e)"

definition names_kept :: "asm_ctx \<Rightarrow> asm_ctx \<Rightarrow> bool" where
  "names_kept s t \<longleftrightarrow> (table_ok s \<longrightarrow> table_ok t \<and> table_view s \<subseteq>\<^sub>m table_view t)"

text \<open>\<open>table_step\<close> collects the operations that satisfy \<open>names_kept\<close>.\<close>

named_theorems table_step

lemma names_kept_refl [simp, table_step]: "names_kept s s"
  by (simp add: names_kept_def)

lemma names_kept_trans: "names_kept s t \<Longrightarrow> names_kept t u \<Longrightarrow> names_kept s u"
  unfolding names_kept_def by (blast intro: map_le_trans)

lemma names_kept_ok: "names_kept s t \<Longrightarrow> table_ok s \<Longrightarrow> table_ok t"
  by (simp add: names_kept_def)

lemma table_ok_init: "table_ok asm_init"
  by (simp add: table_ok_def table_view_def array_view_def asm_init_def symbol_hash_lookup_def fun_eq_iff)

section \<open>Reading the array\<close>

lemma find_row:
  "map_option sym_row (find (\<lambda>s. sym_name s = n) xs) = map_option (Pair n) (map_of (map sym_row xs) n)"
  by (induction xs) (auto simp: sym_row_def)

lemma find_symbol_entry_row:
  "map_option sym_row (find_symbol_entry n ctx) = map_option (Pair n) (array_view ctx n)"
  unfolding find_symbol_entry_def array_view_def by (rule find_row)

lemma find_symbol_entry_Some:
  assumes "find_symbol_entry n ctx = Some s"
  shows "array_view ctx n = Some (sym_address s, sym_section s, sym_is_external s)" "sym_name s = n"
  using find_symbol_entry_row [of n ctx] assms
  by (cases "array_view ctx n"; simp add: sym_row_def)+

lemma find_symbol_entry_None: "find_symbol_entry n ctx = None \<longleftrightarrow> array_view ctx n = None"
  using find_symbol_entry_row [of n ctx] by (metis option.map_disc_iff)

lemma table_resolved: "table_ok ctx \<Longrightarrow> symbol_hash_lookup n ctx = Some e \<Longrightarrow> he_is_resolved e"
  by (simp add: table_ok_def)

lemma table_array: "table_ok ctx \<Longrightarrow> array_view ctx = table_view ctx"
  by (simp add: table_ok_def)

lemma find_symbol_address_view:
  assumes "table_ok ctx"
  shows "find_symbol_address n ctx = map_option fst (table_view ctx n)"
  using table_resolved [OF assms, of n]
  by (cases "symbol_hash_lookup n ctx") (simp_all add: find_symbol_address_def table_view_def)

lemma find_symbol_address_array:
  assumes "table_ok ctx"
  shows "find_symbol_address n ctx = map_option sym_address (find_symbol_entry n ctx)"
  using find_symbol_entry_row [of n ctx] find_symbol_address_view [OF assms, of n]
  by (cases "find_symbol_entry n ctx"; cases "array_view ctx n")
    (auto simp: sym_row_def table_array [OF assms, symmetric])

text \<open>The other fields play no part.\<close>

lemma table_fields [simp]:
  "table_ok (s\<lparr>current_address := a\<rparr>) = table_ok s" "table_ok (s\<lparr>current_section := i\<rparr>) = table_ok s"
  "table_ok (s\<lparr>text_section := xs\<rparr>) = table_ok s" "table_ok (s\<lparr>data_section := xs\<rparr>) = table_ok s"
  "table_ok (s\<lparr>fixup_count := k\<rparr>) = table_ok s" "table_ok (s\<lparr>line_map := lm\<rparr>) = table_ok s"
  "table_ok (s\<lparr>listing_entries := le\<rparr>) = table_ok s" "table_ok (s\<lparr>listing_active := b\<rparr>) = table_ok s"
  "table_ok (s\<lparr>listing_active_index := j\<rparr>) = table_ok s"
  "table_ok (s\<lparr>enable_forward_short_branches := b\<rparr>) = table_ok s"
  by (simp_all add: table_ok_def table_view_def array_view_def symbol_hash_lookup_def fun_eq_iff)

section \<open>Writing both copies\<close>

text \<open>What a change must do to keep the copies in step: the table and the array take the same
  new binding.\<close>

lemma table_okI:
  assumes "table_ok s" "table_view t = m" "array_view t = m" "map sym_name (symbols t) = map sym_name (symbols s)"
    and "\<And>n e. symbol_hash_lookup n t = Some e \<Longrightarrow> he_is_resolved e"
  shows "table_ok t"
  using assms by (simp add: table_ok_def)

lemma table_view_hash_only:
  "symbol_hash_table t = symbol_hash_table s \<Longrightarrow> table_view t = table_view s"
  by (simp add: table_view_def symbol_hash_lookup_def fun_eq_iff)

lemma names_kept_rows:
  assumes "symbol_hash_table t = symbol_hash_table s" "map sym_row (symbols t) = map sym_row (symbols s)"
  shows "names_kept s t"
proof -
  have "map fst (map sym_row (symbols t)) = map fst (map sym_row (symbols s))"
    using assms(2) by simp
  then have "map sym_name (symbols t) = map sym_name (symbols s)"
    by (simp add: comp_def sym_row_def)
  moreover have "symbol_hash_lookup n t = symbol_hash_lookup n s" for n
    using assms(1) by (simp add: symbol_hash_lookup_def)
  ultimately show ?thesis
    using assms table_view_hash_only [OF assms(1)]
    by (simp add: names_kept_def table_ok_def array_view_def)
qed

lemma names_kept_same:
  "symbol_hash_table t = symbol_hash_table s \<Longrightarrow> symbols t = symbols s \<Longrightarrow> names_kept s t"
  by (simp add: names_kept_rows)

lemma names_kept_map:
  assumes "\<And>x. sym_row (f x) = sym_row x"
  shows "names_kept s (s\<lparr>symbols := map f (symbols s)\<rparr>)"
    "names_kept s (s\<lparr>symbols := update_first P f (symbols s)\<rparr>)"
  using assms by (auto intro!: names_kept_rows simp: map_update_first)

lemma map_of_update_first:
  assumes "\<And>x. find (\<lambda>x. sym_name x = n) xs = Some x \<Longrightarrow> sym_row (f x) = (n, v)"
  shows "map_of (map sym_row (update_first (\<lambda>x. sym_name x = n) f xs)) =
    (if map_of (map sym_row xs) n = None then map_of (map sym_row xs) else (map_of (map sym_row xs))(n \<mapsto> v))"
  using assms by (induction xs) (auto simp: sym_row_def fun_eq_iff)

lemma names_update_first:
  assumes "\<And>x. sym_name (f x) = sym_name x"
  shows "map sym_name (update_first P f xs) = map sym_name xs"
  using assms by (rule map_update_first)

lemma table_view_update:
  assumes "symbol_hash_lookup n ctx \<noteq> None"
  shows "table_view (snd (symbol_hash_update n a g x sec ctx)) = (table_view ctx)(n \<mapsto> (a, sec, x))"
  using assms by (auto simp: table_view_def lookup_update fun_eq_iff)

lemma resolved_update:
  assumes "table_ok ctx" "symbol_hash_lookup m (snd (symbol_hash_update n a g x sec ctx)) = Some e"
  shows "he_is_resolved e"
proof (cases "symbol_hash_lookup n ctx")
  case None
  with assms show ?thesis by (auto simp: symbol_hash_update_def table_ok_def)
next
  case (Some e0)
  with assms show ?thesis by (auto simp: lookup_update table_ok_def split: if_splits)
qed

lemma symbols_hash_update [simp]: "symbols (snd (symbol_hash_update n a g x sec ctx)) = symbols ctx"
  by (simp add: symbol_hash_update_def update_entry_def Let_def split: option.split)

lemma symbol_hash_update_frame:
  "snd (symbol_hash_update n a g x sec ctx) =
     ctx\<lparr>symbol_hash_table := symbol_hash_table (snd (symbol_hash_update n a g x sec ctx))\<rparr>"
  by (simp add: symbol_hash_update_def update_entry_def Let_def split: option.split)

text \<open>Rebinding a bound name in both copies.\<close>

lemma table_ok_rebind:
  assumes ok: "table_ok s" and bound: "table_view s n \<noteq> None"
    and row: "\<And>x. find_symbol_entry n s = Some x \<Longrightarrow> sym_row (f x) = (n, a, sec, x')"
      "\<And>x. sym_name (f x) = sym_name x"
    and t: "symbols t = update_first (\<lambda>s. sym_name s = n) f (symbols s)"
      "symbol_hash_table t = symbol_hash_table (snd (symbol_hash_update n a g x' sec s))"
  shows "table_ok t" "table_view t = (table_view s)(n \<mapsto> (a, sec, x'))"
proof -
  let ?u = "snd (symbol_hash_update n a g x' sec s)"
  have look: "symbol_hash_lookup m t = symbol_hash_lookup m ?u" for m
    using t(2) by (simp add: symbol_hash_lookup_def)
  have "symbol_hash_lookup n s \<noteq> None" using bound by (simp add: table_view_def)
  from table_view_update [OF this] show tv: "table_view t = (table_view s)(n \<mapsto> (a, sec, x'))"
    using table_view_hash_only [OF t(2)] by simp
  have "array_view t = (table_view s)(n \<mapsto> (a, sec, x'))"
    using map_of_update_first [of n "symbols s" f "(a, sec, x')", OF row(1) [unfolded find_symbol_entry_def]] bound table_array [OF ok]
    by (simp add: array_view_def t(1) del: not_None_eq)
  from table_okI [OF ok tv this] show "table_ok t"
    using resolved_update [OF ok] by (simp add: t(1) names_update_first row(2) look)
qed

text \<open>Binding a new name in both copies.\<close>

lemma names_kept_add_symbol [table_step]:
  assumes "name_fits n"
  shows "names_kept s (snd (add_symbol n a g x sec s))"
  unfolding names_kept_def
proof
  assume ok: "table_ok s"
  show "table_ok (snd (add_symbol n a g x sec s)) \<and> table_view s \<subseteq>\<^sub>m table_view (snd (add_symbol n a g x sec s))"
  proof (cases "MAX_SYMBOLS \<le> length (symbols s) \<or> symbol_hash_lookup n s \<noteq> None")
    case True
    with ok show ?thesis by (auto simp: add_symbol_def table_resolved split: option.split)
  next
    case False
    then have new: "symbol_hash_lookup n s = None" and room: "\<not> MAX_SYMBOLS \<le> length (symbols s)" by simp_all
    define y where "y = \<lparr>sym_name = n, sym_address = a, sym_decl_line = 0, sym_decl_column = 1,
      sym_is_resolved = True, sym_is_external = x, sym_is_global = g, sym_is_weak = False,
      sym_is_hidden = False, sym_is_function = False, sym_section = sec\<rparr>"
    define s1 where "s1 = s\<lparr>symbols := symbols s @ [y]\<rparr>"
    have t: "snd (add_symbol n a g x sec s) = snd (symbol_hash_insert n a g x sec s1)"
      using new room by (simp add: add_symbol_def s1_def y_def copy_name_fits [OF assms])
    have look: "symbol_hash_lookup m (snd (symbol_hash_insert n a g x sec s1)) =
      (if m = n then Some \<lparr>he_name = n, he_address = a, he_is_resolved = True, he_is_global = g,
         he_is_external = x, he_section = sec\<rparr> else symbol_hash_lookup m s)" for m
      using lookup_insert [OF assms, of m a g x sec s1] by (simp add: s1_def symbol_hash_lookup_def)
    have tv: "table_view (snd (symbol_hash_insert n a g x sec s1)) = (table_view s)(n \<mapsto> (a, sec, x))"
      by (simp add: table_view_def look fun_eq_iff)
    have syms: "symbols (snd (symbol_hash_insert n a g x sec s1)) = symbols s @ [y]"
      by (simp add: symbol_hash_insert_def Let_def s1_def)
    have unbound: "table_view s n = None" using new by (simp add: table_view_def)
    then have "map_of (map sym_row (symbols s)) n = None"
      using table_array [OF ok] by (simp add: array_view_def)
    then have fresh: "n \<notin> set (map sym_name (symbols s))"
      by (auto simp: map_of_eq_None_iff sym_row_def image_iff)
    have "array_view (snd (symbol_hash_insert n a g x sec s1)) = (table_view s)(n \<mapsto> (a, sec, x))"
      using fresh table_array [OF ok]
      by (simp add: array_view_def syms sym_row_def y_def fun_eq_iff map_add_def
          split: option.split) (metis (no_types, lifting) \<open>table_view s n = None\<close> option.distinct(1))
    moreover have "distinct (map sym_name (symbols s @ [y]))"
      using ok fresh by (simp add: table_ok_def y_def)
    ultimately have "table_ok (snd (symbol_hash_insert n a g x sec s1))"
      using tv look ok by (simp add: table_ok_def syms)
    with tv unbound t show ?thesis by (auto simp: map_le_def)
  qed
qed

section \<open>The passes before code is emitted\<close>

lemma table_ok_upsert:
  assumes ok: "table_ok s" and fits: "name_fits n"
  shows "table_ok (snd (upsert_constant_symbol n v s))"
proof (cases "symbol_hash_lookup n s")
  case None
  then show ?thesis
    using names_kept_ok [OF names_kept_add_symbol [OF fits] ok] by (simp add: upsert_constant_symbol_def)
next
  case (Some e)
  show ?thesis
  proof (cases "he_is_external e")
    case True
    with Some ok show ?thesis by (simp add: upsert_constant_symbol_def)
  next
    case False
    obtain u where u: "symbol_hash_update n v (he_is_global e) False (-1) s = (Done, u)"
      using symbol_hash_update_done [of n s v "he_is_global e" False "-1"] Some
      by (metis option.distinct(1) prod.collapse)
    then have u': "u = snd (symbol_hash_update n v (he_is_global e) False (-1) s)" by simp
    have bound: "table_view s n \<noteq> None" using Some by (simp add: table_view_def)
    then have "find_symbol_entry n s \<noteq> None"
      using table_array [OF ok] by (simp add: find_symbol_entry_None)
    then have "find_symbol_entry n u \<noteq> None" by (simp add: find_symbol_entry_def u')
    with Some False u have t: "snd (upsert_constant_symbol n v s) = u\<lparr>symbols :=
        update_first (\<lambda>s. sym_name s = n) (\<lambda>s. s\<lparr>sym_address := v, sym_is_resolved := True,
          sym_is_external := False, sym_section := -1\<rparr>) (symbols u)\<rparr>"
      by (simp add: upsert_constant_symbol_def)
    show ?thesis
      unfolding t
      by (rule table_ok_rebind(1) [OF ok bound, where a = v and sec = "-1" and x' = False and
            g = "he_is_global e" and f = "\<lambda>s. s\<lparr>sym_address := v, sym_is_resolved := True,
          sym_is_external := False, sym_section := -1\<rparr>"])
        (simp_all add: sym_row_def find_symbol_entry_Some(2) u')
  qed
qed

definition labels_fit :: "parsed_instruction \<Rightarrow> bool" where
  "labels_fit inst \<longleftrightarrow> name_fits (inst_label inst) \<and> (\<forall>op \<in> set (inst_operands inst). name_fits (op_label op))"

lemma labels_fit_label: "labels_fit inst \<Longrightarrow> name_fits (inst_label inst)"
  by (simp add: labels_fit_def)

lemma table_ok_resolve_equ_one:
  "table_ok s \<Longrightarrow> labels_fit inst \<Longrightarrow> table_ok (snd (resolve_equ_one inst s))"
  by (auto simp: resolve_equ_one_def Let_def table_ok_upsert labels_fit_label split: option.split)

lemma table_ok_run_seq:
  assumes "\<And>c s. c \<in> set cs \<Longrightarrow> table_ok s \<Longrightarrow> table_ok (snd (c s))" "table_ok s"
  shows "table_ok (snd (run_seq cs s))"
  using assms
proof (induction cs arbitrary: s)
  case (Cons c cs)
  obtain r s1 where s1: "c s = (r, s1)" by fastforce
  with Cons.prems(1) [of c s] Cons.prems(2) have "table_ok s1" by simp
  with Cons.IH [of s1] Cons.prems(1) s1 show ?case by (simp split: status.split)
qed simp

lemma table_ok_resolve_equ:
  "table_ok s \<Longrightarrow> \<forall>inst \<in> set insts. labels_fit inst \<Longrightarrow> table_ok (snd (resolve_equ_symbol_values insts s))"
  unfolding resolve_equ_symbol_values_def
  by (rule table_ok_run_seq) (auto intro: table_ok_resolve_equ_one)

lemma names_kept_section [table_step]: "names_kept s (apply_section_directive inst s)"
  by (rule names_kept_same) (simp_all add: apply_section_directive_def split: option.split)

lemma names_kept_record_label:
  assumes "labels_fit inst"
  shows "names_kept s (record_label inst a s)"
proof (cases "inst_has_label inst")
  case True
  let ?t = "snd (add_symbol (inst_label inst) (if current_section s = 0 then current_address s else a)
    False False (current_section s) s)"
  have "names_kept s ?t" by (rule names_kept_add_symbol [OF labels_fit_label [OF assms]])
  moreover have "names_kept ?t (record_label inst a s)"
    unfolding record_label_def using True
    by (simp add: Let_def names_kept_map(2) mark_declared_def sym_row_def)
  ultimately show ?thesis by (rule names_kept_trans)
qed (simp add: record_label_def)

lemma table_ok_label_pass_step:
  assumes "table_ok (fst st)" "labels_fit inst" "label_pass_step files inst st = (r, st')"
  shows "table_ok (fst st')"
proof -
  obtain s a where st: "st = (s, a)" by (cases st)
  have "table_ok (record_label inst a s)"
    using names_kept_ok [OF names_kept_record_label [OF assms(2)]] assms(1) st by simp
  moreover have "table_ok (apply_section_directive inst s)"
    using names_kept_ok [OF names_kept_section] assms(1) st by simp
  ultimately show ?thesis
    using assms(3) st by (auto simp: label_pass_step_def Let_def split: if_splits option.splits)
qed

lemma table_ok_label_pass:
  "label_pass files insts st = (r, st') \<Longrightarrow> table_ok (fst st) \<Longrightarrow> \<forall>inst \<in> set insts. labels_fit inst \<Longrightarrow>
   table_ok (fst st')"
  by (induction files insts st rule: label_pass.induct)
    (auto split: prod.splits status.splits dest: table_ok_label_pass_step)

text \<open>Moving a bound label: its address changes in both copies, nothing else.\<close>

definition move_name :: "string \<Rightarrow> u64 \<Rightarrow> asm_ctx \<Rightarrow> asm_ctx \<Rightarrow> bool" where
  "move_name n a s t \<longleftrightarrow> (table_ok s \<longrightarrow> table_ok t \<and>
     table_view t = (case table_view s n of
        None \<Rightarrow> table_view s | Some (_, sec, x) \<Rightarrow> (table_view s)(n \<mapsto> (a, sec, x))))"

lemma move_name_symbol:
  assumes entry: "find_symbol_entry n s = Some e"
    and t: "symbols t = update_first (\<lambda>s. sym_name s = n) (\<lambda>s. s\<lparr>sym_address := a\<rparr>) (symbols s)"
      "symbol_hash_table t = symbol_hash_table (snd (symbol_hash_update n a g (sym_is_external e) (sym_section e) s))"
  shows "move_name n a s t"
  unfolding move_name_def
proof
  assume ok: "table_ok s"
  note row = find_symbol_entry_Some [OF entry]
  have bound: "table_view s n = Some (sym_address e, sym_section e, sym_is_external e)"
    using row(1) table_array [OF ok] by simp
  have "table_ok t" "table_view t = (table_view s)(n \<mapsto> (a, sym_section e, sym_is_external e))"
    using bound by (auto intro!: table_ok_rebind [OF ok _ _ _ t] simp: sym_row_def entry row(2))
  with bound show "table_ok t \<and> table_view t = (case table_view s n of
      None \<Rightarrow> table_view s | Some (_, sec, x) \<Rightarrow> (table_view s)(n \<mapsto> (a, sec, x)))"
    by simp
qed

lemma hash_update_other_field:
  "symbol_hash_table (snd (symbol_hash_update n a g x sec (s\<lparr>symbols := y\<rparr>))) =
   symbol_hash_table (snd (symbol_hash_update n a g x sec s))"
  by (simp add: symbol_hash_update_def symbol_hash_lookup_def update_entry_def Let_def split: option.split)

lemma table_ok_relax_label:
  assumes ok: "table_ok (rx_ctx st)"
  shows "table_ok (rx_ctx (relax_label inst st))"
proof (cases "find_symbol_entry (inst_label inst) (rx_ctx st)")
  case (Some entry)
  let ?n = "inst_label inst" and ?s = "rx_ctx st"
  define u where "u = snd (symbol_hash_update ?n (rx_address st) (sym_is_global entry) (sym_is_external entry)
      (sym_section entry) (?s\<lparr>symbols := update_first (\<lambda>s. sym_name s = ?n)
        (\<lambda>s. s\<lparr>sym_address := rx_address st\<rparr>) (symbols ?s)\<rparr>))"
  have "move_name ?n (rx_address st) ?s u"
    by (rule move_name_symbol [OF Some, where g = "sym_is_global entry"])
      (simp_all add: u_def hash_update_other_field)
  with ok have "table_ok u" by (simp add: move_name_def)
  moreover have "rx_ctx (relax_label inst st) = ?s \<or> rx_ctx (relax_label inst st) = u"
    using Some by (simp add: relax_label_def Let_def u_def split: bool.split)
  ultimately show ?thesis using ok by fastforce
next
  case None
  with ok show ?thesis by (simp add: relax_label_def split: bool.split)
qed

lemma table_ok_relax_step: "table_ok (rx_ctx st) \<Longrightarrow> table_ok (rx_ctx (relax_step inst st))"
  using table_ok_relax_label [of st inst] by (simp add: relax_step_def Let_def)

lemma table_ok_relax_pass: "table_ok s \<Longrightarrow> table_ok (rx_ctx (relax_pass insts s))"
proof -
  have "table_ok (rx_ctx st) \<Longrightarrow> table_ok (rx_ctx (fold relax_step insts st))" for st
    by (induction insts arbitrary: st) (simp_all add: table_ok_relax_step)
  then show "table_ok s \<Longrightarrow> table_ok (rx_ctx (relax_pass insts s))" by (simp add: relax_pass_def)
qed

lemma table_ok_relax_iterate: "table_ok s \<Longrightarrow> table_ok (relax_iterate n insts s)"
  by (induction n arbitrary: s) (simp_all add: Let_def table_ok_relax_pass)

lemma table_ok_label_passes:
  assumes "table_ok s" "\<forall>inst \<in> set insts. labels_fit inst"
  shows "table_ok (snd (label_passes files insts s))"
proof -
  define s0 where "s0 = s\<lparr>current_address := base_address s, line_map := [], listing_entries := [],
            listing_active_index := -1, listing_active := False\<rparr>"
  have s0: "table_ok s0" using assms(1) by (simp add: s0_def)
  obtain r c d where pass: "label_pass files insts (s0\<lparr>current_section := 0\<rparr>,
      base_address s + estimate_text_size insts s0) = (r, c, d)" by (metis prod.collapse)
  have c: "table_ok c" using table_ok_label_pass [OF pass] s0 assms(2) by simp
  show ?thesis
  proof (cases r)
    case (Fail e)
    with pass c show ?thesis by (simp add: label_passes_def s0_def Let_def)
  next
    case Done
    from c have "table_ok (snd (run_seq [resolve_equ_symbol_values insts,
            \<lambda>c. (Done, recompute_text_layout_relaxed insts c),
            resolve_equ_symbol_values insts] c))"
      by (intro table_ok_run_seq) (auto simp: recompute_text_layout_relaxed_def table_ok_relax_iterate
          table_ok_resolve_equ assms(2))
    with Done pass show ?thesis by (simp add: label_passes_def s0_def Let_def)
  qed
qed

section \<open>The text pass\<close>

lemma update_first_map:
  assumes "distinct (map sym_name xs)"
  shows "map (\<lambda>s. if sym_name s = n then f s else s) xs = update_first (\<lambda>s. sym_name s = n) f xs"
  using assms by (induction xs) (auto simp: update_first_absent find_name_None)

lemma filter_name:
  assumes "distinct (map sym_name xs)"
  shows "filter (\<lambda>s. sym_name s = n) xs = (case find (\<lambda>s. sym_name s = n) xs of None \<Rightarrow> [] | Some x \<Rightarrow> [x])"
  using assms by (induction xs) (auto simp: filter_empty_conv find_name_None [THEN iffD2])

lemma place_label_move:
  assumes ok: "table_ok s" and lab: "inst_has_label inst"
  shows "move_name (inst_label inst) (current_address s) s (place_label inst s)"
proof -
  let ?n = "inst_label inst" and ?a = "current_address s"
  define s1 where "s1 = s\<lparr>symbols := update_first (\<lambda>s. sym_name s = ?n) (\<lambda>s. s\<lparr>sym_address := ?a\<rparr>) (symbols s)\<rparr>"
  have dist: "distinct (map sym_name (symbols s))" using ok by (simp add: table_ok_def)
  have t: "place_label inst s = fold (sync_symbol ?a)
      (case find_symbol_entry ?n s of None \<Rightarrow> [] | Some x \<Rightarrow> [x]) s1"
    using lab by (simp add: place_label_def Let_def s1_def filter_name [OF dist] find_symbol_entry_def
        update_first_map [OF dist])
  show ?thesis
  proof (cases "find_symbol_entry ?n s")
    case None
    then have "place_label inst s = s"
      by (simp add: t s1_def update_first_absent find_symbol_entry_def)
    moreover have "table_view s ?n = None"
      using None table_array [OF ok] by (simp add: find_symbol_entry_None)
    ultimately show ?thesis by (simp add: move_name_def)
  next
    case (Some e)
    have "sym_name e = ?n" using find_symbol_entry_Some(2) [OF Some] .
    then show ?thesis
      by (intro move_name_symbol [OF Some, where g = "sym_is_global e"])
        (simp_all add: t Some sync_symbol_def s1_def hash_update_other_field)
  qed
qed

lemma table_ok_place_label: "table_ok s \<Longrightarrow> table_ok (place_label inst s)"
  using place_label_move [of s inst] by (cases "inst_has_label inst") (simp_all add: move_name_def place_label_def)

lemma place_label_still:
  assumes ok: "table_ok s" and still: "\<not> label_moves inst s"
  shows "table_view (place_label inst s) = table_view s"
proof (cases "inst_has_label inst")
  case True
  have mv: "move_name (inst_label inst) (current_address s) s (place_label inst s)"
    by (rule place_label_move [OF ok True])
  show ?thesis
  proof (cases "find_symbol_entry (inst_label inst) s")
    case None
    then have "table_view s (inst_label inst) = None"
      using table_array [OF ok] by (simp add: find_symbol_entry_None)
    with mv ok show ?thesis by (simp add: move_name_def)
  next
    case (Some e)
    then have "e \<in> set (symbols s)" "sym_name e = inst_label inst"
      by (auto simp: find_symbol_entry_def dest: find_name_some)
    with still True have "sym_address e = current_address s" by (auto simp: label_moves_def)
    moreover have "table_view s (inst_label inst) = Some (sym_address e, sym_section e, sym_is_external e)"
      using find_symbol_entry_Some(1) [OF Some] table_array [OF ok] by simp
    ultimately show ?thesis using mv ok by (auto simp: move_name_def)
  qed
qed (simp add: place_label_def)

text \<open>After its placement a bound label has the current address.\<close>

lemma place_label_address:
  assumes "table_ok s" "inst_has_label inst" "table_view s (inst_label inst) \<noteq> None"
  shows "map_option fst (table_view (place_label inst s) (inst_label inst)) = Some (current_address s)"
  using place_label_move [OF assms(1,2)] assms(1,3) by (auto simp: move_name_def)

lemma names_kept_grows: "grows s t \<Longrightarrow> names_kept s t"
  by (rule names_kept_same) (simp_all add: grows_defs)

lemma grows_emit_ignoring: "grows s (emit_ignoring bs s)"
  unfolding emit_ignoring_def
proof (induction bs arbitrary: s)
  case (Cons b bs)
  have "grows s (snd (emit_byte b s))"
    using emitter_emit_byte [of b] by (simp add: emitter_def)
  from grows_trans [OF this Cons.IH] show ?case by simp
qed simp

lemma names_kept_emit_ignoring [table_step]: "names_kept s (emit_ignoring bs s)"
  by (rule names_kept_grows [OF grows_emit_ignoring])

lemma names_kept_common:
  assumes "\<forall>op \<in> set ops. name_fits (op_label op)"
  shows "names_kept s (snd (encode_common ck ops s))"
proof -
  have "names_kept s (emit_ignoring bs (snd (add_symbol (op_label op) a g x sec s1)))"
    if "names_kept s s1" "op \<in> set ops" for bs op a g x sec s1
    using that assms by (meson names_kept_add_symbol names_kept_emit_ignoring names_kept_trans)
  then show ?thesis
    by (auto simp: encode_common_def Let_def names_kept_emit_ignoring split: list.split)
qed

lemma names_kept_dispatch:
  assumes "labels_fit inst"
  shows "names_kept s (snd (dispatch files inst s))"
proof (cases "is_machine_type (inst_type inst)")
  case True
  then show ?thesis
    using enc_dispatch [OF True, of files] by (simp add: encoder_cmd_def emitter_def names_kept_grows)
next
  case False
  have "\<forall>op \<in> set (inst_operands inst). name_fits (op_label op)" using assms by (simp add: labels_fit_def)
  note common = names_kept_common [OF this]
  have "names_kept s (snd (encode_data k ops s))" "names_kept s (snd (encode_reserve rk ops s))"
    "names_kept s (snd (encode_align ops s))" "names_kept s (snd (encode_incbin files ops s))" for k rk ops
    by (auto simp: encode_data_def encode_reserve_def encode_align_def encode_incbin_def Let_def
        names_kept_emit_ignoring split: list.splits file_outcome.splits)
  with False show ?thesis
    by (auto simp: dispatch_def is_machine_type_def common names_kept_section
        split: instruction_type.splits directive_kind.splits)
qed

lemma names_kept_encode:
  assumes "labels_fit inst"
  shows "names_kept s (snd (encode_instruction files inst s))"
proof (cases "scan_segment_override MEM_SEG_DEFAULT (inst_operands inst)")
  case (Some seg)
  obtain r s1 where s1: "emit_segment_prefix seg s = (r, s1)" by fastforce
  have "grows s s1" using enc_segment_prefix [of seg] s1 by (auto simp: encoder_cmd_def dest!: emitterD)
  with Some s1 names_kept_dispatch [OF assms, of s1 files] show ?thesis
    by (auto simp: encode_instruction_def split: status.splits prod.splits
        intro: names_kept_trans [OF names_kept_grows])
qed (simp add: encode_instruction_def fail_def)

lemma names_kept_fold:
  "(\<And>x s. x \<in> set xs \<Longrightarrow> names_kept s (f x s)) \<Longrightarrow> names_kept s (fold f xs s)"
  by (induction xs arbitrary: s) (auto intro: names_kept_trans)

lemma names_kept_mark_called: "names_kept s (mark_called inst s)"
  by (auto simp: mark_called_def sym_row_def intro!: names_kept_map
      split: instruction_type.split callret_kind.split list.split)

lemma names_kept_listed:
  assumes "labels_fit inst"
  shows "names_kept s (snd (encode_listed files inst s))"
proof -
  define s0 where "s0 = listing_start_instruction (inst_line_number inst) (inst_original_line inst) s"
  obtain r s1 where s1: "encode_instruction files inst s0 = (r, s1)" by fastforce
  have "names_kept s s0"
    by (rule names_kept_same) (simp_all add: s0_def listing_start_instruction_def Let_def)
  moreover have "names_kept s0 s1" using names_kept_encode [OF assms, of s0 files] s1 by simp
  moreover have "names_kept s1 (listing_end_instruction s1)"
    by (rule names_kept_same) (simp_all add: listing_end_instruction_def Let_def)
  ultimately show ?thesis
    using s1 by (auto simp: encode_listed_def s0_def intro: names_kept_trans)
qed

lemma names_kept_text_encode:
  assumes fit: "labels_fit inst"
  shows "names_kept s (snd (text_encode files inst s))"
proof -
  have glob: "names_kept s (fold mark_global xs s)" for xs
    by (rule names_kept_fold) (simp add: mark_global_def names_kept_map(1) sym_row_def)
  have "names_kept s1 (fold declare_extern (label_operands inst) s1)" for s1
    using fit by (intro names_kept_fold)
      (auto simp: declare_extern_def label_operands_def labels_fit_def names_kept_add_symbol)
  then have ext: "names_kept s (fold declare_extern (label_operands inst) (mark_called inst s))"
    by (blast intro: names_kept_trans names_kept_mark_called)
  have "names_kept s1 (map_line inst s1)" for s1
    by (rule names_kept_same) (simp_all add: map_line_def)
  then have "names_kept s (snd (encode_listed files inst (map_line inst (mark_called inst s))))"
    by (blast intro: names_kept_trans names_kept_mark_called names_kept_listed [OF fit])
  with glob ext show ?thesis by (simp add: text_encode_def Let_def names_kept_mark_called)
qed

lemma rewrite_label [simp]: "op_label (rewrite_constant_operand s op) = op_label op"
  by (simp add: rewrite_constant_operand_def split: option.split)

lemma labels_fit_rewrite:
  "labels_fit inst \<Longrightarrow> labels_fit (rewrite_constant_label_operands s (inst\<lparr>inst_address := a\<rparr>))"
  "labels_fit inst \<Longrightarrow> labels_fit (rewrite_constant_label_operands s inst)"
  by (auto simp: labels_fit_def rewrite_constant_label_operands_def)

lemma attribute_step_ctx:
  "attribute_step k ops st = (r, st') \<Longrightarrow> tx_ctx st' = tx_ctx st \<and> tx_changed st' = tx_changed st"
  by (auto simp: attribute_step_def split: if_splits sum.splits)

text \<open>The three ways a step of the text pass goes.\<close>

lemma text_step_cases:
  fixes st :: text_state
  assumes step: "text_step files inst st = ((r, st'), inst')"
  obtains (change) "inst_type inst = Directive_family INST_SECTION" "r = Done" "inst' = inst"
      "tx_ctx st' = apply_section_directive inst (tx_ctx st)" "tx_changed st' = tx_changed st"
    | (skip) "current_section (tx_ctx st) = 1 \<or> inst_type inst \<in> {Symdir_family INST_WEAK, Symdir_family INST_HIDDEN}"
      "inst' = inst" "tx_ctx st' = tx_ctx st" "tx_changed st' = tx_changed st"
    | (encode) "current_section (tx_ctx st) \<noteq> 1" "inst_type inst \<noteq> Directive_family INST_SECTION"
      "inst' = rewrite_constant_label_operands (place_label inst (tx_ctx st))
         (inst\<lparr>inst_address := current_address (place_label inst (tx_ctx st))\<rparr>)"
      "text_encode files inst' (place_label inst (tx_ctx st)) = (r, tx_ctx st')"
      "tx_changed st' = (tx_changed st \<or> label_moves inst (tx_ctx st))"
proof (cases "inst_type inst = Directive_family INST_SECTION")
  case True
  have "((Done, st\<lparr>tx_ctx := apply_section_directive inst (tx_ctx st)\<rparr>), inst) = ((r, st'), inst')"
    unfolding step [symmetric] using True by (simp add: text_step_def Let_def)
  then have eqs: "Done = r" "st\<lparr>tx_ctx := apply_section_directive inst (tx_ctx st)\<rparr> = st'" "inst = inst'"
    by blast+
  show ?thesis by (rule change [OF True]) (simp_all flip: eqs)
next
  case nosec: False
  show ?thesis
  proof (cases "inst_type inst = Symdir_family INST_WEAK \<or> inst_type inst = Symdir_family INST_HIDDEN")
    case True
    then have "inst' = inst \<and> (\<exists>k. attribute_step k (inst_operands inst) st = (r, st'))"
      using step by (elim disjE) (auto simp: text_step_def Let_def)
    with True show ?thesis by (intro skip) (auto dest: attribute_step_ctx)
  next
    case False
    show ?thesis
    proof (cases "current_section (tx_ctx st) = 1")
      case True
      with nosec False step show ?thesis by (intro skip) (simp_all add: text_step_def Let_def)
    next
      case here: False
      let ?s1 = "place_label inst (tx_ctx st)"
      let ?i1 = "rewrite_constant_label_operands ?s1 (inst\<lparr>inst_address := current_address ?s1\<rparr>)"
      obtain q s2 where s2: "text_encode files ?i1 ?s1 = (q, s2)" by fastforce
      have "((q, st\<lparr>tx_ctx := s2, tx_changed := (tx_changed st \<or> label_moves inst (tx_ctx st))\<rparr>), ?i1)
          = ((r, st'), inst')"
        unfolding step [symmetric] using nosec False here s2 by (simp add: text_step_def Let_def)
      then have eqs: "q = r" "?i1 = inst'"
          "st\<lparr>tx_ctx := s2, tx_changed := (tx_changed st \<or> label_moves inst (tx_ctx st))\<rparr> = st'"
        by blast+
      show ?thesis by (rule encode [OF here nosec]) (use s2 in \<open>simp_all flip: eqs\<close>)
    qed
  qed
qed

text \<open>What one step of the text pass does to the labels.\<close>

lemma text_step_table:
  assumes step: "text_step files inst st = ((r, st'), inst')"
    and fit: "labels_fit inst" and ok: "table_ok (tx_ctx st)"
  shows "table_ok (tx_ctx st')" "labels_fit inst'"
    "\<not> tx_changed st' \<Longrightarrow> \<not> tx_changed st \<and> table_view (tx_ctx st) \<subseteq>\<^sub>m table_view (tx_ctx st')"
proof -
  let ?s = "tx_ctx st"
  have sec: "names_kept ?s (apply_section_directive inst ?s)" by (rule names_kept_section)
  from step have "table_ok (tx_ctx st') \<and> labels_fit inst' \<and>
    (\<not> tx_changed st' \<longrightarrow> \<not> tx_changed st \<and> table_view (tx_ctx st) \<subseteq>\<^sub>m table_view (tx_ctx st'))"
  proof (cases rule: text_step_cases)
    case change
    with sec ok fit show ?thesis by (simp add: names_kept_def)
  next
    case skip
    with ok fit show ?thesis by simp
  next
    case encode
    let ?s1 = "place_label inst ?s"
    have fit1: "labels_fit inst'" using fit by (simp add: encode(3) labels_fit_rewrite)
    have ok1: "table_ok ?s1" using ok by (rule table_ok_place_label)
    have "names_kept ?s1 (tx_ctx st')"
      using names_kept_text_encode [OF fit1, of ?s1 files] encode(4) by simp
    with ok1 have "table_ok (tx_ctx st')" "table_view ?s1 \<subseteq>\<^sub>m table_view (tx_ctx st')"
      by (simp_all add: names_kept_def)
    with encode(5) fit1 place_label_still [OF ok, of inst] show ?thesis by auto
  qed
  then show "table_ok (tx_ctx st')" "labels_fit inst'"
    "\<not> tx_changed st' \<Longrightarrow> \<not> tx_changed st \<and> table_view (tx_ctx st) \<subseteq>\<^sub>m table_view (tx_ctx st')"
    by auto
qed

lemma text_pass_table:
  assumes "text_pass files insts st = ((r, st'), insts')"
    and "\<forall>inst \<in> set insts. labels_fit inst" "table_ok (tx_ctx st)"
  shows "table_ok (tx_ctx st') \<and> (\<forall>inst \<in> set insts'. labels_fit inst) \<and>
    (\<not> tx_changed st' \<longrightarrow> \<not> tx_changed st \<and> table_view (tx_ctx st) \<subseteq>\<^sub>m table_view (tx_ctx st'))"
  using assms
proof (induction insts arbitrary: st insts')
  case (Cons inst insts)
  obtain q st1 inst1 where step: "text_step files inst st = ((q, st1), inst1)"
    by (metis prod.collapse)
  have fit: "labels_fit inst" and ok: "table_ok (tx_ctx st)" using Cons.prems by simp_all
  note one = text_step_table [OF step fit ok]
  show ?case
  proof (cases q)
    case Done
    obtain out insts1 where rest: "text_pass files insts st1 = (out, insts1)" by fastforce
    with Cons.prems(1) step Done have out: "out = (r, st')" "insts' = inst1 # insts1" by auto
    from Cons.IH [of st1 insts1] rest out Cons.prems(2) one
    show ?thesis by (auto intro: map_le_trans)
  next
    case (Fail e)
    with Cons.prems step one show ?thesis by auto
  qed
qed simp

section \<open>The whole assembly\<close>

lemma table_ok_text_reset: "table_ok (tx_ctx (text_reset s)) = table_ok s"
  by (simp add: text_reset_def)

lemma text_iterate_table:
  assumes "text_iterate n files insts st = ((r, st'), insts')"
    and "\<forall>inst \<in> set insts. labels_fit inst" "table_ok (tx_ctx st)"
  shows "table_ok (tx_ctx st') \<and> (\<forall>inst \<in> set insts'. labels_fit inst)"
  using assms
proof (induction n arbitrary: insts st)
  case (Suc n)
  obtain q st1 insts1 where one: "text_pass files insts (text_reset (tx_ctx st)) = ((q, st1), insts1)"
    by (metis prod.collapse)
  from text_pass_table [OF one Suc.prems(2)] Suc.prems(3)
  have "table_ok (tx_ctx st1)" "\<forall>inst \<in> set insts1. labels_fit inst" by (simp_all add: table_ok_text_reset)
  with Suc.prems(1) one Suc.IH [of insts1 st1] show ?case by (auto split: status.splits if_splits)
qed simp

lemma text_mode_table:
  assumes "text_mode b files insts s = ((r, st), insts')"
    and "\<forall>inst \<in> set insts. labels_fit inst" "table_ok s"
  shows "table_ok (tx_ctx st) \<and> (\<forall>inst \<in> set insts'. labels_fit inst)"
  using text_iterate_table [OF assms(1) [unfolded text_mode_def] assms(2)] assms(3)
  by (simp add: table_ok_text_reset)

lemma text_passes_table:
  assumes run: "text_passes files insts s = ((r, st), insts')"
    and fit: "\<forall>inst \<in> set insts. labels_fit inst" and ok: "table_ok s"
  shows "table_ok (tx_ctx st) \<and> (\<forall>inst \<in> set insts'. labels_fit inst)"
proof -
  obtain q st1 insts1 where one: "text_mode True files insts s = ((q, st1), insts1)"
    by (metis prod.collapse)
  note a = text_mode_table [OF one fit ok]
  obtain q2 st2 insts2 where two: "text_mode False files insts1 (tx_ctx st1) = ((q2, st2), insts2)"
    by (metis prod.collapse)
  have b: "table_ok (tx_ctx st2) \<and> (\<forall>inst \<in> set insts2. labels_fit inst)"
    using text_mode_table [OF two] a by blast
  from run one two a b show ?thesis
    unfolding text_passes_def by (auto split: status.splits if_splits)
qed

lemma table_ok_attributes: "table_ok s \<Longrightarrow> table_ok (snd (apply_symbol_attributes xs a b s))"
proof (induction xs arbitrary: s)
  case (Cons x xs)
  have "names_kept s (s\<lparr>symbols := update_first (\<lambda>s. sym_name s = x)
           (\<lambda>s. s\<lparr>sym_is_weak := (a \<or> sym_is_weak s), sym_is_hidden := (b \<or> sym_is_hidden s)\<rparr>) (symbols s)\<rparr>)"
    by (rule names_kept_map(2)) (simp add: sym_row_def)
  from Cons.IH [OF names_kept_ok [OF this Cons.prems]] Cons.prems show ?case by simp
qed simp

lemma table_ok_data_step:
  assumes ok: "table_ok s" and fit: "labels_fit inst"
  shows "table_ok (snd (data_step files inst s))"
proof -
  let ?s1 = "place_label inst s"
  let ?i = "rewrite_constant_label_operands ?s1 inst"
  have ok1: "table_ok ?s1" using ok by (rule table_ok_place_label)
  define s0 where "s0 = listing_start_instruction (inst_line_number ?i) (inst_original_line ?i) ?s1"
  have ok0: "table_ok s0"
    using ok1 by (simp add: s0_def listing_start_instruction_def Let_def)
  have fin: "table_ok t \<Longrightarrow> table_ok (listing_end_instruction t)" for t
    by (simp add: listing_end_instruction_def Let_def)
  have emit: "table_ok (emit_ignoring bs s0)" for bs
    using names_kept_emit_ignoring ok0 by (rule names_kept_ok)
  have listed: "table_ok (snd (encode_listed files ?i ?s1))"
    using names_kept_listed [OF labels_fit_rewrite(2) [OF fit], of ?s1 files ?s1] ok1 by (rule names_kept_ok)
  have "table_ok (snd (data_encode files ?i ?s1))"
    using ok1 ok0 listed emit fin
    by (auto simp: data_encode_def Let_def s0_def [symmetric] encode_data_def encode_reserve_def
        split: instruction_type.split list.split)
  then show ?thesis using ok names_kept_ok [OF names_kept_section] by (simp add: data_step_def Let_def)
qed

lemma table_ok_data_pass:
  assumes "table_ok s" "\<forall>inst \<in> set insts. labels_fit inst"
  shows "table_ok (snd (data_pass files insts s))"
  unfolding data_pass_def
  by (rule table_ok_run_seq) (use assms in \<open>auto intro: table_ok_data_step\<close>)

lemma names_kept_patch: "names_kept s (snd (patch_field sz off v s))"
  by (rule names_kept_same) (simp_all add: patch_field_def Let_def)

lemma table_ok_resolve_fixups: "table_ok s \<Longrightarrow> table_ok (snd (resolve_fixups s))"
  unfolding resolve_fixups_def
proof (rule table_ok_run_seq)
  fix c t assume "c \<in> set (map (\<lambda>i. resolve_one (fixups s i)) [0..<fixup_count s])" and ok: "table_ok t"
  then obtain f where "c = resolve_one f" by auto
  then show "table_ok (snd (c t))"
    using ok names_kept_ok [OF names_kept_patch ok]
    by (simp add: resolve_one_def Let_def split: option.split)
qed

lemma table_ok_assemble:
  assumes ok: "table_ok s" and fit: "\<forall>inst \<in> set insts. labels_fit inst"
  shows "table_ok (snd (assemble_parsed files insts s))"
proof -
  obtain q s1 where one: "label_passes files insts s = (q, s1)" by fastforce
  have ok1: "table_ok s1" using table_ok_label_passes [OF ok fit, of files] one by simp
  obtain r st insts1 where two: "text_passes files insts s1 = ((r, st), insts1)"
    by (metis prod.collapse)
  from text_passes_table [OF two fit ok1]
  have ok2: "table_ok (tx_ctx st)" and fit2: "\<forall>inst \<in> set insts1. labels_fit inst" by simp_all
  have "table_ok (snd (run_seq [apply_symbol_attributes (tx_weak st) True False,
                 apply_symbol_attributes (tx_hidden st) False True,
                 data_pass files insts1, resolve_fixups] (tx_ctx st)))"
    by (rule table_ok_run_seq [OF _ ok2])
      (auto intro: table_ok_attributes table_ok_data_pass [OF _ fit2] table_ok_resolve_fixups)
  with one two ok1 ok2 show ?thesis
    unfolding assemble_parsed_def by (simp split: status.split)
qed

end
