(* ===== verification/Convergence.thy ===== *)
theory Convergence
  imports Table_Refinement Branches
begin

text \<open>
  The text pass as a run over the program: the state in front of every instruction, the text it
  adds, and what a pass that moved no label means for the addresses of the labels.
\<close>

section \<open>The text through a pass\<close>

text \<open>The text invariant with the section left out: the pass also visits data sections.\<close>

definition in_text :: "asm_ctx \<Rightarrow> asm_ctx" where
  "in_text s = s\<lparr>current_section := 0\<rparr>"

lemma in_text_fields [simp]:
  "text_section (in_text s) = text_section s" "base_address (in_text s) = base_address s"
  "current_address (in_text s) = current_address s" "fixups (in_text s) = fixups s"
  "fixup_count (in_text s) = fixup_count s" "text_capacity (in_text s) = text_capacity s"
  "current_section (in_text s) = 0"
  by (simp_all add: in_text_def)

lemma in_text_wf: "text_wf s \<Longrightarrow> text_wf (in_text s)"
  by (simp add: text_wf_def anchored_def fixup_in_text_def fixup_offset_def)

lemma wf_in_text: "text_wf (in_text s) \<Longrightarrow> current_section s \<noteq> 1 \<Longrightarrow> text_wf s"
  by (simp add: text_wf_def anchored_def fixup_in_text_def fixup_offset_def)

lemma fixup_offset_in_text [simp]: "fixup_offset (in_text s) f = fixup_offset s f"
  by (simp add: fixup_offset_def)

lemma in_text_extends: "text_extends s t \<Longrightarrow> text_extends (in_text s) (in_text t)"
  by (simp add: text_extends_def in_text_wf)

text \<open>A change that leaves the text alone.\<close>

definition same_text :: "asm_ctx \<Rightarrow> asm_ctx \<Rightarrow> bool" where
  "same_text s t \<longleftrightarrow> text_section t = text_section s \<and> base_address t = base_address s \<and>
     current_address t = current_address s \<and> text_capacity t = text_capacity s \<and>
     fixup_count t = fixup_count s \<and> fixups t = fixups s"

lemma same_text_refl [simp]: "same_text s s"
  by (simp add: same_text_def)

lemma same_text_trans: "same_text s t \<Longrightarrow> same_text t u \<Longrightarrow> same_text s u"
  by (simp add: same_text_def)

lemma same_text_extends:
  "same_text s t \<Longrightarrow> text_wf (in_text s) \<Longrightarrow> text_extends (in_text s) (in_text t)"
  by (rule text_extends_same_text) (simp_all add: same_text_def)

lemma same_text_fold: "(\<And>x s. x \<in> set xs \<Longrightarrow> same_text s (f x s)) \<Longrightarrow> same_text s (fold f xs s)"
  by (induction xs arbitrary: s) (auto intro: same_text_trans)

lemma same_text_hash_update: "same_text s (snd (symbol_hash_update n a g x sec s))"
  by (simp add: symbol_hash_update_def update_entry_def Let_def same_text_def split: option.split)

lemma same_text_place_label: "same_text s (place_label inst s)"
proof -
  define s1 where "s1 = s\<lparr>symbols := map (\<lambda>y. if sym_name y = inst_label inst
    then y\<lparr>sym_address := current_address s\<rparr> else y) (symbols s)\<rparr>"
  have "same_text s s1" by (simp add: same_text_def s1_def)
  moreover have "same_text s1 (fold (sync_symbol a) xs s1)" for a xs
    by (rule same_text_fold) (simp add: sync_symbol_def same_text_hash_update)
  ultimately have "same_text s (fold (sync_symbol a) xs s1)" for a xs by (rule same_text_trans)
  then show ?thesis by (simp add: place_label_def Let_def s1_def)
qed

lemma section_place_label [simp]: "current_section (place_label inst s) = current_section s"
proof -
  have "current_section (sync_symbol a y t) = current_section t" for t a y
    by (simp add: sync_symbol_def symbol_hash_update_def update_entry_def Let_def split: option.split)
  then have "current_section (fold (sync_symbol a) xs t) = current_section t" for t a xs
    by (induction xs arbitrary: t) simp_all
  then show ?thesis by (simp add: place_label_def Let_def)
qed

lemma same_text_mark_called [simp]:
  "same_text s (mark_called inst s)" "current_section (mark_called inst s) = current_section s"
  by (auto simp: mark_called_def same_text_def
      split: instruction_type.split callret_kind.split list.split)

lemma same_text_listing [simp]:
  "same_text s (listing_start_instruction n l s)" "same_text s (listing_end_instruction s)"
  "current_section (listing_start_instruction n l s) = current_section s"
  "current_section (listing_end_instruction s) = current_section s"
  by (simp_all add: listing_start_instruction_def listing_end_instruction_def Let_def same_text_def)

lemma same_text_map_line [simp]:
  "same_text s (map_line inst s)" "current_section (map_line inst s) = current_section s"
  by (simp_all add: map_line_def same_text_def)

lemma same_text_mark_global [simp]:
  "same_text s (mark_global n s)" "current_section (mark_global n s) = current_section s"
  by (simp_all add: mark_global_def same_text_def)

lemma same_text_declare_extern [simp]:
  "same_text s (declare_extern n s)" "current_section (declare_extern n s) = current_section s"
proof -
  obtain r t where "add_symbol n 0 False True 0 s = (r, t)" by fastforce
  moreover from add_symbol_frame [OF this] obtain y h where "t = s\<lparr>symbols := y, symbol_hash_table := h\<rparr>"
    by blast
  ultimately show "same_text s (declare_extern n s)" "current_section (declare_extern n s) = current_section s"
    by (simp_all add: declare_extern_def same_text_def)
qed

lemma same_text_section [simp]: "same_text s (apply_section_directive inst s)"
  by (simp add: apply_section_directive_def same_text_def split: option.split)

lemma same_text_text_reset: "same_text s (in_text s)"
  by (simp add: same_text_def)

section \<open>One step\<close>

text \<open>Only the section directive changes the section.\<close>

lemma encode_keeps_section:
  assumes "inst_type inst \<noteq> Directive_family INST_SECTION"
  shows "current_section (snd (encode_instruction files inst s)) = current_section s"
proof -
  have emit [simp]: "current_section (emit_ignoring bs t) = current_section t" for bs t
    using grows_emit_ignoring [of t bs] by (simp add: grows_defs)
  have sym [simp]: "current_section (snd (add_symbol n a g x sec t)) = current_section t" for n a g x sec t
  proof -
    obtain r u where u: "add_symbol n a g x sec t = (r, u)" by fastforce
    from add_symbol_frame [OF this] obtain y h where "u = t\<lparr>symbols := y, symbol_hash_table := h\<rparr>" by blast
    with u show ?thesis by simp
  qed
  have dis: "current_section (snd (dispatch files inst t)) = current_section t" for t
  proof (cases "is_machine_type (inst_type inst)")
    case True
    then have "grows t (snd (dispatch files inst t))"
      using enc_dispatch [OF True, of files] by (simp add: encoder_cmd_def emitter_def)
    then show ?thesis by (simp add: grows_defs)
  next
    case False
    have "current_section (snd (encode_data k ops t)) = current_section t"
      "current_section (snd (encode_reserve rk ops t)) = current_section t"
      "current_section (snd (encode_align ops t)) = current_section t"
      "current_section (snd (encode_incbin files ops t)) = current_section t"
      "current_section (snd (encode_common ck ops t)) = current_section t" for k rk ck ops
      by (auto simp: encode_data_def encode_reserve_def encode_align_def encode_incbin_def encode_common_def
          Let_def split: list.splits file_outcome.splits)
    with False assms show ?thesis
      by (simp add: dispatch_def is_machine_type_def split: instruction_type.splits directive_kind.splits)
  qed
  show ?thesis
  proof (cases "scan_segment_override MEM_SEG_DEFAULT (inst_operands inst)")
    case (Some seg)
    obtain r s1 where s1: "emit_segment_prefix seg s = (r, s1)" by fastforce
    have "grows s s1" using enc_segment_prefix [of seg] s1 by (auto simp: encoder_cmd_def dest!: emitterD)
    then have "current_section s1 = current_section s" by (simp add: grows_defs)
    moreover obtain r2 s2 where "dispatch files inst s1 = (r2, s2)" by fastforce
    ultimately show ?thesis
      using Some s1 dis [of s1] by (simp add: encode_instruction_def split: status.split)
  qed (simp add: encode_instruction_def fail_def)
qed

lemma text_encode_extends:
  assumes wf: "text_wf s" and run: "text_encode files inst s = (Done, t)"
    and ty: "inst_type inst \<noteq> Directive_family INST_SECTION"
  shows "text_extends s t" "current_section t = current_section s"
proof -
  have sec: "current_section s \<noteq> 1" using wf by (simp add: text_wf_def)
  have same: "text_extends s u" if "same_text s u" "current_section u = current_section s" for u
    using that sec by (intro text_extends_same_text [OF wf]) (simp_all add: same_text_def)
  have fold_glob: "current_section (fold mark_global xs u) = current_section u"
    "current_section (fold declare_extern xs u) = current_section u" for xs u
    by (induction xs arbitrary: u) simp_all
  let ?c = "mark_called inst s"
  consider "t = fold mark_global (label_operands inst) s" | "t = fold declare_extern (label_operands inst) ?c"
    | "t = ?c" | "encode_listed files inst (map_line inst ?c) = (Done, t)"
    using run unfolding text_encode_def Let_def by (metis Pair_inject)
  then have "text_extends s t \<and> current_section t = current_section s"
  proof cases
    case 1
    have "same_text s t" unfolding 1 by (rule same_text_fold) simp
    moreover have "current_section t = current_section s" by (simp add: fold_glob 1)
    ultimately show ?thesis by (simp add: same)
  next
    case 2
    have "same_text ?c t" unfolding 2 by (rule same_text_fold) simp
    with same_text_mark_called(1) have "same_text s t" by (rule same_text_trans)
    moreover have "current_section t = current_section s" by (simp add: fold_glob 2)
    ultimately show ?thesis by (simp add: same)
  next
    case 3
    then show ?thesis by (simp add: same)
  next
    case 4
    define s0 where "s0 = listing_start_instruction (inst_line_number inst) (inst_original_line inst)
      (map_line inst ?c)"
    from 4 obtain t0 where t0: "encode_instruction files inst s0 = (Done, t0)" "t = listing_end_instruction t0"
      by (auto simp: encode_listed_def s0_def split: prod.splits)
    have "same_text s s0"
      unfolding s0_def
      by (rule same_text_trans [OF same_text_trans [OF same_text_mark_called(1) same_text_map_line(1)]
            same_text_listing(1)])
    then have ext0: "text_extends s s0" by (rule same) (simp add: s0_def)
    have sec0: "current_section t0 = current_section s"
      using encode_keeps_section [OF ty, of files s0] t0(1) by (simp add: s0_def)
    have ext1: "text_extends s0 t0"
      using encode_instruction_extends [OF text_extends_wf [OF ext0] t0(1)] sec sec0 by simp
    have "text_extends t0 (listing_end_instruction t0)"
      by (rule text_extends_same_text [OF text_extends_wf [OF ext1]])
        (use sec sec0 same_text_listing(2) [of t0] in \<open>simp_all add: same_text_def\<close>)
    from text_extends_trans [OF text_extends_trans [OF ext0 ext1] this] sec0 show ?thesis by (simp add: t0(2))
  qed
  then show "text_extends s t" "current_section t = current_section s" by simp_all
qed

lemma text_step_extends:
  assumes step: "text_step files inst st = ((Done, st'), inst')" and wf: "text_wf (in_text (tx_ctx st))"
  shows "text_extends (in_text (tx_ctx st)) (in_text (tx_ctx st'))"
  using step
proof (cases rule: text_step_cases)
  case change
  then show ?thesis by (simp add: same_text_extends wf)
next
  case skip
  then show ?thesis by (simp add: text_extends_refl wf)
next
  case encode
  let ?s = "tx_ctx st" and ?s1 = "place_label inst (tx_ctx st)"
  have ext1: "text_extends (in_text ?s) (in_text ?s1)"
    by (rule same_text_extends [OF same_text_place_label wf])
  have "text_wf ?s1"
    by (rule wf_in_text [OF text_extends_wf [OF ext1]]) (use encode(1) in simp)
  moreover have "inst_type inst' \<noteq> Directive_family INST_SECTION"
    using encode(2) by (simp add: encode(3) rewrite_constant_label_operands_def)
  ultimately have "text_extends ?s1 (tx_ctx st')"
    using text_encode_extends(1) [OF _ encode(4)] by blast
  from text_extends_trans [OF ext1 in_text_extends [OF this]] show ?thesis .
qed

text \<open>The section in front of an instruction is decided by the section directives before it.\<close>

definition section_switch :: "parsed_instruction \<Rightarrow> int \<Rightarrow> int" where
  "section_switch inst sec =
     (if inst_type inst = Directive_family INST_SECTION
      then (case section_name_from_instruction inst of None \<Rightarrow> sec | Some n \<Rightarrow> classify_section_name n)
      else sec)"

definition section_before :: "parsed_instruction list \<Rightarrow> nat \<Rightarrow> int" where
  "section_before insts i = fold section_switch (take i insts) 0"

lemma text_step_section:
  assumes "text_step files inst st = ((Done, st'), inst')" "text_wf (in_text (tx_ctx st))"
  shows "current_section (tx_ctx st') = section_switch inst (current_section (tx_ctx st))"
  using assms(1)
proof (cases rule: text_step_cases)
  case change
  then show ?thesis
    by (simp add: section_switch_def apply_section_directive_def split: option.split)
next
  case skip
  show ?thesis
  proof (cases "inst_type inst = Directive_family INST_SECTION")
    case True
    have "((Done, st\<lparr>tx_ctx := apply_section_directive inst (tx_ctx st)\<rparr>), inst) = ((Done, st'), inst')"
      unfolding assms(1) [symmetric] using True by (simp add: text_step_def Let_def)
    then have "tx_ctx st' = apply_section_directive inst (tx_ctx st)" by (auto simp del: skip)
    with True show ?thesis
      by (simp add: section_switch_def apply_section_directive_def split: option.split)
  next
    case False
    with skip show ?thesis by (simp add: section_switch_def)
  qed
next
  case encode
  let ?s1 = "place_label inst (tx_ctx st)"
  have ext1: "text_extends (in_text (tx_ctx st)) (in_text ?s1)"
    by (rule same_text_extends [OF same_text_place_label assms(2)])
  have "text_wf ?s1"
    by (rule wf_in_text [OF text_extends_wf [OF ext1]]) (use encode(1) in simp)
  moreover have "inst_type inst' \<noteq> Directive_family INST_SECTION"
    using encode(2) by (simp add: encode(3) rewrite_constant_label_operands_def)
  ultimately have "current_section (tx_ctx st') = current_section ?s1"
    using text_encode_extends(2) [OF _ encode(4)] by blast
  with encode(2) show ?thesis by (simp add: section_switch_def)
qed

section \<open>A pass up to a point\<close>

lemma text_pass_append:
  assumes "text_pass files (xs @ ys) st = ((Done, st'), zs)"
  shows "\<exists>st1 xs' ys'. text_pass files xs st = ((Done, st1), xs') \<and>
    text_pass files ys st1 = ((Done, st'), ys') \<and> zs = xs' @ ys' \<and> length xs' = length xs"
  using assms
proof (induction xs arbitrary: st zs)
  case (Cons x xs)
  obtain q st1 x' where step: "text_step files x st = ((q, st1), x')" by (metis prod.collapse)
  with Cons.prems have q: "q = Done" by (auto split: status.splits)
  obtain out rest where r: "text_pass files (xs @ ys) st1 = (out, rest)" by fastforce
  with Cons.prems step q have "out = (Done, st')" "zs = x' # rest" by auto
  with Cons.IH [of st1 rest] r obtain st2 xs' ys' where "text_pass files xs st1 = ((Done, st2), xs')"
    "text_pass files ys st2 = ((Done, st'), ys')" "rest = xs' @ ys'" "length xs' = length xs" by auto
  with step q \<open>zs = x' # rest\<close> show ?case
    by (intro exI [of _ st2] exI [of _ "x' # xs'"] exI [of _ ys']) simp
qed simp

text \<open>The state in front of instruction \<open>i\<close> of a finished pass, and the one behind it.\<close>

lemma text_pass_point:
  assumes run: "text_pass files insts st = ((Done, st'), insts')" and i: "i < length insts"
  obtains st1 st2 where "text_pass files (take i insts) st = ((Done, st1), take i insts')"
    "text_step files (insts ! i) st1 = ((Done, st2), insts' ! i)"
    "text_pass files (drop (Suc i) insts) st2 = ((Done, st'), drop (Suc i) insts')"
proof -
  have "insts = take i insts @ insts ! i # drop (Suc i) insts" using i by (rule id_take_nth_drop)
  with run have "text_pass files (take i insts @ insts ! i # drop (Suc i) insts) st = ((Done, st'), insts')"
    by simp
  from text_pass_append [OF this] obtain st1 xs' ys' where a: "text_pass files (take i insts) st = ((Done, st1), xs')"
    "text_pass files (insts ! i # drop (Suc i) insts) st1 = ((Done, st'), ys')" "insts' = xs' @ ys'"
    "length xs' = i"
    using i by auto
  obtain q st2 y where step: "text_step files (insts ! i) st1 = ((q, st2), y)" by (metis prod.collapse)
  with a(2) have q: "q = Done" by (auto split: status.splits)
  obtain out rest where r: "text_pass files (drop (Suc i) insts) st2 = (out, rest)" by fastforce
  with a(2) step q have o: "out = (Done, st')" "ys' = y # rest" by auto
  show ?thesis
  proof (rule that)
    show "text_pass files (take i insts) st = ((Done, st1), take i insts')" using a by simp
    show "text_step files (insts ! i) st1 = ((Done, st2), insts' ! i)" using step q a o by (simp add: nth_append)
    show "text_pass files (drop (Suc i) insts) st2 = ((Done, st'), drop (Suc i) insts')"
      using r a o by simp
  qed
qed

lemma text_pass_extends:
  assumes "text_pass files insts st = ((Done, st'), insts')" "text_wf (in_text (tx_ctx st))"
  shows "text_extends (in_text (tx_ctx st)) (in_text (tx_ctx st'))"
    "current_section (tx_ctx st') = fold section_switch insts (current_section (tx_ctx st))"
  using assms
proof (induction insts arbitrary: st insts')
  case (Cons inst insts)
  {
    case 1
    obtain q st1 x' where step: "text_step files inst st = ((q, st1), x')" by (metis prod.collapse)
    with 1 have q: "q = Done" by (auto split: status.splits)
    obtain out rest where r: "text_pass files insts st1 = (out, rest)" by fastforce
    with 1 step q have "out = (Done, st')" by auto
    with r step q text_step_extends [of files inst st st1 x'] 1(2) Cons.IH(1) [of st1 rest] show ?case
      by (auto dest: text_extends_wf intro: text_extends_trans)
  next
    case 2
    obtain q st1 x' where step: "text_step files inst st = ((q, st1), x')" by (metis prod.collapse)
    with 2 have q: "q = Done" by (auto split: status.splits)
    obtain out rest where r: "text_pass files insts st1 = (out, rest)" by fastforce
    with 2 step q have "out = (Done, st')" by auto
    with r step q text_step_extends [of files inst st st1 x'] text_step_section [of files inst st st1 x'] 2(2)
      Cons.IH(2) [of st1 rest] show ?case
      by (auto dest: text_extends_wf)
  }
qed (simp_all add: text_extends_refl)

section \<open>A pass that moved no label\<close>

lemma reset_fields [simp]:
  "base_address (tx_ctx (text_reset s)) = base_address s" "text_section (tx_ctx (text_reset s)) = []"
  "text_capacity (tx_ctx (text_reset s)) = text_capacity s" "fixup_count (tx_ctx (text_reset s)) = 0"
  "current_section (tx_ctx (text_reset s)) = 0" "current_address (tx_ctx (text_reset s)) = base_address s"
  "tx_changed (text_reset s) = False"
  by (simp_all add: text_reset_def)

lemma reset_wf: "text_capacity s \<le> MAX_OUTPUT_SIZE \<Longrightarrow> text_wf (in_text (tx_ctx (text_reset s)))"
  by (simp add: text_wf_def anchored_def)

lemma reset_view: "table_view (tx_ctx (text_reset s)) = table_view s"
  by (rule table_view_hash_only) (simp add: text_reset_def)

definition encoded_here :: "parsed_instruction list \<Rightarrow> nat \<Rightarrow> bool" where
  "encoded_here insts i \<longleftrightarrow> i < length insts \<and> section_before insts i \<noteq> 1 \<and>
     inst_type (insts ! i) \<notin> {Directive_family INST_SECTION, Symdir_family INST_WEAK, Symdir_family INST_HIDDEN}"

text \<open>The states around an encoded instruction of a converged pass: before it, behind its label
  update and behind its bytes. The addresses of all names agree from the start to the end.\<close>

lemma converged_point:
  assumes run: "text_pass files insts (text_reset s) = ((Done, st), insts1)"
    and ok: "table_ok s" and fit: "\<forall>inst \<in> set insts. labels_fit inst"
    and cap: "text_capacity s \<le> MAX_OUTPUT_SIZE" and still: "\<not> tx_changed st"
    and here: "encoded_here insts i"
  obtains s1 s2 where "table_ok s1" "text_wf s1" "current_section s1 = section_before insts i"
    "base_address s1 = base_address s" "base_address s2 = base_address s"
    "table_view s \<subseteq>\<^sub>m table_view s1" "table_view s1 \<subseteq>\<^sub>m table_view (tx_ctx st)"
    "insts1 ! i = rewrite_constant_label_operands s1 ((insts ! i)\<lparr>inst_address := current_address s1\<rparr>)"
    "text_encode files (insts1 ! i) s1 = (Done, s2)" "text_wf s2"
    "text_extends s2 (in_text (tx_ctx st))" "text_extends s1 s2"
    "inst_has_label (insts ! i) \<Longrightarrow> table_view s1 (inst_label (insts ! i)) \<noteq> None \<Longrightarrow>
       map_option fst (table_view s1 (inst_label (insts ! i))) = Some (current_address s1)"
proof -
  let ?r = "text_reset s" and ?inst = "insts ! i"
  from here have i: "i < length insts" and sec: "section_before insts i \<noteq> 1"
    and ty: "inst_type ?inst \<noteq> Directive_family INST_SECTION" "inst_type ?inst \<noteq> Symdir_family INST_WEAK"
      "inst_type ?inst \<noteq> Symdir_family INST_HIDDEN"
    by (auto simp: encoded_here_def)
  obtain st1 st2 where p: "text_pass files (take i insts) ?r = ((Done, st1), take i insts1)"
    "text_step files ?inst st1 = ((Done, st2), insts1 ! i)"
    "text_pass files (drop (Suc i) insts) st2 = ((Done, st), drop (Suc i) insts1)"
    using text_pass_point [OF run i] by blast
  have fits: "\<forall>inst \<in> set (take i insts). labels_fit inst" "labels_fit ?inst"
    "\<forall>inst \<in> set (drop (Suc i) insts). labels_fit inst"
    using fit i by (auto dest: in_set_takeD in_set_dropD)
  have ok0: "table_ok (tx_ctx ?r)" using ok by (simp add: table_ok_text_reset)
  note t1 = text_pass_table [OF p(1) fits(1) ok0]
  then have ok1: "table_ok (tx_ctx st1)" by simp
  note t2 = text_step_table [OF p(2) fits(2) ok1]
  note t3 = text_pass_table [OF p(3) fits(3) t2(1)]
  have views: "\<not> tx_changed st2" "\<not> tx_changed st1" "table_view (tx_ctx st2) \<subseteq>\<^sub>m table_view (tx_ctx st)"
    "table_view s \<subseteq>\<^sub>m table_view (tx_ctx st1)"
    using t3 t2(3) t1 still by (auto simp: reset_view)
  note e1 = text_pass_extends [OF p(1) reset_wf [OF cap]]
  note e2 = text_step_extends [OF p(2) text_extends_wf [OF e1(1)]]
  note e3 = text_pass_extends(1) [OF p(3) text_extends_wf [OF e2]]
  have sec1: "current_section (tx_ctx st1) = section_before insts i"
    using e1(2) by (simp add: section_before_def)
  let ?s1 = "place_label ?inst (tx_ctx st1)"
  from p(2) have enc: "insts1 ! i = rewrite_constant_label_operands ?s1 (?inst\<lparr>inst_address := current_address ?s1\<rparr>)"
    "text_encode files (insts1 ! i) ?s1 = (Done, tx_ctx st2)"
    "tx_changed st2 = (tx_changed st1 \<or> label_moves ?inst (tx_ctx st1))"
    by (cases rule: text_step_cases; use ty sec sec1 in simp)+
  have wf1: "text_wf ?s1"
    by (rule wf_in_text [OF text_extends_wf [OF same_text_extends [OF same_text_place_label text_extends_wf [OF e1(1)]]]])
      (use sec sec1 in simp)
  have ty': "inst_type (insts1 ! i) \<noteq> Directive_family INST_SECTION"
    using ty(1) by (simp add: enc(1) rewrite_constant_label_operands_def)
  note e = text_encode_extends [OF wf1 enc(2) ty']
  have base: "base_address ?s1 = base_address s" "base_address (tx_ctx st2) = base_address s"
    using same_text_place_label [of "tx_ctx st1" ?inst] e1(1) e2
    by (simp_all add: same_text_def text_extends_def)
  have still1: "table_view ?s1 = table_view (tx_ctx st1)"
    using place_label_still [OF ok1, of ?inst] enc(3) views(1) by simp
  have fit1: "labels_fit (insts1 ! i)" using t2(2) .
  have ok_s1: "table_ok ?s1" using ok1 by (rule table_ok_place_label)
  have kept: "table_view ?s1 \<subseteq>\<^sub>m table_view (tx_ctx st2)"
    using names_kept_text_encode [OF fit1, of ?s1 files] enc(2) ok_s1 by (simp add: names_kept_def)
  have addr: "current_address ?s1 = current_address (tx_ctx st1)"
    using same_text_place_label [of "tx_ctx st1" ?inst] by (simp add: same_text_def)
  show ?thesis
  proof (rule that [of ?s1 "tx_ctx st2"])
    show "text_extends (tx_ctx st2) (in_text (tx_ctx st))"
      using e3 text_extends_wf [OF e(1)] by (simp add: text_extends_def)
    show "map_option fst (table_view ?s1 (inst_label ?inst)) = Some (current_address ?s1)"
      if "inst_has_label ?inst" "table_view ?s1 (inst_label ?inst) \<noteq> None"
      using place_label_address [OF ok1 that(1)] that(2) addr still1 by simp
    show "table_view ?s1 \<subseteq>\<^sub>m table_view (tx_ctx st)" using kept views(3) by (rule map_le_trans)
  qed (use ok_s1 wf1 sec1 base views still1 enc e text_extends_wf [OF e(1)] in simp_all)
qed

end
