(* ===== verification/Final_Layout.thy ===== *)
theory Final_Layout
  imports Convergence
begin

text \<open>
  From the passes to the finished program: the passes in front of the last one only rewrite
  constant operands, and the data pass and the symbol attributes behind it leave the text, its
  fixups and the labels of the text alone.
\<close>

section \<open>What the passes do to the instructions\<close>

definition op_rewritten :: "operand \<Rightarrow> operand \<Rightarrow> bool" where
  "op_rewritten op op' \<longleftrightarrow> op_label op' = op_label op \<and>
     (op_type op' = op_type op \<or> op_type op = OPERAND_LABEL \<and> op_type op' = OPERAND_IMM)"

definition rewritten :: "parsed_instruction \<Rightarrow> parsed_instruction \<Rightarrow> bool" where
  "rewritten inst inst' \<longleftrightarrow> inst_type inst' = inst_type inst \<and> inst_label inst' = inst_label inst \<and>
     inst_has_label inst' = inst_has_label inst \<and>
     (inst_type inst = Directive_family INST_SECTION \<longrightarrow> inst_operands inst' = inst_operands inst) \<and>
     list_all2 op_rewritten (inst_operands inst) (inst_operands inst')"

lemma op_rewritten_refl [simp]: "op_rewritten op op"
  by (simp add: op_rewritten_def)

lemma op_rewritten_trans: "op_rewritten a b \<Longrightarrow> op_rewritten b c \<Longrightarrow> op_rewritten a c"
  by (auto simp: op_rewritten_def)

lemma rewritten_refl [simp]: "rewritten inst inst"
  by (simp add: rewritten_def list_all2_refl)

lemma rewritten_trans: "rewritten a b \<Longrightarrow> rewritten b c \<Longrightarrow> rewritten a c"
  unfolding rewritten_def by (auto intro: list_all2_trans [OF op_rewritten_trans])

lemma op_rewritten_constant: "op_rewritten op (rewrite_constant_operand s op)"
  by (simp add: op_rewritten_def rewrite_constant_operand_def split: option.split)

lemma text_step_rewritten:
  assumes "text_step files inst st = ((r, st'), inst')"
  shows "rewritten inst inst'"
  using assms
proof (cases rule: text_step_cases)
  case encode
  then show ?thesis
    by (simp add: rewritten_def rewrite_constant_label_operands_def list_all2_map2
        op_rewritten_constant list_all2_refl)
qed simp_all

lemma text_pass_rewritten: "text_pass files insts st = (out, insts') \<Longrightarrow> list_all2 rewritten insts insts'"
proof (induction insts arbitrary: st out insts')
  case (Cons inst insts)
  obtain r st1 inst1 where step: "text_step files inst st = ((r, st1), inst1)" by (metis prod.collapse)
  obtain out1 rest where rest: "text_pass files insts st1 = (out1, rest)" by fastforce
  have "list_all2 rewritten insts insts" by (simp add: list_all2_refl)
  with Cons.prems step rest text_step_rewritten [OF step] Cons.IH [OF rest] show ?case
    by (auto split: status.splits)
qed simp

text \<open>A name that is bound stays bound.\<close>

lemma move_name_dom: "move_name n a s t \<Longrightarrow> table_ok s \<Longrightarrow> dom (table_view t) = dom (table_view s)"
  by (auto simp: move_name_def split: option.splits)

lemma place_label_dom:
  assumes "table_ok s"
  shows "dom (table_view (place_label inst s)) = dom (table_view s)"
proof (cases "inst_has_label inst")
  case True
  from move_name_dom [OF place_label_move [OF assms True] assms] show ?thesis .
qed (simp add: place_label_def)

lemma text_step_dom:
  assumes step: "text_step files inst st = ((r, st'), inst')"
    and fit: "labels_fit inst" and ok: "table_ok (tx_ctx st)"
  shows "dom (table_view (tx_ctx st)) \<subseteq> dom (table_view (tx_ctx st'))"
  using step
proof (cases rule: text_step_cases)
  case change
  have "table_view (tx_ctx st) \<subseteq>\<^sub>m table_view (tx_ctx st')"
    unfolding change(4) using names_kept_section ok by (simp add: names_kept_def)
  then show ?thesis by (rule map_le_implies_dom_le)
next
  case encode
  let ?s1 = "place_label inst (tx_ctx st)"
  have "labels_fit inst'" using text_step_table(2) [OF step fit ok] .
  then have "table_view ?s1 \<subseteq>\<^sub>m table_view (tx_ctx st')"
    using names_kept_text_encode [of inst' ?s1 files] encode(4) table_ok_place_label [OF ok, of inst]
    by (simp add: names_kept_def)
  then show ?thesis using map_le_implies_dom_le place_label_dom [OF ok, of inst] by metis
qed simp

lemma text_pass_dom:
  assumes "text_pass files insts st = ((r, st'), insts')"
    and "\<forall>inst \<in> set insts. labels_fit inst" "table_ok (tx_ctx st)"
  shows "dom (table_view (tx_ctx st)) \<subseteq> dom (table_view (tx_ctx st'))"
  using assms
proof (induction insts arbitrary: st insts')
  case (Cons inst insts)
  obtain q st1 inst1 where step: "text_step files inst st = ((q, st1), inst1)" by (metis prod.collapse)
  obtain out1 rest where rest: "text_pass files insts st1 = (out1, rest)" by fastforce
  have fit: "labels_fit inst" "table_ok (tx_ctx st)" using Cons.prems by simp_all
  have one: "dom (table_view (tx_ctx st)) \<subseteq> dom (table_view (tx_ctx st1))"
    by (rule text_step_dom [OF step fit])
  show ?case
  proof (cases q)
    case Done
    with Cons.prems(1) step rest have "out1 = (r, st')" by auto
    with Cons.IH [of st1 rest] rest Cons.prems(2) text_step_table(1) [OF step fit] one show ?thesis by auto
  qed (use Cons.prems(1) step one in auto)
qed simp

section \<open>The last pass\<close>

text \<open>What holds in front of every pass, relative to the program \<open>insts\<close> and the state \<open>s\<close> before
  the first one.\<close>

definition pass_ready :: "parsed_instruction list \<Rightarrow> asm_ctx \<Rightarrow> parsed_instruction list \<Rightarrow> asm_ctx \<Rightarrow> bool" where
  "pass_ready insts s insts0 s0 \<longleftrightarrow> list_all2 rewritten insts insts0 \<and>
     (\<forall>inst \<in> set insts0. labels_fit inst) \<and> table_ok s0 \<and> text_capacity s0 \<le> MAX_OUTPUT_SIZE \<and>
     base_address s0 = base_address s \<and> dom (table_view s) \<subseteq> dom (table_view s0)"

lemma pass_ready_step:
  assumes ready: "pass_ready insts s insts0 s0"
    and run: "text_pass files insts0 (text_reset s0) = ((Done, st1), insts1)"
  shows "pass_ready insts s insts1 (tx_ctx st1)"
proof -
  from ready have fit: "\<forall>inst \<in> set insts0. labels_fit inst" and ok: "table_ok (tx_ctx (text_reset s0))"
    and cap: "text_capacity s0 \<le> MAX_OUTPUT_SIZE"
    by (simp_all add: pass_ready_def table_ok_text_reset)
  note tab = text_pass_table [OF run fit ok]
  note ext = text_pass_extends(1) [OF run reset_wf [OF cap]]
  have "list_all2 rewritten insts insts1"
    using ready text_pass_rewritten [OF run]
    by (auto simp: pass_ready_def intro: list_all2_trans [OF rewritten_trans])
  moreover have "dom (table_view s) \<subseteq> dom (table_view (tx_ctx st1))"
  proof (rule subset_trans)
    show "dom (table_view s) \<subseteq> dom (table_view s0)" using ready by (simp add: pass_ready_def)
    show "dom (table_view s0) \<subseteq> dom (table_view (tx_ctx st1))"
      using text_pass_dom [OF run fit ok] by (simp add: reset_view)
  qed
  moreover have "text_capacity (tx_ctx st1) \<le> MAX_OUTPUT_SIZE" "base_address (tx_ctx st1) = base_address s0"
    using ext by (auto simp: text_extends_def text_wf_def)
  ultimately show ?thesis
    using ready tab unfolding pass_ready_def by simp
qed

lemma pass_ready_mode:
  "pass_ready insts s insts0 s0 \<Longrightarrow>
   pass_ready insts s insts0 (tx_ctx (text_reset (s0\<lparr>enable_forward_short_branches := b\<rparr>)))"
proof -
  have "table_view (s0\<lparr>enable_forward_short_branches := b\<rparr>) = table_view s0"
    by (rule table_view_hash_only) simp
  then show "pass_ready insts s insts0 s0 \<Longrightarrow>
      pass_ready insts s insts0 (tx_ctx (text_reset (s0\<lparr>enable_forward_short_branches := b\<rparr>)))"
    by (simp add: pass_ready_def table_ok_text_reset reset_view)
qed

lemma text_iterate_last:
  assumes "text_iterate n files insts0 st = ((Done, st'), insts')" "pass_ready insts s insts0 (tx_ctx st)"
    and "n \<noteq> 0 \<or> tx_changed st" "\<not> tx_changed st'"
  shows "\<exists>insts0 s0. pass_ready insts s insts0 s0 \<and> text_pass files insts0 (text_reset s0) = ((Done, st'), insts')"
  using assms
proof (induction n arbitrary: insts0 st)
  case (Suc n)
  obtain q st1 insts1 where one: "text_pass files insts0 (text_reset (tx_ctx st)) = ((q, st1), insts1)"
    by (metis prod.collapse)
  with Suc.prems(1) have q: "q = Done" by (auto split: status.splits)
  have ready: "pass_ready insts s insts1 (tx_ctx st1)"
    using pass_ready_step [OF Suc.prems(2)] one q by simp
  show ?case
  proof (cases "tx_changed st1")
    case True
    with Suc.prems(1) one q have "text_iterate n files insts1 st1 = ((Done, st'), insts')" by simp
    from Suc.IH [OF this ready] True Suc.prems(4) show ?thesis by simp
  next
    case False
    with Suc.prems one q show ?thesis by (intro exI [of _ insts0] exI [of _ "tx_ctx st"]) simp
  qed
qed simp

lemma text_iterate_ready:
  assumes "text_iterate n files insts0 st = ((Done, st'), insts')" "pass_ready insts s insts0 (tx_ctx st)"
  shows "pass_ready insts s insts' (tx_ctx st')"
  using assms
proof (induction n arbitrary: insts0 st)
  case (Suc n)
  obtain q st1 insts1 where one: "text_pass files insts0 (text_reset (tx_ctx st)) = ((q, st1), insts1)"
    by (metis prod.collapse)
  with Suc.prems(1) have q: "q = Done" by (auto split: status.splits)
  have "pass_ready insts s insts1 (tx_ctx st1)" using pass_ready_step [OF Suc.prems(2)] one q by simp
  with Suc.prems(1) one q Suc.IH [of insts1 st1] show ?case by (auto split: if_splits)
qed simp

lemma text_passes_last:
  assumes run: "text_passes files insts s = ((Done, st), insts1)" and still: "\<not> tx_changed st"
    and ready: "pass_ready insts s insts s"
  obtains insts0 s0 where "pass_ready insts s insts0 s0"
    "text_pass files insts0 (text_reset s0) = ((Done, st), insts1)"
proof -
  obtain q st1 insts2 where one: "text_mode True files insts s = ((q, st1), insts2)" by (metis prod.collapse)
  with run have q: "q = Done" by (auto simp: text_passes_def split: status.splits)
  note it1 = one [unfolded q text_mode_def text_max_iterations_def]
  show ?thesis
  proof (cases "tx_changed st1")
    case False
    with run one q have "st1 = st" "insts2 = insts1" by (simp_all add: text_passes_def)
    with text_iterate_last [OF it1 pass_ready_mode [OF ready]] still that show ?thesis by auto
  next
    case True
    obtain q2 st2 insts3 where two: "text_mode False files insts2 (tx_ctx st1) = ((q2, st2), insts3)"
      by (metis prod.collapse)
    with run one q True have q2: "q2 = Done" by (auto simp: text_passes_def split: status.splits)
    with run one q True two still have "st2 = st" "insts3 = insts1"
      by (auto simp: text_passes_def split: if_splits)
    with two q2 have it2: "text_iterate 6 files insts2
        (text_reset ((tx_ctx st1)\<lparr>enable_forward_short_branches := False\<rparr>)) = ((Done, st), insts1)"
      by (simp add: text_mode_def text_max_iterations_def)
    have "pass_ready insts s insts2 (tx_ctx st1)"
      by (rule text_iterate_ready [OF it1 pass_ready_mode [OF ready]])
    from text_iterate_last [OF it2 pass_ready_mode [OF this]] still that show ?thesis by auto
  qed
qed

section \<open>Behind the text pass\<close>

text \<open>\<open>text_kept s t\<close>: the text, its fixups and the base stay; \<open>data_kept\<close> asks it of a step made
  in the data section, which does not leave that section either.\<close>

definition text_kept :: "asm_ctx \<Rightarrow> asm_ctx \<Rightarrow> bool" where
  "text_kept s t \<longleftrightarrow> text_section t = text_section s \<and> base_address t = base_address s \<and>
     text_capacity t = text_capacity s \<and> fixup_count t = fixup_count s \<and> fixups t = fixups s"

definition data_kept :: "asm_ctx \<Rightarrow> asm_ctx \<Rightarrow> bool" where
  "data_kept s t \<longleftrightarrow> (current_section s = 1 \<longrightarrow> text_kept s t \<and> current_section t = 1)"

lemma text_kept_refl [simp]: "text_kept s s"
  by (simp add: text_kept_def)

lemma text_kept_trans: "text_kept s t \<Longrightarrow> text_kept t u \<Longrightarrow> text_kept s u"
  by (simp add: text_kept_def)

lemma same_text_kept: "same_text s t \<Longrightarrow> text_kept s t"
  by (simp add: same_text_def text_kept_def)

lemma data_kept_refl [simp]: "data_kept s s"
  by (simp add: data_kept_def)

lemma data_kept_trans: "data_kept s t \<Longrightarrow> data_kept t u \<Longrightarrow> data_kept s u"
  by (auto simp: data_kept_def intro: text_kept_trans)

lemma same_text_data: "same_text s t \<Longrightarrow> current_section t = current_section s \<Longrightarrow> data_kept s t"
  by (simp add: data_kept_def same_text_kept)

lemma data_kept_emit_byte: "data_kept s (snd (emit_byte b s))"
  by (simp add: data_kept_def emit_byte_def text_kept_def)

lemma data_kept_emit_ignoring: "data_kept s (emit_ignoring bs s)"
  unfolding emit_ignoring_def
proof (induction bs arbitrary: s)
  case (Cons b bs)
  from data_kept_trans [OF data_kept_emit_byte Cons.IH] show ?case by simp
qed simp

lemma data_kept_add_symbol: "data_kept s (snd (add_symbol n a g x sec s))"
proof -
  obtain r t where t: "add_symbol n a g x sec s = (r, t)" by fastforce
  from add_symbol_frame [OF this] obtain y h where "t = s\<lparr>symbols := y, symbol_hash_table := h\<rparr>" by blast
  with t show ?thesis by (simp add: data_kept_def text_kept_def)
qed

lemma data_kept_common: "data_kept s (snd (encode_common ck ops s))"
proof -
  have "data_kept s (emit_ignoring bs (snd (add_symbol n a g x sec s1)))" if "data_kept s s1"
    for bs n a g x sec s1
    using that by (meson data_kept_add_symbol data_kept_emit_ignoring data_kept_trans)
  then show ?thesis
    by (auto simp: encode_common_def Let_def data_kept_emit_ignoring split: list.split)
qed

text \<open>The directives the data pass hands to the dispatcher.\<close>

lemma data_kept_encode:
  assumes "inst_type inst \<in> {Directive_family INST_ALIGN, Directive_family INST_INCBIN} \<or>
    (\<exists>k. inst_type inst = Common_family k)"
  shows "data_kept s (snd (encode_instruction files inst s))"
proof (cases "scan_segment_override MEM_SEG_DEFAULT (inst_operands inst)")
  case (Some seg)
  obtain r s1 where s1: "emit_segment_prefix seg s = (r, s1)" by fastforce
  have "data_kept s s1" using s1 data_kept_emit_byte [of s "0x64"] data_kept_emit_byte [of s "0x65"]
    by (cases seg) auto
  moreover obtain r2 s2 where s2: "dispatch files inst s1 = (r2, s2)" by fastforce
  moreover have "data_kept s1 (snd (dispatch files inst s1))"
    using assms
    by (auto simp: dispatch_def data_kept_common encode_align_def encode_incbin_def Let_def
        data_kept_emit_ignoring split: list.split file_outcome.split)
  ultimately show ?thesis
    using Some s1 by (auto simp: encode_instruction_def split: status.split intro: data_kept_trans)
qed (simp add: encode_instruction_def fail_def)

lemma data_kept_data_encode: "data_kept s (snd (data_encode files inst s))"
proof -
  define s0 where "s0 = listing_start_instruction (inst_line_number inst) (inst_original_line inst) s"
  have start: "data_kept s s0" by (simp add: s0_def same_text_data)
  have fin: "data_kept t (listing_end_instruction t)" for t by (simp add: same_text_data)
  have emit: "data_kept s (listing_end_instruction (emit_ignoring bs s0))" for bs
    using start data_kept_emit_ignoring fin by (meson data_kept_trans)
  have plain: "data_kept s (listing_end_instruction s0)"
    using start fin by (rule data_kept_trans)
  have listed: "data_kept s (snd (encode_listed files inst s))"
    if "inst_type inst \<in> {Directive_family INST_ALIGN, Directive_family INST_INCBIN} \<or>
      (\<exists>k. inst_type inst = Common_family k)"
  proof -
    obtain r s1 where s1: "encode_instruction files inst s0 = (r, s1)" by fastforce
    have "data_kept s0 s1" using data_kept_encode [OF that, of s0 files] s1 by simp
    with start have "data_kept s s1" by (rule data_kept_trans)
    from data_kept_trans [OF this fin] s1 show ?thesis by (simp add: encode_listed_def s0_def)
  qed
  show ?thesis
  proof (cases "inst_type inst")
    case (Data_family k)
    then show ?thesis using emit by (simp add: data_encode_def Let_def encode_data_def s0_def)
  next
    case (Reserve_family k)
    then show ?thesis using emit by (simp add: data_encode_def Let_def encode_reserve_def s0_def split: list.split)
  next
    case (Common_family k)
    then show ?thesis using listed by (simp add: data_encode_def)
  next
    case (Directive_family k)
    then show ?thesis using listed by (auto simp: data_encode_def)
  qed (simp_all add: data_encode_def)
qed

text \<open>Every definition of the label stands in the text.\<close>

fun text_label :: "string \<Rightarrow> int \<Rightarrow> parsed_instruction list \<Rightarrow> bool" where
  "text_label l sec [] \<longleftrightarrow> True"
| "text_label l sec (inst # insts) \<longleftrightarrow>
     (inst_type inst \<noteq> Directive_family INST_SECTION \<and> inst_has_label inst \<and> inst_label inst = l \<longrightarrow> sec = 0) \<and>
     text_label l (section_switch inst sec) insts"

lemma section_switch_rewritten: "rewritten inst inst' \<Longrightarrow> section_switch inst' = section_switch inst"
  by (rule ext) (simp add: section_switch_def rewritten_def section_name_from_instruction_def)

lemma text_label_rewritten:
  "list_all2 rewritten insts insts' \<Longrightarrow> text_label l sec insts' = text_label l sec insts"
  by (induction insts insts' arbitrary: sec rule: list_all2_induct)
    (simp_all add: section_switch_rewritten, simp add: rewritten_def)

lemma section_before_rewritten:
  assumes "list_all2 rewritten insts insts'"
  shows "section_before insts' i = section_before insts i"
proof -
  have "list_all2 rewritten xs ys \<Longrightarrow> fold section_switch ys sec = fold section_switch xs sec" for xs ys sec
    by (induction xs ys arbitrary: sec rule: list_all2_induct) (simp_all add: section_switch_rewritten)
  then show ?thesis using assms by (simp add: section_before_def)
qed

definition two_sections :: "asm_ctx \<Rightarrow> bool" where
  "two_sections s \<longleftrightarrow> current_section s = 0 \<or> current_section s = 1"

lemma data_encode_names:
  assumes "labels_fit inst"
  shows "names_kept s (snd (data_encode files inst s))"
proof -
  define s0 where "s0 = listing_start_instruction (inst_line_number inst) (inst_original_line inst) s"
  have "names_kept s s0" by (rule names_kept_same) (simp_all add: s0_def listing_start_instruction_def Let_def)
  moreover have fin: "names_kept t (listing_end_instruction t)" for t
    by (rule names_kept_same) (simp_all add: listing_end_instruction_def Let_def)
  ultimately have emit: "names_kept s (listing_end_instruction (emit_ignoring bs s0))" for bs
    by (meson names_kept_emit_ignoring names_kept_trans)
  have plain: "names_kept s (listing_end_instruction s0)"
    using \<open>names_kept s s0\<close> fin by (rule names_kept_trans)
  show ?thesis
    using emit plain names_kept_listed [OF assms, of s files]
    by (simp add: data_encode_def Let_def encode_data_def encode_reserve_def s0_def
        split: instruction_type.split list.split)
qed

lemma data_step_kept:
  assumes ok: "table_ok s" and fit: "labels_fit inst" and two: "two_sections s"
    and run: "data_step files inst s = (r, t)"
  shows "table_ok t" "text_kept s t" "two_sections t" "current_section t = section_switch inst (current_section s)"
    "table_view s l \<noteq> None \<Longrightarrow> text_label l (current_section s) [inst] \<Longrightarrow> table_view t l = table_view s l"
proof -
  let ?s1 = "place_label inst s"
  let ?i = "rewrite_constant_label_operands ?s1 inst"
  have "table_ok t \<and> text_kept s t \<and> two_sections t \<and> current_section t = section_switch inst (current_section s) \<and>
    (table_view s l \<noteq> None \<longrightarrow> text_label l (current_section s) [inst] \<longrightarrow> table_view t l = table_view s l)"
  proof (cases "inst_type inst = Directive_family INST_SECTION")
    case True
    with run have t: "t = apply_section_directive inst s" by (simp add: data_step_def)
    have "table_view t = table_view s"
      by (rule table_view_hash_only) (simp add: t apply_section_directive_def split: option.split)
    moreover have "two_sections t" "current_section t = section_switch inst (current_section s)"
      using two True by (simp_all add: t two_sections_def apply_section_directive_def section_switch_def
          classify_section_name_def split: option.split)
    moreover have "table_ok t" unfolding t by (rule names_kept_ok [OF names_kept_section ok])
    ultimately show ?thesis by (simp add: same_text_kept t)
  next
    case nosec: False
    show ?thesis
    proof (cases "current_section s = 0")
      case True
      with nosec run have "t = s" by (simp add: data_step_def)
      with True nosec ok two show ?thesis by (simp add: section_switch_def)
    next
      case False
      with two have one: "current_section s = 1" by (simp add: two_sections_def)
      from nosec False run have t: "t = snd (data_encode files ?i ?s1)" by (simp add: data_step_def Let_def)
      have "data_kept ?s1 t" unfolding t by (rule data_kept_data_encode)
      with one have "text_kept ?s1 t" "current_section t = 1" by (simp_all add: data_kept_def)
      moreover have "text_kept s ?s1" by (rule same_text_kept [OF same_text_place_label])
      moreover have ok1: "table_ok ?s1" by (rule table_ok_place_label [OF ok])
      have nk: "names_kept ?s1 t" unfolding t by (rule data_encode_names [OF labels_fit_rewrite(2) [OF fit]])
      moreover have "table_view t l = table_view s l"
        if "table_view s l \<noteq> None" "text_label l (current_section s) [inst]"
      proof -
        have "\<not> inst_has_label inst \<or> inst_label inst \<noteq> l" using that(2) nosec one by auto
        then have "table_view ?s1 l = table_view s l"
          using place_label_move [OF ok, of inst] ok
          by (cases "inst_has_label inst") (auto simp: move_name_def place_label_def split: option.splits)
        moreover have "table_view ?s1 \<subseteq>\<^sub>m table_view t" using nk ok1 by (simp add: names_kept_def)
        ultimately show ?thesis using that(1) by (metis domIff map_le_def)
      qed
      ultimately show ?thesis
        using nosec one names_kept_ok [OF nk ok1]
        by (auto simp: two_sections_def section_switch_def intro: text_kept_trans)
    qed
  qed
  then show "table_ok t" "text_kept s t" "two_sections t" "current_section t = section_switch inst (current_section s)"
    "table_view s l \<noteq> None \<Longrightarrow> text_label l (current_section s) [inst] \<Longrightarrow> table_view t l = table_view s l"
    by blast+
qed

lemma data_steps_kept:
  assumes "run_seq (map (data_step files) insts) s = (Done, t)" "table_ok s" "two_sections s"
    and "\<forall>inst \<in> set insts. labels_fit inst"
  shows "table_ok t \<and> text_kept s t \<and>
    (table_view s l \<noteq> None \<longrightarrow> text_label l (current_section s) insts \<longrightarrow> table_view t l = table_view s l)"
  using assms
proof (induction insts arbitrary: s)
  case (Cons inst insts)
  obtain q s1 where one: "data_step files inst s = (q, s1)" by fastforce
  with Cons.prems(1) have rest: "run_seq (map (data_step files) insts) s1 = (Done, t)"
    by (auto split: status.splits)
  have fit: "labels_fit inst" using Cons.prems(4) by simp
  note step = data_step_kept [OF Cons.prems(2) fit Cons.prems(3) one]
  have "table_ok t \<and> text_kept s1 t \<and>
    (table_view s1 l \<noteq> None \<longrightarrow> text_label l (current_section s1) insts \<longrightarrow> table_view t l = table_view s1 l)"
    using Cons.IH [OF rest step(1,3)] Cons.prems(4) by simp
  with step show ?case by (auto intro: text_kept_trans)
qed simp

lemma data_pass_kept:
  assumes "data_pass files insts s = (Done, t)" "table_ok s" "\<forall>inst \<in> set insts. labels_fit inst"
  shows "table_ok t" "text_kept s t"
    "table_view s l \<noteq> None \<Longrightarrow> text_label l 0 insts \<Longrightarrow> table_view t l = table_view s l"
proof -
  define s0 where "s0 = s\<lparr>current_section := 0, data_section := [],
          current_address := base_address s + of_nat (length (text_section s))\<rparr>"
  have "table_ok s0" "two_sections s0" "table_view s0 = table_view s" "text_kept s s0" "current_section s0 = 0"
    using assms(2) by (simp_all add: s0_def two_sections_def text_kept_def table_view_def
        symbol_hash_lookup_def fun_eq_iff)
  with data_steps_kept [of files insts s0 t l] assms(1,3) show "table_ok t" "text_kept s t"
    "table_view s l \<noteq> None \<Longrightarrow> text_label l 0 insts \<Longrightarrow> table_view t l = table_view s l"
    by (auto simp: data_pass_def s0_def intro: text_kept_trans)
qed

end
