(* ===== verification/Linked_Branches.thy ===== *)
theory Linked_Branches
  imports Final_Layout
begin

text \<open>
  Branches in the finished program: short and near forms, behind any further text and the
  resolution of the fixups, read back as a branch to the address of the label.
\<close>

section \<open>Short forms behind the resolution\<close>

lemma extends_pass: "text_extends s t \<Longrightarrow> pass_extends s t"
  by (auto simp: text_extends_def pass_extends_def fixups_extended_def text_wf_def)

text \<open>Bytes emitted with no fixup of their own are in no field.\<close>

lemma plain_bytes_resolved:
  assumes wf: "text_wf s" and t0: "t0 = put_text bs s" and ext: "text_extends t0 u"
    and res: "resolve_fixups u = (Done, t)"
  shows "\<exists>post. text_section t = take (length (text_section s)) (text_section t) @ bs @ post \<and>
    length (text_section s) \<le> length (text_section t)"
proof -
  let ?len = "length (text_section s)"
  from ext obtain more where text_u: "text_section u = text_section s @ bs @ more"
    by (auto simp: text_extends_def t0)
  have wfu: "text_wf u" using ext by (rule text_extends_wf)
  have base: "base_address u = base_address s" using ext by (simp add: text_extends_def t0)
  obtain xs where t: "t = u\<lparr>text_section := xs\<rparr>" and p: "patched u (fixup_count u) xs"
    using resolve_fixups_outcome [OF wfu res] by auto
  have len: "length xs = length (text_section u)" using p by (simp add: patched_def)
  have outside: "\<not> in_field u (fixup_count u) k" if k: "?len \<le> k" "k < ?len + length bs" for k
  proof
    assume "in_field u (fixup_count u) k"
    then obtain i where i: "i < fixup_count u" "fixup_offset u (fixups u i) \<le> k"
      "k < fixup_offset u (fixups u i) + 4" by (auto simp: in_field_def)
    show False
    proof (cases "i < fixup_count s")
      case True
      then have "fixups u i = fixups s i" using ext by (simp add: text_extends_def t0)
      moreover have "fixup_in_text s (fixups s i)" using wf True by (simp add: text_wf_def)
      ultimately have "fixup_offset u (fixups u i) + 4 \<le> ?len"
        by (simp add: fixup_in_text_def fixup_offset_base [OF base])
      with i k show False by linarith
    next
      case False
      then have "length (text_section t0) \<le> fixup_offset u (fixups u i)"
        using ext i(1) by (simp add: text_extends_def t0)
      with i k show False by (simp add: t0)
    qed
  qed
  have "take (length bs) (drop ?len xs) = bs"
  proof (rule nth_equalityI)
    show "length (take (length bs) (drop ?len xs)) = length bs" by (simp add: len text_u)
    fix i assume "i < length (take (length bs) (drop ?len xs))"
    then have i: "i < length bs" by simp
    have "xs ! (?len + i) = text_section u ! (?len + i)"
      using p outside [of "?len + i"] i by (simp add: patched_def text_u)
    with i show "take (length bs) (drop ?len xs) ! i = bs ! i"
      by (simp add: len text_u nth_append)
  qed
  then have "xs = take ?len xs @ bs @ drop (?len + length bs) xs"
    by (metis append_take_drop_id drop_drop add.commute)
  then have "text_section t = take ?len (text_section t) @ bs @ drop (?len + length bs) xs" by (simp add: t)
  moreover have "?len \<le> length (text_section t)" by (simp add: t len text_u)
  ultimately show ?thesis by blast
qed

lemma cc_short_opcode:
  fixes cc :: u8
  assumes "cc < 16"
  shows "(0x70 + cc \<ge> 0x50 \<and> 0x70 + cc \<le> 0x57) = False" "(0x70 + cc \<ge> 0x58 \<and> 0x70 + cc \<le> 0x5F) = False"
    "(0x70 + cc = 0x6A) = False" "(0x70 + cc = 0x68) = False" "plain_opcode (0x70 + cc) = True"
proof -
  have "unat cc < 16" using assms by (simp add: word_less_nat_alt)
  then have "cc \<in> set (map of_nat [0..<16])" by (auto intro!: image_eqI [of _ _ "unat cc"])
  moreover have "list_all (\<lambda>cc :: u8. \<not> (0x70 + cc \<ge> 0x50 \<and> 0x70 + cc \<le> 0x57) \<and>
      \<not> (0x70 + cc \<ge> 0x58 \<and> 0x70 + cc \<le> 0x5F) \<and> 0x70 + cc \<noteq> 0x6A \<and> 0x70 + cc \<noteq> 0x68 \<and>
      plain_opcode (0x70 + cc)) (map of_nat [0..<16])"
    by code_simp
  ultimately show "(0x70 + cc \<ge> 0x50 \<and> 0x70 + cc \<le> 0x57) = False"
    "(0x70 + cc \<ge> 0x58 \<and> 0x70 + cc \<le> 0x5F) = False"
    "(0x70 + cc = 0x6A) = False" "(0x70 + cc = 0x68) = False" "plain_opcode (0x70 + cc) = True"
    by (simp_all only: list_all_iff Ball_def simp_thms)
qed

lemma decode_short_jcc:
  assumes "cc < 16"
  shows "decode_one (pre @ [0x70 + cc, d] @ post) base (length pre) =
    Decoded \<lparr>dis_bytes = [0x70 + cc, d], dis_text = cc_name ''j'' cc @ '' '' @
      hex_text (unat (base + of_nat (length pre) + 2 + scast d))\<rparr>"
proof -
  let ?opc = "0x70 + cc"
  let ?e = "form_env (pre @ ?opc # d # post) base (length pre) 0"
  have b: "byte_at (pre @ ?opc # d # post) (length pre + 1) = Some d"
    using byte_at_shift [of pre "?opc # d # post" 1] by (simp add: byte_at_def)
  have "decode_opcode ?e ?opc (length pre + 1) = with_byte ?e (length pre + 1)
      (\<lambda>b c. Text_To (cc_name ''j'' ?opc @ '' '' @ hex_text (unat (jump_target ?e c (scast b)))) c)"
    unfolding decode_opcode_def Let_def
    by (simp only: cc_short_opcode [OF assms] cc_opcode(5) [OF assms] if_True if_False)
  also have "\<dots> = Text_To (cc_name ''j'' cc @ '' '' @
      hex_text (unat (base + of_nat (length pre) + 2 + scast d))) (length pre + 2)"
    using b cc_opcode(6,7) [OF assms] by (simp add: with_byte_def jump_target_def cc_name_def)
  finally show ?thesis
    using decode_one_plain [of ?opc pre "d # post" base] finish_form [of "[?opc, d]" pre post]
      cc_short_opcode(5) [OF assms]
    by simp
qed

text \<open>A two byte run in the text of a successful command.\<close>

lemma two_bytes_done:
  assumes "run_seq [emit_byte a, emit_byte b] s = (Done, t)" "text_wf s"
  shows "t = put_text [a, b] s"
proof (rule emit_bytes_done)
  show "emit_bytes [a, b] s = (Done, t)" using assms(1) by (simp add: emit_bytes_def)
  show "current_section s \<noteq> 1" using assms(2) by (simp add: text_wf_def)
qed

text \<open>The short form of either branch: the displacement byte leads to the label.\<close>

lemma short_branch_reads_back:
  assumes wf: "text_wf s" and rel: "short_branch_rel l s = Some rel"
    and run: "run_seq [emit_byte opc, emit_byte (ucast rel)] s = (Done, t0)"
    and ext: "text_extends t0 u" and res: "resolve_fixups u = (Done, t)"
    and dec: "\<And>pre d post base. decode_one (pre @ [opc, d] @ post) base (length pre) =
      Decoded \<lparr>dis_bytes = [opc, d], dis_text = m @ hex_text (unat (base + of_nat (length pre) + 2 + scast d))\<rparr>"
  shows "\<exists>target. find_symbol_address l s = Some target \<and>
    decode_one (text_section t) (base_address s) (length (text_section s)) =
      Decoded \<lparr>dis_bytes = [opc, ucast rel], dis_text = m @ hex_text (unat target)\<rparr>"
proof -
  let ?n = "length (text_section s)"
  note target = short_branch_rel_target [OF rel]
  obtain post where post: "text_section t = take ?n (text_section t) @ [opc, ucast rel] @ post"
    "?n \<le> length (text_section t)"
    using plain_bytes_resolved [OF wf two_bytes_done [OF run wf] ext res] by blast
  have "decode_one (text_section t) (base_address s) ?n =
      Decoded \<lparr>dis_bytes = [opc, ucast rel],
        dis_text = m @ hex_text (unat (base_address s + of_nat ?n + 2 + scast (ucast rel :: u8)))\<rparr>"
    using dec [of "take ?n (text_section t)" "ucast rel" post "base_address s"] post by simp
  moreover have "base_address s + of_nat ?n + 2 + scast (ucast rel :: u8) = current_address s + 2 + rel"
    using wf scast_ucast_byte [OF target(2)] by (simp add: text_wf_def anchored_def)
  ultimately show ?thesis using target(1) by simp
qed

section \<open>All branches\<close>

text \<open>The mnemonic of a branch to a label.\<close>

definition branch_mnemonic :: "instruction_type \<Rightarrow> string option" where
  "branch_mnemonic ty = (case ty of
       Single_family k \<Rightarrow> if k = INST_JMP then Some ''jmp'' else None
     | Callret_family k \<Rightarrow> if k = INST_CALL then Some ''call'' else None
     | Jcc_family k \<Rightarrow> Some (jcc_mnemonic k)
     | _ \<Rightarrow> None)"

lemma branch_mnemonic_cases:
  assumes "branch_mnemonic ty = Some m"
  obtains (jmp) "ty = Single_family INST_JMP" "m = ''jmp''"
    | (call) "ty = Callret_family INST_CALL" "m = ''call''"
    | (jcc) k where "ty = Jcc_family k" "m = jcc_mnemonic k"
  using assms by (cases ty) (auto simp: branch_mnemonic_def split: if_splits)

definition branch_text :: "u8 list \<Rightarrow> u64 \<Rightarrow> nat \<Rightarrow> string \<Rightarrow> u64 \<Rightarrow> bool" where
  "branch_text code base n m target \<longleftrightarrow> (\<exists>bs. decode_one code base n =
     Decoded \<lparr>dis_bytes = bs, dis_text = m @ '' '' @ hex_text (unat target)\<rparr>)"

lemma dispatched_branch_lands:
  assumes wf: "text_wf s" and run: "dispatch files inst s = (Done, t0)"
    and m: "branch_mnemonic (inst_type inst) = Some m"
    and op: "inst_operands inst = [op]" "op_type op = OPERAND_LABEL" "name_fits (op_label op)"
    and ext: "text_extends t0 u" and res: "resolve_fixups u = (Done, t)"
    and same: "find_symbol_address (op_label op) s = find_symbol_address (op_label op) u \<or>
      find_symbol_address (op_label op) s = None"
  shows "\<exists>target. find_symbol_address (op_label op) u = Some target \<and>
    branch_text (text_section t) (base_address s) (length (text_section s)) m target"
proof -
  let ?l = "op_label op"
  note pe = extends_pass [OF ext] and wfu = text_extends_wf [OF ext]
  from m show ?thesis
  proof (cases rule: branch_mnemonic_cases)
    case jmp
    with run op have enc: "encode_jmp_label ?l s = (Done, t0)" by (simp add: dispatch_def encode_jmp_def)
    show ?thesis
    proof (cases "short_branch_rel ?l s")
      case None
      from near_branch_reads_back [OF jmp_emits_branch [OF None] _ op(3) _ wf enc pe wfu res] jmp
      show ?thesis by (auto simp: branch_text_def is_branch_type_def)
    next
      case (Some rel)
      with enc have "run_seq [emit_byte 0xEB, emit_byte (ucast rel)] s = (Done, t0)"
        by (simp add: encode_jmp_label_def)
      from short_branch_reads_back [OF wf Some this ext res, of "''jmp ''"] decode_short_jmp jmp same
      show ?thesis by (auto simp: branch_text_def)
    qed
  next
    case call
    with run op have enc: "encode_call_ret inst s = (Done, t0)" by (simp add: dispatch_def)
    from near_branch_reads_back [OF call_emits_branch [OF call(1) op(1,2)] _ op(3) _ wf enc pe wfu res] call
    show ?thesis by (auto simp: branch_text_def is_branch_type_def)
  next
    case (jcc k)
    obtain cc where cc: "cc < 16" "jcc_code (Jcc_family k) = Some cc" "cc_name ''j'' cc = jcc_mnemonic k"
      using jcc_code_name [of k] by blast
    with run op jcc(1) have enc: "encode_jcc_label cc (Jcc_family k) ?l s = (Done, t0)"
      by (simp add: dispatch_def encode_jcc_def)
    show ?thesis
    proof (cases "short_branch_rel ?l s")
      case None
      from near_jcc_reads_back [OF None _ op(3) cc(1) wf enc pe wfu res] jcc cc(3)
      show ?thesis by (auto simp: branch_text_def is_branch_type_def)
    next
      case (Some rel)
      with enc have "run_seq [emit_byte (0x70 + cc), emit_byte (ucast rel)] s = (Done, t0)"
        by (simp add: encode_jcc_label_def)
      from short_branch_reads_back [OF wf Some this ext res, of "cc_name ''j'' cc @ '' ''"]
        decode_short_jcc [OF cc(1)] jcc cc(3) same
      show ?thesis by (auto simp: branch_text_def)
    qed
  qed
qed

section \<open>Down to the resolved text\<close>

text \<open>The resolution reads neither the section nor the current address.\<close>

definition settle :: "u64 \<Rightarrow> asm_ctx \<Rightarrow> asm_ctx" where
  "settle a s = s\<lparr>current_address := a, current_section := 0\<rparr>"

lemma resolve_one_settle: "resolve_one f (settle a s) = (case resolve_one f s of (r, t) \<Rightarrow> (r, settle a t))"
  by (simp add: resolve_one_def settle_def patch_field_def find_symbol_address_def symbol_hash_lookup_def
      Let_def split: option.split)

lemma resolve_run_settle:
  "run_seq (map (\<lambda>i. resolve_one (f i)) xs) (settle a s) =
     (case run_seq (map (\<lambda>i. resolve_one (f i)) xs) s of (r, t) \<Rightarrow> (r, settle a t))"
  by (induction xs arbitrary: s) (simp_all add: resolve_one_settle split: prod.split status.split)

lemma resolve_fixups_settle:
  "resolve_fixups s = (r, t) \<Longrightarrow> resolve_fixups (settle a s) = (r, settle a t)"
  using resolve_run_settle [of "fixups s" "[0..<fixup_count s]" a s]
  by (simp add: resolve_fixups_def settle_def)

lemma settle_extends:
  assumes ext: "text_extends s (in_text u)" and kept: "text_kept u v"
  shows "text_extends s (settle (current_address u) v)"
proof -
  have "text_extends (in_text u) (settle (current_address u) v)"
    by (rule text_extends_same_text [OF text_extends_wf [OF ext]])
      (use kept in \<open>simp_all add: text_kept_def settle_def\<close>)
  from text_extends_trans [OF ext this] show ?thesis .
qed

lemma text_settle [simp]: "text_section (settle a s) = text_section s"
  by (simp add: settle_def)

lemma find_settle [simp]: "find_symbol_address n (settle a s) = find_symbol_address n s"
  by (simp add: find_symbol_address_def symbol_hash_lookup_def settle_def)

lemma attributes_kept:
  "apply_symbol_attributes xs a b s = (r, t) \<Longrightarrow> text_kept s t \<and> table_view t = table_view s"
proof (induction xs arbitrary: s)
  case (Cons x xs)
  let ?u = "s\<lparr>symbols := update_first (\<lambda>s. sym_name s = x)
           (\<lambda>s. s\<lparr>sym_is_weak := (a \<or> sym_is_weak s), sym_is_hidden := (b \<or> sym_is_hidden s)\<rparr>) (symbols s)\<rparr>"
  have u: "text_kept s ?u" by (simp add: text_kept_def)
  have view: "table_view ?u = table_view s" by (rule table_view_hash_only) simp
  show ?case
  proof (cases "find_symbol_entry x s = None")
    case False
    with Cons.prems have "apply_symbol_attributes xs a b ?u = (r, t)" by simp
    note rest = Cons.IH [OF this]
    have "text_kept s t" by (rule text_kept_trans [OF u conjunct1 [OF rest]])
    moreover have "table_view t = table_view s" using rest view by simp
    ultimately show ?thesis by blast
  qed (use Cons.prems in simp)
qed simp

text \<open>The steps behind the text pass.\<close>

lemma finish_passes:
  assumes run: "run_seq [apply_symbol_attributes ws True False, apply_symbol_attributes hs False True,
      data_pass files insts, resolve_fixups] s = (Done, t)"
    and ok: "table_ok s" and fit: "\<forall>inst \<in> set insts. labels_fit inst"
    and l: "table_view s l \<noteq> None" "text_label l 0 insts"
  obtains u where "table_ok u" "text_kept s u" "table_view u l = table_view s l" "resolve_fixups u = (Done, t)"
proof -
  from run obtain s1 s2 u where p: "apply_symbol_attributes ws True False s = (Done, s1)"
    "apply_symbol_attributes hs False True s1 = (Done, s2)" "data_pass files insts s2 = (Done, u)"
    "resolve_fixups u = (Done, t)"
    by (auto split: prod.splits status.splits)
  have s1: "text_kept s s1" "table_view s1 = table_view s" "table_ok s1"
    using attributes_kept [OF p(1)] table_ok_attributes [OF ok, of ws True False] p(1) by simp_all
  have s2: "text_kept s1 s2" "table_view s2 = table_view s1" "table_ok s2"
    using attributes_kept [OF p(2)] table_ok_attributes [OF s1(3), of hs False True] p(2) by simp_all
  note d = data_pass_kept [OF p(3) s2(3) fit]
  show ?thesis
  proof (rule that)
    show "table_ok u" by (rule d(1))
    show "text_kept s u" by (rule text_kept_trans [OF s1(1) text_kept_trans [OF s2(1) d(2)]])
    have "table_view s2 l = table_view s l" by (simp add: s1(2) s2(2))
    with d(3) [of l] l show "table_view u l = table_view s l" by simp
    show "resolve_fixups u = (Done, t)" by (rule p(4))
  qed
qed

section \<open>A branch of the text pass\<close>

lemma hash_table_fields [simp]:
  "symbol_hash_table (mark_called inst s) = symbol_hash_table s"
  "symbol_hash_table (map_line inst s) = symbol_hash_table s"
  "symbol_hash_table (listing_start_instruction n l s) = symbol_hash_table s"
  by (simp_all add: mark_called_def map_line_def listing_start_instruction_def Let_def
      split: instruction_type.split callret_kind.split list.split)

lemma encode_instruction_plain:
  assumes "inst_operands inst = [op]" "op_type op \<noteq> OPERAND_MEM"
  shows "encode_instruction files inst s = dispatch files inst s"
  using assms by (simp add: encode_instruction_def split: prod.split status.split)

lemma text_encode_branch:
  assumes run: "text_encode files inst s = (Done, t)" and m: "branch_mnemonic (inst_type inst) = Some m"
    and op: "inst_operands inst = [op]" "op_type op \<noteq> OPERAND_MEM"
  obtains s0 t0 where "same_text s s0" "current_section s0 = current_section s"
    "symbol_hash_table s0 = symbol_hash_table s" "dispatch files inst s0 = (Done, t0)" "same_text t0 t"
proof -
  let ?c = "map_line inst (mark_called inst s)"
  define s0 where "s0 = listing_start_instruction (inst_line_number inst) (inst_original_line inst) ?c"
  have "encode_listed files inst ?c = (Done, t)"
    using run by (cases rule: branch_mnemonic_cases [OF m]) (simp_all add: text_encode_def)
  then obtain t0 where t0: "encode_instruction files inst s0 = (Done, t0)" "t = listing_end_instruction t0"
    by (auto simp: encode_listed_def s0_def split: prod.splits)
  show ?thesis
  proof (rule that)
    show "same_text s s0" unfolding s0_def
      by (rule same_text_trans [OF same_text_trans [OF same_text_mark_called(1) same_text_map_line(1)]
            same_text_listing(1)])
    show "current_section s0 = current_section s" by (simp add: s0_def)
    show "symbol_hash_table s0 = symbol_hash_table s"
      by (simp add: s0_def)
    show "dispatch files inst s0 = (Done, t0)"
      using t0(1) by (simp add: encode_instruction_plain [OF op])
    show "same_text t0 t" by (simp add: t0(2))
  qed
qed

text \<open>A branch whose operand became a constant does not encode.\<close>

lemma branch_operand_label:
  assumes run: "dispatch files inst s = (Done, t)" and m: "branch_mnemonic (inst_type inst) = Some m"
    and op: "inst_operands inst = [op]"
  shows "op_type op \<noteq> OPERAND_IMM"
proof
  assume imm: "op_type op = OPERAND_IMM"
  from m show False
  proof (cases rule: branch_mnemonic_cases)
    case jmp
    with run op imm show False by (simp add: dispatch_def encode_jmp_def fail_def)
  next
    case call
    with run op imm show False by (simp add: dispatch_def encode_call_ret_def fail_def)
  next
    case (jcc k)
    with run op imm show False by (simp add: dispatch_def encode_jcc_def fail_def)
  qed
qed

section \<open>From the passes to the finished text\<close>

lemma nth_rewritten: "list_all2 rewritten xs ys \<Longrightarrow> i < length xs \<Longrightarrow> rewritten (xs ! i) (ys ! i)"
  by (rule list_all2_nthD)

lemma encoded_here_rewritten:
  assumes "list_all2 rewritten insts insts0" "encoded_here insts i"
  shows "encoded_here insts0 i"
proof -
  have i: "i < length insts" using assms(2) by (simp add: encoded_here_def)
  with nth_rewritten [OF assms(1) i] assms list_all2_lengthD [OF assms(1)]
    section_before_rewritten [OF assms(1), of i]
  show ?thesis by (simp add: encoded_here_def rewritten_def)
qed

text \<open>The offset of an instruction in the text, from the address field that the pass left in it.\<close>

definition inst_offset :: "u64 \<Rightarrow> parsed_instruction \<Rightarrow> nat" where
  "inst_offset base inst = unat (inst_address inst - base)"

lemma map_le_SomeD: "m \<subseteq>\<^sub>m m' \<Longrightarrow> m k = Some v \<Longrightarrow> m' k = Some v"
  by (metis domI map_le_def)

lemma wf_offset:
  assumes "text_wf s" "base_address s = base"
  shows "unat (current_address s - base) = length (text_section s)"
  using assms by (auto simp: text_wf_def anchored_def unat_of_nat)

lemma converged_branch:
  assumes ready: "pass_ready insts s insts0 s0"
    and run: "text_pass files insts0 (text_reset s0) = ((Done, st), insts1)" and still: "\<not> tx_changed st"
    and jump: "encoded_here insts j" "branch_mnemonic (inst_type (insts ! j)) = Some m"
      "inst_operands (insts ! j) = [op]" "op_type op = OPERAND_LABEL"
    and lab: "encoded_here insts i" "inst_has_label (insts ! i)" "inst_label (insts ! i) = op_label op"
    and bound: "table_view s (op_label op) \<noteq> None"
    and rest: "table_ok u" "text_kept (tx_ctx st) u"
      "table_view u (op_label op) = table_view (tx_ctx st) (op_label op)" "resolve_fixups u = (Done, t)"
  shows "branch_text (text_section t) (base_address s) (inst_offset (base_address s) (insts1 ! j)) m
    (inst_address (insts1 ! i))"
    "map_option fst (table_view u (op_label op)) = Some (inst_address (insts1 ! i))"
proof -
  let ?l = "op_label op"
  from ready have fit: "\<forall>inst \<in> set insts0. labels_fit inst" and ok: "table_ok s0"
    and cap: "text_capacity s0 \<le> MAX_OUTPUT_SIZE" and rw: "list_all2 rewritten insts insts0"
    and base: "base_address s0 = base_address s"
    by (simp_all add: pass_ready_def)
  have "dom (table_view s) \<subseteq> dom (table_view s0)" using ready by (simp add: pass_ready_def)
  with bound have bound0: "table_view s0 ?l \<noteq> None" by blast
  note point = converged_point [OF run ok fit cap still]
  have ij: "i < length insts" "j < length insts" using lab jump by (simp_all add: encoded_here_def)
  note ri = nth_rewritten [OF rw ij(1)] and rj = nth_rewritten [OF rw ij(2)]
  \<comment> \<open>the label\<close>
  obtain a1 a2 where a: "table_view s0 \<subseteq>\<^sub>m table_view a1" "table_view a1 \<subseteq>\<^sub>m table_view (tx_ctx st)"
    "insts1 ! i = rewrite_constant_label_operands a1 ((insts0 ! i)\<lparr>inst_address := current_address a1\<rparr>)"
    "inst_has_label (insts0 ! i) \<Longrightarrow> table_view a1 (inst_label (insts0 ! i)) \<noteq> None \<Longrightarrow>
       map_option fst (table_view a1 (inst_label (insts0 ! i))) = Some (current_address a1)"
    using point [OF encoded_here_rewritten [OF rw lab(1)]] by blast
  have l_i: "inst_has_label (insts0 ! i)" "inst_label (insts0 ! i) = ?l"
    using ri lab by (simp_all add: rewritten_def)
  obtain v where v0: "table_view s0 ?l = Some v" using bound0 by blast
  then have v: "table_view a1 ?l = Some v" "table_view (tx_ctx st) ?l = Some v"
    using a(1,2) by (blast intro: map_le_SomeD)+
  have addr: "inst_address (insts1 ! i) = fst v"
    using a(3,4) l_i v(1) by (simp add: rewrite_constant_label_operands_def)
  show "map_option fst (table_view u ?l) = Some (inst_address (insts1 ! i))"
    using rest(3) v(2) addr by simp
  \<comment> \<open>the branch\<close>
  obtain b1 b2 where b: "table_ok b1" "text_wf b1" "current_section b1 = section_before insts0 j"
    "base_address b1 = base_address s0"
    "table_view s0 \<subseteq>\<^sub>m table_view b1"
    "insts1 ! j = rewrite_constant_label_operands b1 ((insts0 ! j)\<lparr>inst_address := current_address b1\<rparr>)"
    "text_encode files (insts1 ! j) b1 = (Done, b2)" "text_extends b2 (in_text (tx_ctx st))"
    using point [OF encoded_here_rewritten [OF rw jump(1)]] by blast
  have "rewritten (insts0 ! j) (insts1 ! j)"
    using list_all2_nthD [OF text_pass_rewritten [OF run], of j] ij rw by (simp add: list_all2_lengthD)
  with rj have rj1: "rewritten (insts ! j) (insts1 ! j)" by (rule rewritten_trans)
  then obtain op1 where op1: "inst_operands (insts1 ! j) = [op1]" "op_label op1 = ?l"
    "op_type op1 = OPERAND_LABEL \<or> op_type op1 = OPERAND_IMM"
    using jump(3,4) by (auto simp: rewritten_def op_rewritten_def list_all2_Cons1)
  have ty1: "branch_mnemonic (inst_type (insts1 ! j)) = Some m" using rj1 jump(2) by (simp add: rewritten_def)
  have "op_type op1 \<noteq> OPERAND_MEM" using op1(3) by auto
  then obtain s1 t1 where st1: "same_text b1 s1" "current_section s1 = current_section b1"
    "symbol_hash_table s1 = symbol_hash_table b1" "dispatch files (insts1 ! j) s1 = (Done, t1)"
    "same_text t1 b2"
    using text_encode_branch [OF b(7) ty1 op1(1)] by blast
  have lab1: "op_type op1 = OPERAND_LABEL"
    using op1(3) branch_operand_label [OF st1(4) ty1 op1(1)] by blast
  have fit1: "name_fits (op_label op1)"
  proof -
    have "\<forall>inst \<in> set insts1. labels_fit inst"
      using text_pass_table [OF run fit] ok by (simp add: table_ok_text_reset)
    moreover have "insts1 ! j \<in> set insts1"
      using ij list_all2_lengthD [OF rw] list_all2_lengthD [OF text_pass_rewritten [OF run]] by simp
    ultimately show ?thesis using op1(1) by (simp add: labels_fit_def)
  qed
  have wf1: "text_wf s1"
    by (rule text_extends_wf, rule text_extends_same_text [OF b(2)])
      (use st1(1,2) b(2) in \<open>simp_all add: same_text_def text_wf_def\<close>)
  let ?F = "settle (current_address (tx_ctx st)) u"
  have "text_extends t1 (in_text (tx_ctx st))"
    using b(8) st1(5) by (simp add: text_extends_def same_text_def)
  then have ext: "text_extends t1 ?F" by (rule settle_extends [OF _ rest(2)])
  have view1: "table_view s1 ?l = Some v"
    using map_le_SomeD [OF b(5) v0] by (simp add: table_view_hash_only [OF st1(3)])
  have find1: "find_symbol_address ?l s1 = Some (fst v)"
  proof -
    have "find_symbol_address ?l s1 = find_symbol_address ?l b1"
      by (simp add: find_symbol_address_def symbol_hash_lookup_def st1(3))
    also have "\<dots> = map_option fst (table_view s1 ?l)"
      using find_symbol_address_view [OF b(1), of ?l] by (simp add: table_view_hash_only [OF st1(3)])
    finally show ?thesis using view1 by simp
  qed
  have findF: "find_symbol_address ?l u = Some (fst v)"
    using find_symbol_address_view [OF rest(1), of ?l] rest(3) v(2) by simp
  have "\<exists>target. find_symbol_address (op_label op1) ?F = Some target \<and>
    branch_text (text_section (settle (current_address (tx_ctx st)) t)) (base_address s1)
      (length (text_section s1)) m target"
    by (rule dispatched_branch_lands [OF wf1 st1(4) ty1 op1(1) lab1 fit1 ext resolve_fixups_settle [OF rest(4)]])
      (simp add: op1(2) find1 findF)
  moreover have "length (text_section s1) = inst_offset (base_address s) (insts1 ! j)"
    using wf_offset [OF b(2)] b(4,6) st1(1) base
    by (simp add: inst_offset_def rewrite_constant_label_operands_def same_text_def)
  moreover have "base_address s1 = base_address s" using b(4) base st1(1) by (simp add: same_text_def)
  ultimately show "branch_text (text_section t) (base_address s) (inst_offset (base_address s) (insts1 ! j)) m
    (inst_address (insts1 ! i))"
    using findF by (simp add: op1(2) addr)
qed

end
