(* ===== verification/Assembled_Program.thy ===== *)
theory Assembled_Program
  imports Linked_Branches
begin

text \<open>
  A whole assembly: the passes in front of the text pass keep the buffers and the base, and a
  branch of the source, followed through every pass, leads to its label in the finished text.
\<close>

section \<open>The passes in front keep the buffers\<close>

definition config_kept :: "asm_ctx \<Rightarrow> asm_ctx \<Rightarrow> bool" where
  "config_kept s t \<longleftrightarrow> text_capacity t = text_capacity s \<and> base_address t = base_address s"

lemma config_kept_refl [simp]: "config_kept s s"
  by (simp add: config_kept_def)

lemma config_kept_trans: "config_kept s t \<Longrightarrow> config_kept t u \<Longrightarrow> config_kept s u"
  by (simp add: config_kept_def)

lemma config_add_symbol: "config_kept s (snd (add_symbol n a g x sec s))"
  using writes_add_symbol by (simp add: writes_def config_kept_def)

lemma config_hash_update: "config_kept s (snd (symbol_hash_update n a g x sec s))"
  by (subst symbol_hash_update_frame) (simp add: config_kept_def)

lemma config_upsert: "config_kept s (snd (upsert_constant_symbol n v s))"
proof (cases "symbol_hash_lookup n s")
  case (Some e)
  obtain q u where u: "symbol_hash_update n v (he_is_global e) False (-1) s = (q, u)" by fastforce
  have "config_kept s u" using config_hash_update [of s n v "he_is_global e" False "-1"] u by simp
  moreover have "config_kept u (snd (add_symbol n v False False (-1) u))" by (rule config_add_symbol)
  moreover have "config_kept u (u\<lparr>symbols := y\<rparr>)" for y by (simp add: config_kept_def)
  ultimately show ?thesis
    using Some u by (auto simp: upsert_constant_symbol_def intro: config_kept_trans split: status.split)
qed (simp add: upsert_constant_symbol_def config_add_symbol)

lemma config_run_seq: "(\<And>c s. c \<in> set cs \<Longrightarrow> config_kept s (snd (c s))) \<Longrightarrow> config_kept s (snd (run_seq cs s))"
proof (induction cs arbitrary: s)
  case (Cons c cs)
  obtain r s1 where s1: "c s = (r, s1)" by fastforce
  with Cons.prems [of c s] have "config_kept s s1" by simp
  moreover have "config_kept s1 (snd (run_seq cs s1))" by (rule Cons.IH) (use Cons.prems in simp)
  ultimately show ?case using s1 by (auto intro: config_kept_trans split: status.split)
qed simp

lemma config_equ: "config_kept s (snd (resolve_equ_symbol_values insts s))"
  unfolding resolve_equ_symbol_values_def
  by (rule config_run_seq) (auto simp: resolve_equ_one_def Let_def config_upsert split: option.split)

lemma config_section: "config_kept s (apply_section_directive inst s)"
  by (simp add: apply_section_directive_def config_kept_def split: option.split)

lemma config_record_label: "config_kept s (record_label inst a s)"
  using config_add_symbol [of s "inst_label inst" "if current_section s = 0 then current_address s else a"
      False False "current_section s"]
  by (simp add: record_label_def Let_def config_kept_def)

lemma config_label_step:
  "label_pass_step files inst st = (r, st') \<Longrightarrow> config_kept (fst st) (fst st')"
  using config_record_label [of "fst st" inst "snd st"]
  by (cases st) (auto simp: label_pass_step_def Let_def config_section [unfolded config_kept_def] config_kept_def
        split: if_splits option.splits)

lemma config_label_pass: "label_pass files insts st = (r, st') \<Longrightarrow> config_kept (fst st) (fst st')"
  by (induction files insts st rule: label_pass.induct)
    (auto split: prod.splits status.splits dest: config_label_step intro: config_kept_trans)

lemma config_relax_step: "config_kept (rx_ctx st) (rx_ctx (relax_step inst st))"
proof -
  have "config_kept s (snd (symbol_hash_update n a g x sec (s\<lparr>symbols := y\<rparr>)))" for s n a g x sec y
    using config_hash_update [of "s\<lparr>symbols := y\<rparr>" n a g x sec] by (simp add: config_kept_def)
  then have "config_kept (rx_ctx st) (rx_ctx (relax_label inst st))"
    by (simp add: relax_label_def Let_def split: bool.split option.split)
  then show ?thesis by (simp add: relax_step_def Let_def)
qed

lemma config_relax: "config_kept s (relax_iterate n insts s)"
proof (induction n arbitrary: s)
  case (Suc n)
  have "config_kept (rx_ctx st) (rx_ctx (fold relax_step insts st))" for st
  proof (induction insts arbitrary: st)
    case (Cons inst insts)
    from config_kept_trans [OF config_relax_step Cons.IH] show ?case by simp
  qed simp
  then have "config_kept s (rx_ctx (relax_pass insts s))"
    unfolding relax_pass_def by (metis relax_state.select_convs(1))
  with Suc.IH [of "rx_ctx (relax_pass insts s)"] show ?case
    by (auto simp: Let_def intro: config_kept_trans)
qed simp

lemma config_label_passes: "config_kept s (snd (label_passes files insts s))"
proof -
  define s0 where "s0 = s\<lparr>current_address := base_address s, line_map := [], listing_entries := [],
            listing_active_index := -1, listing_active := False\<rparr>"
  have s0: "config_kept s s0" "config_kept s0 (s0\<lparr>current_section := 0\<rparr>)" by (simp_all add: s0_def config_kept_def)
  obtain r c d where pass: "label_pass files insts (s0\<lparr>current_section := 0\<rparr>,
      base_address s + estimate_text_size insts s0) = (r, c, d)" by (metis prod.collapse)
  have one: "config_kept s0 c"
    using config_kept_trans [OF s0(2)] config_label_pass [OF pass] by simp
  show ?thesis
  proof (cases r)
    case (Fail e)
    with config_kept_trans [OF s0(1) one] pass show ?thesis by (simp add: label_passes_def s0_def Let_def)
  next
    case Done
    have two: "config_kept c (snd (run_seq [resolve_equ_symbol_values insts,
            \<lambda>c. (Done, recompute_text_layout_relaxed insts c), resolve_equ_symbol_values insts] c))"
      by (rule config_run_seq) (auto simp: config_equ recompute_text_layout_relaxed_def config_relax)
    from config_kept_trans [OF s0(1) config_kept_trans [OF one two]] Done pass show ?thesis
      by (simp add: label_passes_def s0_def Let_def)
  qed
qed

section \<open>The finished program\<close>

lemma resolve_fixups_hash: "symbol_hash_table (snd (resolve_fixups s)) = symbol_hash_table s"
proof -
  have one: "symbol_hash_table (snd (resolve_one f t)) = symbol_hash_table t" for f t
    by (simp add: resolve_one_def patch_field_def Let_def split: option.split)
  have "symbol_hash_table (snd (run_seq (map (\<lambda>i. resolve_one (g i)) xs) t)) = symbol_hash_table t" for g xs t
  proof (induction xs arbitrary: t)
    case (Cons x xs)
    obtain r t1 where "resolve_one (g x) t = (r, t1)" by fastforce
    with one [of "g x" t] Cons.IH [of t1] show ?case by (simp split: status.split)
  qed simp
  then show ?thesis by (simp add: resolve_fixups_def)
qed

lemma assembled_branch:
  assumes run: "assemble_parsed files insts s = (Done, t)"
    and ok: "table_ok s" and cap: "text_capacity s \<le> MAX_OUTPUT_SIZE" and fit: "\<forall>inst \<in> set insts. labels_fit inst"
    and first: "label_passes files insts s = (Done, s1)"
    and passes: "text_passes files insts s1 = ((Done, st), insts1)" and still: "\<not> tx_changed st"
    and jump: "encoded_here insts j" "branch_mnemonic (inst_type (insts ! j)) = Some m"
      "inst_operands (insts ! j) = [op]" "op_type op = OPERAND_LABEL"
    and lab: "encoded_here insts i" "inst_has_label (insts ! i)" "inst_label (insts ! i) = op_label op"
      "text_label (op_label op) 0 insts"
    and bound: "find_symbol_address (op_label op) s1 \<noteq> None"
  shows "branch_text (text_section t) (base_address s) (inst_offset (base_address s) (insts1 ! j)) m
      (inst_address (insts1 ! i))"
    "find_symbol_address (op_label op) t = Some (inst_address (insts1 ! i))"
proof -
  let ?l = "op_label op"
  have ok1: "table_ok s1" using table_ok_label_passes [OF ok fit, of files] first by simp
  have cfg: "text_capacity s1 \<le> MAX_OUTPUT_SIZE" "base_address s1 = base_address s"
    using config_label_passes [of s files insts] first cap by (simp_all add: config_kept_def)
  have bound1: "table_view s1 ?l \<noteq> None"
    using bound find_symbol_address_view [OF ok1, of ?l] by auto
  have ready: "pass_ready insts s1 insts s1"
    using ok1 fit cfg by (simp add: pass_ready_def list_all2_refl)
  obtain insts0 s0 where last: "pass_ready insts s1 insts0 s0"
    "text_pass files insts0 (text_reset s0) = ((Done, st), insts1)"
    by (rule text_passes_last [OF passes still ready])
  have ready1: "pass_ready insts s1 insts1 (tx_ctx st)" by (rule pass_ready_step [OF last])
  then have ok2: "table_ok (tx_ctx st)" and fit1: "\<forall>inst \<in> set insts1. labels_fit inst"
    and rw: "list_all2 rewritten insts insts1"
    and dom: "dom (table_view s1) \<subseteq> dom (table_view (tx_ctx st))"
    by (simp_all add: pass_ready_def)
  have bound2: "table_view (tx_ctx st) ?l \<noteq> None" using bound1 dom by blast
  have lab1: "text_label ?l 0 insts1" using lab(4) by (simp add: text_label_rewritten [OF rw])
  from run first passes have fin: "run_seq [apply_symbol_attributes (tx_weak st) True False,
      apply_symbol_attributes (tx_hidden st) False True, data_pass files insts1, resolve_fixups] (tx_ctx st) = (Done, t)"
    by (simp add: assemble_parsed_def)
  obtain u where u: "table_ok u" "text_kept (tx_ctx st) u" "table_view u ?l = table_view (tx_ctx st) ?l"
    "resolve_fixups u = (Done, t)"
    by (rule finish_passes [OF fin ok2 fit1 bound2 lab1])
  note br = converged_branch [OF last still jump lab(1-3) bound1 u]
  show "branch_text (text_section t) (base_address s) (inst_offset (base_address s) (insts1 ! j)) m
      (inst_address (insts1 ! i))"
    using br(1) by (simp add: cfg(2))
  have "table_ok t" using table_ok_assemble [OF ok fit, of files] run by simp
  moreover have "table_view t = table_view u"
  proof -
    have "symbol_hash_table t = symbol_hash_table u"
      using resolve_fixups_hash [of u] u(4) by simp
    then show ?thesis by (rule table_view_hash_only)
  qed
  ultimately show "find_symbol_address ?l t = Some (inst_address (insts1 ! i))"
    using br(2) by (simp add: find_symbol_address_view)
qed

end
