(* ===== verification/Assembly_Properties.thy ===== *)
theory Assembly_Properties
  imports Assembled_Program Sample_States
begin

text \<open>
  The properties of a whole assembly: labels, branches and the symbol table from the parsed
  program to the resolved text, with a one line program (a labelled jump to itself) and a few
  contexts on which they are applied.
\<close>

section \<open>A program that jumps to itself\<close>

definition spin :: parsed_instruction where
  "spin = (instruction (Single_family INST_JMP) [label_operand ''a''])\<lparr>inst_label := ''a'', inst_has_label := True\<rparr>"

definition no_files :: file_reader where
  "no_files _ = Not_Opened"

lemma spin_fields [simp]:
  "inst_type spin = Single_family INST_JMP" "inst_operands spin = [label_operand ''a'']"
  "inst_label spin = ''a''" "inst_has_label spin" "inst_line_number spin = 1"
  "inst_label_column spin = 0" "inst_original_line spin = []"
  by (simp_all add: spin_def instruction_def)

lemma label_operand_fields [simp]: "op_type (label_operand l) = OPERAND_LABEL" "op_label (label_operand l) = l"
  by (simp_all add: label_operand_def no_operand_def)

lemma spin_fits: "\<forall>inst \<in> set [spin]. labels_fit inst"
  by (simp add: labels_fit_def name_fits_def)

text \<open>After the passes in front of the text pass.\<close>

definition spin_ctx :: asm_ctx where
  "spin_ctx = asm_init\<lparr>symbols := [\<lparr>sym_name = ''a'', sym_address = 0x400000, sym_decl_line = 1,
       sym_decl_column = 1, sym_is_resolved = True, sym_is_external = False, sym_is_global = False,
       sym_is_weak = False, sym_is_hidden = False, sym_is_function = False, sym_section = 0\<rparr>],
     symbol_hash_table := (symbol_hash_table asm_init)(hash_index ''a'' :=
       [\<lparr>he_name = ''a'', he_address = 0x400000, he_is_resolved = True, he_is_global = False,
         he_is_external = False, he_section = 0\<rparr>]), current_address := 0x400005\<rparr>"

lemma spin_label_pass:
  "label_pass no_files [spin] (asm_init\<lparr>current_address := 0x400000\<rparr>, a) = (Done, spin_ctx, a)"
  by (simp add: spin_ctx_def label_pass_step_def record_label_def add_symbol_def asm_init_def
      symbol_hash_lookup_def symbol_hash_insert_def mark_declared_def copy_bounded_text_def
      advance_counter_def Let_def estimate_instruction_size_def estimate_single_def
      estimate_target_def is_label_def)

lemma relax_stable:
  "\<not> rx_changed (relax_pass insts s) \<Longrightarrow> recompute_text_layout_relaxed insts s = rx_ctx (relax_pass insts s)"
  by (simp add: recompute_text_layout_relaxed_def eval_nat_numeral)

lemma spin_relax: "relax_pass [spin] spin_ctx =
    \<lparr>rx_ctx = spin_ctx, rx_section = 0, rx_address = 0x400002, rx_changed = False\<rparr>"
  by (simp add: relax_pass_def relax_step_def relax_label_def find_symbol_entry_def spin_ctx_def asm_init_def
      Let_def relax_size_def estimate_instruction_size_relaxed_def is_label_def relaxed_branch_def
      find_symbol_address_def symbol_hash_lookup_def)

lemma spin_label_passes: "label_passes no_files [spin] asm_init = (Done, spin_ctx)"
proof -
  have "resolve_equ_symbol_values [spin] c = (Done, c)" for c
    by (simp add: resolve_equ_symbol_values_def resolve_equ_one_def)
  moreover have "estimate_text_size [spin] c = 5" for c
    by (simp add: estimate_text_size_def text_size_step_def is_symdir_def Let_def
        estimate_instruction_size_def estimate_single_def estimate_target_def is_label_def)
  ultimately show ?thesis
    using spin_label_pass spin_relax by (simp add: label_passes_def Let_def relax_stable asm_init_def)
qed

text \<open>After the text pass: two bytes, no fixup, and the label has not moved.\<close>

definition spin_done :: asm_ctx where
  "spin_done = spin_ctx\<lparr>text_section := [0xEB, 0xFE], current_address := 0x400002,
     line_map := [(0x400000, 1)], enable_forward_short_branches := True\<rparr>"

definition spin_out :: text_state where
  "spin_out = \<lparr>tx_ctx = spin_done, tx_changed = False, tx_weak = [], tx_hidden = []\<rparr>"

definition spin_placed :: parsed_instruction where
  "spin_placed = spin\<lparr>inst_address := 0x400000\<rparr>"

lemma spin_step: "text_step no_files spin (text_reset (spin_ctx\<lparr>enable_forward_short_branches := True\<rparr>)) =
    ((Done, spin_out), spin_placed)"
  by (simp add: text_step_def text_reset_def Let_def place_label_def sync_symbol_def symbol_hash_update_def
      symbol_hash_lookup_def update_entry_def rewrite_constant_label_operands_def
      rewrite_constant_operand_def get_symbol_info_def spin_ctx_def asm_init_def text_encode_def
      mark_called_def map_line_def encode_listed_def listing_start_instruction_def
      encode_instruction_def dispatch_def encode_jmp_def encode_jmp_label_def short_branch_rel_def
      emit_byte_def listing_emit_byte_def listing_end_instruction_def label_moves_def
      label_operands_def spin_out_def spin_done_def spin_placed_def)

lemma reset_reset: "text_reset (tx_ctx (text_reset c)) = text_reset c"
  by (simp add: text_reset_def)

lemma spin_pass: "text_pass no_files [spin] (text_reset (spin_ctx\<lparr>enable_forward_short_branches := True\<rparr>)) =
    ((Done, spin_out), [spin_placed])"
  by (simp add: spin_step)

lemma spin_still: "\<not> tx_changed spin_out"
  by (simp add: spin_out_def)

lemma spin_text_passes: "text_passes no_files [spin] spin_ctx = ((Done, spin_out), [spin_placed])"
proof -
  have "text_iterate (Suc 5) no_files [spin] (text_reset (spin_ctx\<lparr>enable_forward_short_branches := True\<rparr>)) =
      ((Done, spin_out), [spin_placed])"
    unfolding text_iterate.simps reset_reset spin_pass using spin_still by simp
  then have "text_mode True no_files [spin] spin_ctx = ((Done, spin_out), [spin_placed])"
    unfolding text_mode_def text_max_iterations_def by simp
  then show ?thesis using spin_still by (simp add: text_passes_def)
qed

lemma spin_assembled: "assemble_parsed no_files [spin] asm_init = (Done, spin_done)"
proof -
  have "run_seq [apply_symbol_attributes (tx_weak spin_out) True False,
      apply_symbol_attributes (tx_hidden spin_out) False True, data_pass no_files [spin_placed],
      resolve_fixups] (tx_ctx spin_out) = (Done, spin_done)"
    by (simp add: spin_out_def data_pass_def data_step_def spin_placed_def resolve_fixups_def)
      (simp add: spin_done_def spin_ctx_def asm_init_def)
  then show ?thesis by (simp add: assemble_parsed_def spin_label_passes spin_text_passes)
qed

lemma spin_here: "encoded_here [spin] 0"
  by (simp add: encoded_here_def section_before_def)

lemma spin_found: "find_symbol_address ''a'' spin_ctx = Some 0x400000"
  by (simp add: find_symbol_address_def symbol_hash_lookup_def spin_ctx_def)

section \<open>Branches and labels\<close>

text \<open>C1 (functional). Assembly from the parsed program to the resolved text: when a text pass moved no
  label, every jmp, call and conditional jump to a label of the text, short or near, reads back in
  the finished text as the branch to the address of the labelled instruction, which is also what
  the symbol table says.\<close>

theorem assembled_branch_reaches_label:
  assumes "assemble_parsed files insts s = (Done, t)"
    and "table_ok s" "text_capacity s \<le> MAX_OUTPUT_SIZE" "\<forall>inst \<in> set insts. labels_fit inst"
    and "label_passes files insts s = (Done, s1)"
    and "text_passes files insts s1 = ((Done, st), insts1)" "\<not> tx_changed st"
    and "encoded_here insts j" "branch_mnemonic (inst_type (insts ! j)) = Some m"
    and "inst_operands (insts ! j) = [op]" "op_type op = OPERAND_LABEL"
    and "encoded_here insts i" "inst_has_label (insts ! i)" "inst_label (insts ! i) = op_label op"
    and "text_label (op_label op) 0 insts" "find_symbol_address (op_label op) s1 \<noteq> None"
  shows "find_symbol_address (op_label op) t = Some (inst_address (insts1 ! i)) \<and>
    (\<exists>bs. decode_one (text_section t) (base_address s) (inst_offset (base_address s) (insts1 ! j)) =
      Decoded \<lparr>dis_bytes = bs, dis_text = m @ '' '' @ hex_text (unat (inst_address (insts1 ! i)))\<rparr>)"
  using assembled_branch [OF assms] by (simp add: branch_text_def)

lemma assembled_branch_reaches_label_witness:
  "\<exists>bs. decode_one [0xEB, 0xFE] 0x400000 0 =
     Decoded \<lparr>dis_bytes = bs, dis_text = ''jmp '' @ hex_text 0x400000\<rparr>"
  using assembled_branch_reaches_label [OF spin_assembled table_ok_init _ spin_fits spin_label_passes
      spin_text_passes spin_still, of 0 "''jmp''" "label_operand ''a''" 0] spin_here spin_found
  by (simp add: branch_mnemonic_def inst_offset_def spin_placed_def spin_done_def spin_ctx_def asm_init_def)

text \<open>C28 (invariant). The address field that a text pass leaves in an instruction is the base plus the number
  of bytes that the instructions before it emitted, and those bytes start the final text.\<close>

theorem text_pass_addresses:
  assumes "text_pass files insts (text_reset s) = ((Done, st), insts1)"
    and "text_capacity s \<le> MAX_OUTPUT_SIZE" "encoded_here insts i"
  shows "\<exists>st1 xs more. text_pass files (take i insts) (text_reset s) = ((Done, st1), xs) \<and>
    inst_address (insts1 ! i) = base_address s + of_nat (length (text_section (tx_ctx st1))) \<and>
    text_section (tx_ctx st) = text_section (tx_ctx st1) @ more"
proof -
  obtain st1 st2 where p: "text_pass files (take i insts) (text_reset s) = ((Done, st1), take i insts1)"
    "text_step files (insts ! i) st1 = ((Done, st2), insts1 ! i)"
    "text_pass files (drop (Suc i) insts) st2 = ((Done, st), drop (Suc i) insts1)"
    using text_pass_point [OF assms(1)] assms(3) by (auto simp: encoded_here_def)
  note e1 = text_pass_extends [OF p(1) reset_wf [OF assms(2)]]
  note e2 = text_step_extends [OF p(2) text_extends_wf [OF e1(1)]]
  note e3 = text_extends_trans [OF e2 text_pass_extends(1) [OF p(3) text_extends_wf [OF e2]]]
  have "inst_address (insts1 ! i) = current_address (tx_ctx st1)"
    using p(2)
    by (cases rule: text_step_cases)
      (use assms(3) e1(2) same_text_place_label [of "tx_ctx st1" "insts ! i"] in
        \<open>auto simp: encoded_here_def section_before_def rewrite_constant_label_operands_def same_text_def\<close>)
  moreover have "current_address (tx_ctx st1) = base_address s + of_nat (length (text_section (tx_ctx st1)))"
    using e1(1) by (simp add: text_extends_def text_wf_def anchored_def)
  moreover obtain more where "text_section (tx_ctx st) = text_section (tx_ctx st1) @ more"
    using e3 by (auto simp: text_extends_def)
  ultimately show ?thesis using p(1) by auto
qed

lemma text_pass_addresses_witness: "inst_address spin_placed = 0x400000"
  using text_pass_addresses [OF spin_pass _ spin_here]
  by (auto simp: spin_ctx_def asm_init_def text_reset_def)

section \<open>The symbol table\<close>

text \<open>C2 (refinement). The hash table implements the symbol array through a whole assembly: in the final
  state, whether the assembly succeeds or fails, the address, section and external flag found by
  hashing a name are those of the array entry of that name.\<close>

theorem hash_table_refines_array:
  assumes "table_ok s" "\<forall>inst \<in> set insts. labels_fit inst"
    and "assemble_parsed files insts s = (r, t)"
  shows "map_option (\<lambda>e. (he_address e, he_section e, he_is_external e)) (symbol_hash_lookup n t) =
      map_option (\<lambda>y. (sym_address y, sym_section y, sym_is_external y)) (find_symbol_entry n t) \<and>
    find_symbol_address n t = map_option sym_address (find_symbol_entry n t)"
proof -
  have ok: "table_ok t" using table_ok_assemble [OF assms(1,2), of files] assms(3) by simp
  have "table_view t n = map_option (\<lambda>y. (sym_address y, sym_section y, sym_is_external y)) (find_symbol_entry n t)"
    using find_symbol_entry_Some [of n t] find_symbol_entry_None [of n t] table_array [OF ok]
    by (cases "find_symbol_entry n t") auto
  with find_symbol_address_array [OF ok, of n] show ?thesis by (simp add: table_view_def)
qed

lemma hash_table_refines_array_witness:
  "find_symbol_address ''a'' spin_done = map_option sym_address (find_symbol_entry ''a'' spin_done)"
  using hash_table_refines_array [OF table_ok_init spin_fits spin_assembled] by blast

text \<open>C30 (error). A second definition of a name is no error of the label pass: the first binding stays, no
  other name changes, and the pass goes on with the instruction's size.\<close>

theorem redefinition_is_ignored:
  assumes "inst_has_label inst" "inst_type inst \<noteq> Directive_family INST_SECTION"
    and "find_symbol_address (inst_label inst) s = Some a"
  shows "find_symbol_address n (record_label inst d s) = find_symbol_address n s \<and>
    (\<exists>s'. symbol_hash_table s' = symbol_hash_table s \<and> label_pass_step files inst (s, d) =
      (if current_section s = 0
       then (case advance_counter files inst 0 (current_address s) of
               None \<Rightarrow> (Fail Directive_Error, s', d) | Some c \<Rightarrow> (Done, s'\<lparr>current_address := c\<rparr>, d))
       else (case advance_counter files inst (current_section s) d of
               None \<Rightarrow> (Fail Directive_Error, s', d) | Some c \<Rightarrow> (Done, s', c))))"
proof -
  obtain e where e: "symbol_hash_lookup (inst_label inst) s = Some e" "he_is_resolved e"
    using assms(3) by (auto simp: find_symbol_address_def split: option.splits if_splits)
  then have add: "snd (add_symbol (inst_label inst) b g x sec s) = s" for b g x sec
    by (simp add: add_symbol_def)
  have tab: "symbol_hash_table (record_label inst d s) = symbol_hash_table s"
    using assms(1) by (simp add: record_label_def Let_def add)
  moreover have "current_section (record_label inst d s) = current_section s"
    "current_address (record_label inst d s) = current_address s"
    using assms(1) by (simp_all add: record_label_def Let_def add)
  ultimately show ?thesis
    using assms(2)
    by (auto simp: label_pass_step_def Let_def find_symbol_address_def symbol_hash_lookup_def
        intro!: exI [of _ "record_label inst d s"])
qed

lemma redefinition_is_ignored_witness:
  "find_symbol_address ''a'' (record_label spin 0 spin_ctx) = Some 0x400000"
  using redefinition_is_ignored [where inst = spin and s = spin_ctx and a = "0x400000" and d = 0 and n = "''a''"]
  by (simp add: spin_found)

text \<open>What a name means to the operands of an instruction, from its row in the table.\<close>

lemma constant_operand:
  assumes "table_ok s" "table_view s (op_label op) = Some (a, -1, x)" "op_type op = OPERAND_LABEL"
  shows "rewrite_constant_operand s op = op\<lparr>op_type := OPERAND_IMM, op_immediate := a\<rparr>"
  using assms table_resolved [OF assms(1), of "op_label op"]
  by (auto simp: rewrite_constant_operand_def get_symbol_info_def table_view_def)

lemma place_other_label:
  assumes "table_ok s" "inst_has_label inst \<longrightarrow> inst_label inst \<noteq> l"
  shows "table_view (place_label inst s) l = table_view s l"
proof (cases "inst_has_label inst")
  case True
  with place_label_move [OF assms(1) True] assms show ?thesis by (auto simp: move_name_def split: option.split)
qed (simp add: place_label_def)

lemma step_other_label:
  assumes step: "text_step files inst st = ((r, st'), inst')" and "labels_fit inst" "table_ok (tx_ctx st)"
    and "inst_has_label inst \<longrightarrow> inst_label inst \<noteq> l" "table_view (tx_ctx st) l = Some w"
  shows "table_view (tx_ctx st') l = Some w"
  using step
proof (cases rule: text_step_cases)
  case change
  with names_kept_section [of "tx_ctx st" inst] assms(3,5) show ?thesis
    by (auto simp: names_kept_def dest: map_le_SomeD)
next
  case skip
  with assms(5) show ?thesis by simp
next
  case encode
  have "labels_fit inst'" using assms(2) by (simp add: encode(3) labels_fit_rewrite)
  then have "names_kept (place_label inst (tx_ctx st)) (tx_ctx st')"
    using names_kept_text_encode [of inst' "place_label inst (tx_ctx st)" files] encode(4) by simp
  then show ?thesis
    using table_ok_place_label [OF assms(3), of inst] place_other_label [OF assms(3,4)] assms(5)
    by (auto simp: names_kept_def dest: map_le_SomeD)
qed

lemma pass_other_label:
  assumes "text_pass files insts st = ((Done, st'), insts')" "\<forall>inst \<in> set insts. labels_fit inst"
    and "table_ok (tx_ctx st)" "\<forall>inst \<in> set insts. inst_has_label inst \<longrightarrow> inst_label inst \<noteq> l"
    and "table_view (tx_ctx st) l = Some w"
  shows "table_view (tx_ctx st') l = Some w"
  using assms
proof (induction insts arbitrary: st insts')
  case (Cons inst insts)
  obtain q st1 inst1 where step: "text_step files inst st = ((q, st1), inst1)" by (metis prod.collapse)
  with Cons.prems(1) obtain insts1 where rest: "text_pass files insts st1 = ((Done, st'), insts1)"
    by (auto split: status.splits prod.splits)
  have "table_ok (tx_ctx st1)" using text_step_table(1) [OF step] Cons.prems(2,3) by simp
  moreover have "table_view (tx_ctx st1) l = Some w" using step_other_label [OF step] Cons.prems by simp
  ultimately show ?case using Cons.IH [OF rest] Cons.prems by simp
qed simp

text \<open>C31 (functional). Known defect: a constant that equ defines in the text does not keep its value in the text pass. Its
  line carries the name as a label, so the step of that line gives the name the address of the line;
  an instruction of the text that is encoded behind it, with no line of that name between or its own, has its operands that
  name the constant replaced by this address. (Operands in front of the line keep the value that
  the first text pass put in.)\<close>

theorem equ_in_text_loses_its_value:
  assumes "text_step files equ st = ((r, st1), equ')" "inst_type equ = Directive_family INST_EQU"
    and "inst_has_label equ" "inst_label equ = l" "table_ok (tx_ctx st)" "current_section (tx_ctx st) \<noteq> 1"
    and "get_symbol_info l (tx_ctx st) = Some e" "he_section e = -1"
    and "text_pass files between st1 = ((Done, st2), between')"
    and "text_step files user st2 = ((r', st3), user')"
    and "\<forall>inst \<in> set (equ # between @ [user]). labels_fit inst"
    and "\<forall>inst \<in> set (between @ [user]). inst_has_label inst \<longrightarrow> inst_label inst \<noteq> l"
    and "current_section (tx_ctx st2) \<noteq> 1"
    and "inst_type user \<notin> {Directive_family INST_SECTION, Symdir_family INST_WEAK, Symdir_family INST_HIDDEN}"
    and "m < length (inst_operands user)" "op_type (inst_operands user ! m) = OPERAND_LABEL"
    and "op_label (inst_operands user ! m) = l"
  shows "find_symbol_address l (tx_ctx st2) = Some (current_address (tx_ctx st)) \<and>
    inst_operands user' ! m =
      (inst_operands user ! m)\<lparr>op_type := OPERAND_IMM, op_immediate := current_address (tx_ctx st)\<rparr>"
proof -
  let ?s1 = "place_label equ (tx_ctx st)" and ?a = "current_address (tx_ctx st)"
  have fit: "labels_fit equ" "labels_fit user" "\<forall>inst \<in> set between. labels_fit inst" using assms(11) by simp_all
  have enc: "text_encode files equ' ?s1 = (r, tx_ctx st1)"
    using assms(1) by (cases rule: text_step_cases) (use assms(2,6) in auto)
  have ok1: "table_ok ?s1" by (rule table_ok_place_label [OF assms(5)])
  have ok_st1: "table_ok (tx_ctx st1)" and fit': "labels_fit equ'"
    using text_step_table [OF assms(1) fit(1) assms(5)] by simp_all
  obtain x where "table_view (tx_ctx st) l = Some (he_address e, -1, x)"
    using assms(7,8) by (simp add: table_view_def get_symbol_info_def)
  then have "table_view ?s1 l = Some (?a, -1, x)"
    using place_label_move [OF assms(5,3)] assms(4,5) by (simp add: move_name_def)
  moreover have "table_view ?s1 \<subseteq>\<^sub>m table_view (tx_ctx st1)"
    using names_kept_text_encode [OF fit', of ?s1 files] enc ok1 by (simp add: names_kept_def)
  ultimately have "table_view (tx_ctx st1) l = Some (?a, -1, x)" by (blast intro: map_le_SomeD)
  then have here: "table_view (tx_ctx st2) l = Some (?a, -1, x)"
    using pass_other_label [OF assms(9) fit(3) ok_st1] assms(12) by simp
  have ok2: "table_ok (tx_ctx st2)" using text_pass_table [OF assms(9) fit(3) ok_st1] by simp
  have "user' = rewrite_constant_label_operands (place_label user (tx_ctx st2))
      (user\<lparr>inst_address := current_address (place_label user (tx_ctx st2))\<rparr>)"
    using assms(10) by (cases rule: text_step_cases) (use assms(13,14) in auto)
  then have "inst_operands user' ! m = rewrite_constant_operand (place_label user (tx_ctx st2)) (inst_operands user ! m)"
    using assms(15) by (simp add: rewrite_constant_label_operands_def)
  moreover have "table_view (place_label user (tx_ctx st2)) l = Some (?a, -1, x)"
    using place_other_label [OF ok2, of user l] assms(12) here by simp
  ultimately show ?thesis
    using find_symbol_address_view [OF ok2, of l] here assms(16,17)
      constant_operand [OF table_ok_place_label [OF ok2]] by simp
qed

text \<open>\<open>a equ 5\<close> in the text, with the symbol as the equ resolution leaves it.\<close>

definition five :: parsed_instruction where
  "five = (instruction (Directive_family INST_EQU) [imm_operand 5])\<lparr>inst_label := ''a'', inst_has_label := True\<rparr>"

definition five_ctx :: asm_ctx where
  "five_ctx = snd (resolve_equ_symbol_values [five] asm_init)"

definition use_five :: parsed_instruction where
  "use_five = instruction (Mov_family INST_MOV) [reg_operand 0 REG_SIZE_64, label_operand ''a'']"

lemma five_value: "\<exists>e. get_symbol_info ''a'' five_ctx = Some e \<and> he_section e = -1"
  by (simp add: five_ctx_def resolve_equ_symbol_values_def resolve_equ_one_def five_def instruction_def
      imm_operand_def no_operand_def upsert_constant_symbol_def add_symbol_def asm_init_def
      symbol_hash_insert_def symbol_hash_lookup_def get_symbol_info_def copy_bounded_text_def Let_def)

lemma five_section:
  "current_section (snd (text_encode no_files
     (rewrite_constant_label_operands s (five\<lparr>inst_address := a\<rparr>)) t)) = current_section t"
  by (simp add: text_encode_def encode_listed_def encode_instruction_def dispatch_def mark_called_def
      rewrite_constant_label_operands_def rewrite_constant_operand_def five_def instruction_def
      imm_operand_def no_operand_def Let_def)

lemma text_reset_section: "current_section (tx_ctx (text_reset s)) = 0"
  by (simp add: text_reset_def)

text \<open>\<open>mov rax, a\<close> behind \<open>a equ 5\<close> is encoded with the base address.\<close>

lemma equ_in_text_loses_its_value_witness:
  "op_immediate (inst_operands (snd (text_step no_files use_five
      (snd (fst (text_step no_files five (text_reset five_ctx)))))) ! 1) = base_address five_ctx"
proof -
  have fit: "labels_fit five" "labels_fit use_five"
    by (simp_all add: labels_fit_def name_fits_def five_def use_five_def instruction_def imm_operand_def
      no_operand_def reg_operand_def label_operand_def)
  have "table_ok five_ctx"
    unfolding five_ctx_def by (rule table_ok_resolve_equ [OF table_ok_init]) (simp add: fit)
  then have ok: "table_ok (tx_ctx (text_reset five_ctx))" by (simp add: table_ok_text_reset)
  obtain e where e: "get_symbol_info ''a'' (tx_ctx (text_reset five_ctx)) = Some e" "he_section e = -1"
    using five_value by (auto simp: get_symbol_info_def symbol_hash_lookup_def text_reset_def)
  obtain r st1 five' where one: "text_step no_files five (text_reset five_ctx) = ((r, st1), five')"
    by (metis prod.collapse)
  obtain r' st3 user' where two: "text_step no_files use_five st1 = ((r', st3), user')"
    by (metis prod.collapse)
  have lab: "inst_label five = ''a''" "inst_has_label five" "inst_type five = Directive_family INST_EQU"
    by (simp_all add: five_def instruction_def)
  have "current_section (tx_ctx st1) = 0"
    using one
  proof (cases rule: text_step_cases)
    case encode
    then show ?thesis
      using five_section [of "place_label five (tx_ctx (text_reset five_ctx))"]
      by (metis section_place_label snd_conv text_reset_section)
  qed (use lab in \<open>simp_all add: text_reset_def\<close>)
  then have "op_immediate (inst_operands user' ! 1) = current_address (tx_ctx (text_reset five_ctx))"
    using equ_in_text_loses_its_value [OF one lab(3,2,1) ok _ e, of "[]" st1 "[]" use_five r' st3 user' 1] two fit
    by (simp add: use_five_def instruction_def reg_operand_def label_operand_def text_reset_section)
  moreover have "current_address (tx_ctx (text_reset five_ctx)) = base_address five_ctx" by (simp add: text_reset_def)
  ultimately show ?thesis by (simp only: one two fst_conv snd_conv)
qed

end
