(* ===== verification/Characters.thy ===== *)
theory Characters
  imports Asm_Prelude
begin

text \<open>
  The character classes of the C locale that the parser of src/x86_64_parser.c uses, and its
  UTF-8 check (\<open>utf8_expected_len\<close>, \<open>utf8_has_valid_continuations\<close>, \<open>validate_utf8\<close>). A C
  string is the list of the characters before its terminating NUL; the bytes of a string are
  the codes of its characters. The encoding of code points at the end is the specification
  the check is compared with.
\<close>

section \<open>Character classes\<close>

definition code :: "char \<Rightarrow> nat" where
  "code c = of_char c"

definition c_isdigit :: "char \<Rightarrow> bool" where
  "c_isdigit c \<longleftrightarrow> 48 \<le> code c \<and> code c \<le> 57"

definition c_isalpha :: "char \<Rightarrow> bool" where
  "c_isalpha c \<longleftrightarrow> (65 \<le> code c \<and> code c \<le> 90) \<or> (97 \<le> code c \<and> code c \<le> 122)"

definition c_isalnum :: "char \<Rightarrow> bool" where
  "c_isalnum c \<longleftrightarrow> c_isalpha c \<or> c_isdigit c"

definition c_isxdigit :: "char \<Rightarrow> bool" where
  "c_isxdigit c \<longleftrightarrow>
     c_isdigit c \<or> (65 \<le> code c \<and> code c \<le> 70) \<or> (97 \<le> code c \<and> code c \<le> 102)"

definition c_isspace :: "char \<Rightarrow> bool" where
  "c_isspace c \<longleftrightarrow> code c = 32 \<or> (9 \<le> code c \<and> code c \<le> 13)"

definition NUL_CHAR :: char where
  "NUL_CHAR = CHR 0x00"

text \<open>The C string in a buffer: what precedes the first NUL.\<close>

definition c_str :: "string \<Rightarrow> string" where
  "c_str s = takeWhile (\<lambda>c. c \<noteq> NUL_CHAR) s"

lemma c_str_id: "NUL_CHAR \<notin> set s \<Longrightarrow> c_str s = s"
  unfolding c_str_def by (induction s) auto

lemma c_str_no_nul [simp]: "NUL_CHAR \<notin> set (c_str s)"
  unfolding c_str_def by (auto dest: set_takeWhileD)

section \<open>The UTF-8 check\<close>

definition byte_of_char :: "char \<Rightarrow> u8" where
  "byte_of_char c = word_of_nat (code c)"

definition utf8_expected_len :: "u8 \<Rightarrow> int" where
  "utf8_expected_len lead =
     (if lead < 0x80 then 1
      else if lead AND 0xE0 = 0xC0 then 2
      else if lead AND 0xF0 = 0xE0 then 3
      else if lead AND 0xF8 = 0xF0 then 4
      else -1)"

text \<open>Reading \<open>s[i]\<close> at the end of the string yields the terminating NUL, which is no
  continuation byte.\<close>

definition utf8_has_valid_continuations :: "u8 list \<Rightarrow> nat \<Rightarrow> bool" where
  "utf8_has_valid_continuations s expected_len =
     list_all (\<lambda>i. i < length s \<and> s ! i \<noteq> 0 \<and> s ! i AND 0xC0 = 0x80) [1..<expected_len]"

function utf8_scan :: "u8 list \<Rightarrow> int \<Rightarrow> int" where
  "utf8_scan [] count = count"
| "utf8_scan (b # bs) count =
     (let expected_len = utf8_expected_len b in
      if expected_len < 0 then -1
      else if 1 < expected_len \<and> \<not> utf8_has_valid_continuations (b # bs) (nat expected_len) then -1
      else utf8_scan (drop (nat expected_len - 1) bs) (count + 1))"
  by pat_completeness auto
termination by (relation "measure (length \<circ> fst)") auto

definition validate_utf8 :: "string \<Rightarrow> int" where
  "validate_utf8 str = utf8_scan (map byte_of_char str) 0"

section \<open>Encoded code points\<close>

text \<open>The UTF-8 encoding of one code point (RFC 3629).\<close>

definition utf8_encode :: "nat \<Rightarrow> u8 list" where
  "utf8_encode cp =
     (if cp < 0x80 then [word_of_nat cp]
      else if cp < 0x800 then [word_of_nat (0xC0 + cp div 64), word_of_nat (0x80 + cp mod 64)]
      else if cp < 0x10000 then
        [word_of_nat (0xE0 + cp div 4096), word_of_nat (0x80 + cp div 64 mod 64),
         word_of_nat (0x80 + cp mod 64)]
      else
        [word_of_nat (0xF0 + cp div 262144), word_of_nat (0x80 + cp div 4096 mod 64),
         word_of_nat (0x80 + cp div 64 mod 64), word_of_nat (0x80 + cp mod 64)])"

definition code_point :: "nat \<Rightarrow> bool" where
  "code_point cp \<longleftrightarrow> 0 < cp \<and> cp < 0x110000"

definition char_of_byte :: "u8 \<Rightarrow> char" where
  "char_of_byte b = char_of (unat b)"

lemma byte_of_char_of_byte [simp]: "byte_of_char (char_of_byte b) = b"
proof -
  have "unat b < 256" using unsigned_less [of b] by simp
  then show ?thesis by (simp add: byte_of_char_def char_of_byte_def code_def)
qed

lemma continuation_byte:
  assumes "n < 64"
  shows "(word_of_nat (0x80 + n) :: u8) \<noteq> 0 \<and> (word_of_nat (0x80 + n) :: u8) AND 0xC0 = 0x80"
proof -
  have "list_all (\<lambda>i. (word_of_nat (0x80 + i) :: u8) \<noteq> 0 \<and> (word_of_nat (0x80 + i) :: u8) AND 0xC0 = 0x80) [0..<64]"
    by code_simp
  with assms show ?thesis by (simp add: list_all_iff)
qed

lemma lead_byte:
  "n < 0x80 \<Longrightarrow> utf8_expected_len (word_of_nat n) = 1"
  "n < 32 \<Longrightarrow> utf8_expected_len (word_of_nat (0xC0 + n)) = 2"
  "n < 16 \<Longrightarrow> utf8_expected_len (word_of_nat (0xE0 + n)) = 3"
  "n < 8 \<Longrightarrow> utf8_expected_len (word_of_nat (0xF0 + n)) = 4"
proof -
  have "list_all (\<lambda>i. utf8_expected_len (word_of_nat i) = 1) [0..<128]"
    "list_all (\<lambda>i. utf8_expected_len (word_of_nat (0xC0 + i)) = 2) [0..<32]"
    "list_all (\<lambda>i. utf8_expected_len (word_of_nat (0xE0 + i)) = 3) [0..<16]"
    "list_all (\<lambda>i. utf8_expected_len (word_of_nat (0xF0 + i)) = 4) [0..<8]"
    by code_simp+
  then show "n < 0x80 \<Longrightarrow> utf8_expected_len (word_of_nat n) = 1"
    "n < 32 \<Longrightarrow> utf8_expected_len (word_of_nat (0xC0 + n)) = 2"
    "n < 16 \<Longrightarrow> utf8_expected_len (word_of_nat (0xE0 + n)) = 3"
    "n < 8 \<Longrightarrow> utf8_expected_len (word_of_nat (0xF0 + n)) = 4"
    by (simp_all add: list_all_iff)
qed

lemma utf8_scan_encoded:
  assumes "code_point cp"
  shows "utf8_scan (utf8_encode cp @ bs) count = utf8_scan bs (count + 1)"
proof -
  consider "cp < 0x80" | "0x80 \<le> cp" "cp < 0x800" | "0x800 \<le> cp" "cp < 0x10000"
    | "0x10000 \<le> cp" "cp < 0x110000"
    using assms by (auto simp: code_point_def not_less [symmetric])
  then show ?thesis
  proof cases
    case 1
    then show ?thesis by (simp add: utf8_encode_def lead_byte)
  next
    case 2
    moreover from 2 have "cp div 64 < 32" by auto
    ultimately show ?thesis
      by (simp add: utf8_encode_def lead_byte utf8_has_valid_continuations_def upt_rec continuation_byte
          del: of_nat_add)
  next
    case 3
    moreover from 3 have "cp div 4096 < 16" by auto
    ultimately show ?thesis
      by (simp add: utf8_encode_def lead_byte utf8_has_valid_continuations_def upt_rec continuation_byte
          del: of_nat_add)
  next
    case 4
    moreover from 4 have "cp div 262144 < 8" by auto
    ultimately show ?thesis
      by (simp add: utf8_encode_def lead_byte utf8_has_valid_continuations_def upt_rec continuation_byte
          del: of_nat_add)
  qed
qed

lemma utf8_scan_text:
  "list_all code_point cps \<Longrightarrow>
    utf8_scan (concat (map utf8_encode cps) @ bs) count = utf8_scan bs (count + int (length cps))"
  by (induction cps arbitrary: count) (simp_all add: utf8_scan_encoded add.assoc)

text \<open>The check also lets through what no code point encodes to, such as the overlong form of \<open>/\<close>.\<close>

lemma overlong_accepted: "utf8_scan [0xC0, 0xAF] 0 = 1"
  by code_simp

end
