(* ===== verification/Lexer.thy ===== *)
theory Lexer
  imports Characters Asm_Types
begin

text \<open>
  The tokenizer of src/x86_64_parser.c: \<open>token_t\<close>, \<open>parser_state_t\<close>, \<open>skip_whitespace\<close>,
  \<open>parse_number\<close>, \<open>next_token\<close>, \<open>advance\<close>, \<open>init_tokens\<close> and \<open>expect\<close>. The pointers \<open>pos\<close> and
  \<open>line_start\<close> are the text from there on. Of the context the parser changes the count of
  warnings and the flag of a warning promoted to an error; the profiling counters are left out.
\<close>

section \<open>Tokens and the parser state\<close>

datatype token_type =
  TOK_NONE | TOK_IDENTIFIER | TOK_NUMBER | TOK_STRING | TOK_CHAR | TOK_COLON | TOK_COMMA
  | TOK_LBRACKET | TOK_RBRACKET | TOK_PLUS | TOK_MINUS | TOK_STAR | TOK_DOLLAR | TOK_NEWLINE
  | TOK_EOF

text \<open>\<open>tok_text\<close> is the C string in the token's buffer.\<close>

record token =
  tok_type :: token_type
  tok_text :: string
  tok_value :: u64
  tok_line :: int
  tok_column :: int

record parser_state =
  ps_pos :: string
  ps_line_start :: string
  ps_line :: int
  ps_current :: token
  ps_peek :: token
  ps_warn_all :: bool
  ps_warnings_as_errors :: bool
  ps_warning_count :: int
  ps_fatal_warning :: bool

definition no_token :: token where
  "no_token = \<lparr>tok_type = TOK_NONE, tok_text = [], tok_value = 0, tok_line = 0, tok_column = 0\<rparr>"

definition parser_init :: "bool \<Rightarrow> bool \<Rightarrow> string \<Rightarrow> parser_state" where
  "parser_init warn_all as_errors input =
     \<lparr>ps_pos = input, ps_line_start = input, ps_line = 1, ps_current = no_token,
      ps_peek = no_token, ps_warn_all = warn_all, ps_warnings_as_errors = as_errors,
      ps_warning_count = 0, ps_fatal_warning = False\<rparr>"

definition parser_warn_ctx :: "parser_state \<Rightarrow> parser_state" where
  "parser_warn_ctx p =
     p\<lparr>ps_fatal_warning := ps_fatal_warning p \<or> ps_warnings_as_errors p,
       ps_warning_count := ps_warning_count p + 1\<rparr>"

text \<open>The column of \<open>pos\<close> in its line.\<close>

definition column :: "parser_state \<Rightarrow> int" where
  "column p = int (length (ps_line_start p)) - int (length (ps_pos p)) + 1"

definition LF :: char where
  "LF = CHR 0x0A"

section \<open>Blanks and comments\<close>

fun skip_blanks :: "string \<Rightarrow> string" where
  "skip_blanks [] = []"
| "skip_blanks (c # cs) =
     (if c = CHR '';'' \<or> (c = CHR ''/'' \<and> cs \<noteq> [] \<and> hd cs = CHR ''/'')
      then dropWhile (\<lambda>x. x \<noteq> LF) (c # cs)
      else if c = LF then c # cs
      else if c_isspace c then skip_blanks cs
      else c # cs)"

definition skip_whitespace :: "parser_state \<Rightarrow> parser_state" where
  "skip_whitespace p = p\<lparr>ps_pos := skip_blanks (ps_pos p)\<rparr>"

section \<open>Numbers\<close>

definition digit_value :: "char \<Rightarrow> nat" where
  "digit_value c =
     (if c_isdigit c then code c - 48
      else if c_isxdigit (c_tolower c) \<and> c_isalpha c then code (c_tolower c) - 87
      else 99)"

text \<open>\<open>strtoll\<close> on a text without blanks, sign and radix prefix, as \<open>next_token\<close> collects
  them: the value of the longest run of digits of the base, at most \<open>LLONG_MAX\<close>.\<close>

definition strtoll :: "nat \<Rightarrow> string \<Rightarrow> nat" where
  "strtoll base s =
     min (2 ^ 63 - 1)
       (foldl (\<lambda>v c. base * v + digit_value c) 0 (takeWhile (\<lambda>c. digit_value c < base) s))"

definition has_prefix :: "string \<Rightarrow> string \<Rightarrow> bool" where
  "has_prefix letters s \<longleftrightarrow>
     (case s of c # d # _ \<Rightarrow> c = CHR ''0'' \<and> d \<in> set letters | _ \<Rightarrow> False)"

definition parse_number :: "string \<Rightarrow> u64" where
  "parse_number str =
     (if has_prefix ''xX'' str then word_of_nat (strtoll 16 (drop 2 str))
      else if has_prefix ''bB'' str then word_of_nat (strtoll 2 (drop 2 str))
      else word_of_nat (strtoll 10 str))"

text \<open>The text a number token takes and what is left.\<close>

definition number_lexeme :: "string \<Rightarrow> string \<times> string" where
  "number_lexeme s =
     (let n = (if has_prefix ''xXbB'' s then 2 else 0)
      in (take n s @ takeWhile c_isxdigit (drop n s), dropWhile c_isxdigit (drop n s)))"

section \<open>Quoted text\<close>

definition escape_char :: "char \<Rightarrow> char" where
  "escape_char c =
     (if c = CHR ''n'' then CHR 0x0A else if c = CHR ''t'' then CHR 0x09
      else if c = CHR ''r'' then CHR 0x0D else if c = CHR ''0'' then NUL_CHAR else c)"

definition DQUOTE :: char where
  "DQUOTE = CHR 0x22"

definition SQUOTE :: char where
  "SQUOTE = CHR 0x27"

definition BACKSLASH :: char where
  "BACKSLASH = CHR 0x5C"

text \<open>The character of a literal after its opening quote, and the rest before a closing one.\<close>

definition char_body :: "string \<Rightarrow> char \<times> string" where
  "char_body s =
     (case s of
        [] \<Rightarrow> (NUL_CHAR, [])
      | c # cs \<Rightarrow>
          (if c = BACKSLASH \<and> cs \<noteq> [] then (escape_char (hd cs), tl cs)
           else if c \<noteq> SQUOTE then (c, cs)
           else (NUL_CHAR, s)))"

definition skip_char :: "char \<Rightarrow> string \<Rightarrow> string" where
  "skip_char q s = (if s \<noteq> [] \<and> hd s = q then tl s else s)"

text \<open>The loop over a string literal with room for \<open>n\<close> more characters.\<close>

fun string_body :: "nat \<Rightarrow> string \<Rightarrow> string \<times> string" where
  "string_body n [] = ([], [])"
| "string_body 0 s = ([], s)"
| "string_body (Suc n) (c # cs) =
     (if c = DQUOTE then ([], c # cs)
      else if c = BACKSLASH \<and> cs \<noteq> [] then
        (let (b, r) = string_body n (tl cs) in (escape_char (hd cs) # b, r))
      else (let (b, r) = string_body n cs in (c # b, r)))"

section \<open>Identifiers\<close>

definition ident_start :: "char \<Rightarrow> bool" where
  "ident_start c \<longleftrightarrow> c_isalpha c \<or> c = CHR ''_'' \<or> c = CHR ''.'' \<or> c = CHR ''@''"

definition ident_char :: "char \<Rightarrow> bool" where
  "ident_char c \<longleftrightarrow> c_isalnum c \<or> c = CHR ''_'' \<or> c = CHR ''.'' \<or> c = CHR ''@''"

fun ident_body :: "nat \<Rightarrow> string \<Rightarrow> string \<times> string" where
  "ident_body n [] = ([], [])"
| "ident_body 0 s = ([], s)"
| "ident_body (Suc n) (c # cs) =
     (if ident_char c then (let (b, r) = ident_body n cs in (c # b, r)) else ([], c # cs))"

section \<open>The next token\<close>

definition single_token :: "char \<Rightarrow> token_type option" where
  "single_token c =
     map_of [(CHR '':'', TOK_COLON), (CHR '','', TOK_COMMA), (CHR ''['', TOK_LBRACKET),
       (CHR '']'', TOK_RBRACKET), (CHR ''+'', TOK_PLUS), (CHR ''-'', TOK_MINUS),
       (CHR ''*'', TOK_STAR), (CHR ''$'', TOK_DOLLAR)] c"

text \<open>The branches of \<open>next_token\<close> that build a token from the text at \<open>pos\<close> (not at its end):
  type, text, value, and what is left.\<close>

definition scan_token :: "string \<Rightarrow> token_type \<times> string \<times> u64 \<times> string" where
  "scan_token s =
     (let c = hd s; cs = tl s in
      if c = LF then (TOK_NEWLINE, [], 0, cs)
      else case single_token c of Some ty \<Rightarrow> (ty, [], 0, cs) | None \<Rightarrow>
        if c = SQUOTE then
          (let (ch, r) = char_body cs
           in (TOK_CHAR, c_str [ch], word_of_nat (code ch), skip_char SQUOTE r))
        else if c = DQUOTE then
          (let (b, r) = string_body (MAX_LINE_LENGTH - 1) cs
           in (TOK_STRING, c_str b, 0, skip_char DQUOTE r))
        else if c_isdigit c then
          (let (n, r) = number_lexeme s; t = take (MAX_LINE_LENGTH - 1) n
           in (TOK_NUMBER, t, parse_number t, r))
        else if ident_start c then
          (let (b, r) = ident_body (MAX_LINE_LENGTH - 1) s in (TOK_IDENTIFIER, b, 0, r))
        else (TOK_NONE, [], 0, cs))"

definition next_token :: "parser_state \<Rightarrow> token \<times> parser_state" where
  "next_token p0 =
     (let p = skip_whitespace p0;
          tok = \<lparr>tok_type = TOK_NONE, tok_text = [], tok_value = 0, tok_line = ps_line p,
                 tok_column = column p\<rparr>
      in if ps_pos p = [] then (tok\<lparr>tok_type := TOK_EOF\<rparr>, p)
         else let (ty, s, v, r) = scan_token (ps_pos p);
                  tok' = tok\<lparr>tok_type := ty, tok_text := s, tok_value := v\<rparr>;
                  p' = p\<lparr>ps_pos := r\<rparr>
              in if ty = TOK_NEWLINE
                 then (tok', p'\<lparr>ps_line := ps_line p + 1, ps_line_start := r\<rparr>)
                 else if ty = TOK_STRING \<and> validate_utf8 s < 0 \<and> ps_warn_all p
                 then (tok', parser_warn_ctx p')
                 else (tok', p'))"

text \<open>The stream: the current token and one token of lookahead.\<close>

definition advance :: "parser_state \<Rightarrow> parser_state" where
  "advance p0 =
     (let p = p0\<lparr>ps_current := ps_peek p0\<rparr> in
      if tok_type (ps_peek p) = TOK_EOF then p
      else let (tok, p') = next_token p in p'\<lparr>ps_peek := tok\<rparr>)"

definition init_tokens :: "parser_state \<Rightarrow> parser_state" where
  "init_tokens p = (let (tok, p') = next_token p in advance (p'\<lparr>ps_peek := tok\<rparr>))"

abbreviation cur_type :: "parser_state \<Rightarrow> token_type" where
  "cur_type p \<equiv> tok_type (ps_current p)"

abbreviation peek_type :: "parser_state \<Rightarrow> token_type" where
  "peek_type p \<equiv> tok_type (ps_peek p)"

abbreviation cur_text :: "parser_state \<Rightarrow> string" where
  "cur_text p \<equiv> tok_text (ps_current p)"

abbreviation cur_value :: "parser_state \<Rightarrow> u64" where
  "cur_value p \<equiv> tok_value (ps_current p)"

definition expect :: "parser_state \<Rightarrow> token_type \<Rightarrow> bool \<times> parser_state" where
  "expect p ty = (if cur_type p = ty then (True, advance p) else (False, p))"

section \<open>Progress\<close>

text \<open>Every sub-scanner leaves a suffix of its input.\<close>

lemma skip_blanks_length: "length (skip_blanks s) \<le> length s"
  by (induction s) (auto simp: length_dropWhile_le intro: le_SucI)

lemma string_body_length: "length (snd (string_body n s)) \<le> length s"
  by (induction n s rule: string_body.induct) (auto split: prod.splits simp: le_SucI)

lemma ident_body_length: "length (snd (ident_body n s)) \<le> length s"
  by (induction n s rule: ident_body.induct) (auto split: prod.splits)

lemma skip_char_length: "length (skip_char q s) \<le> length s"
  by (simp add: skip_char_def)

lemma char_body_length: "length (snd (char_body s)) \<le> length s"
  by (auto simp: char_body_def split: list.splits)

lemma isdigit_isxdigit: "c_isdigit c \<Longrightarrow> c_isxdigit c"
  by (simp add: c_isxdigit_def)

lemma number_lexeme_length:
  "s \<noteq> [] \<Longrightarrow> c_isdigit (hd s) \<Longrightarrow> length (snd (number_lexeme s)) < length s"
  by (cases s)
    (auto simp: number_lexeme_def Let_def has_prefix_def isdigit_isxdigit length_dropWhile_le
      less_Suc_eq_le intro: le_trans [OF length_dropWhile_le])

lemma scan_token_length:
  assumes "s \<noteq> []" "scan_token s = (ty, t, v, r)"
  shows "length r < length s"
proof -
  obtain c cs where s: "s = c # cs" using assms(1) by (cases s) auto
  have ident: "length (snd (ident_body (MAX_LINE_LENGTH - 1) s)) < length s" if "ident_start c"
  proof -
    have "ident_char c" using that by (auto simp: ident_start_def ident_char_def c_isalnum_def)
    with ident_body_length [of "MAX_LINE_LENGTH - 2" cs] show ?thesis
      by (auto simp: s numeral_eq_Suc split: prod.splits)
  qed
  show ?thesis
    using assms(2) ident number_lexeme_length [OF assms(1)] string_body_length [of "MAX_LINE_LENGTH - 1" cs]
      char_body_length [of cs] skip_char_length [of SQUOTE "snd (char_body cs)"]
      skip_char_length [of DQUOTE "snd (string_body (MAX_LINE_LENGTH - 1) cs)"]
    by (auto simp: scan_token_def s Let_def split: if_splits option.splits prod.splits)
qed

lemma scan_token_not_eof: "scan_token s = (ty, t, v, r) \<Longrightarrow> ty \<noteq> TOK_EOF"
  by (auto simp: scan_token_def Let_def single_token_def split: if_splits option.splits prod.splits)

lemma next_token_progress:
  assumes "next_token p = (tok, p')" "tok_type tok \<noteq> TOK_EOF"
  shows "length (ps_pos p') < length (ps_pos p)"
  using assms skip_blanks_length [of "ps_pos p"] scan_token_length [of "skip_blanks (ps_pos p)"]
  by (fastforce simp: next_token_def skip_whitespace_def parser_warn_ctx_def Let_def
      split: if_splits prod.splits)

lemma next_token_eof:
  assumes "next_token p = (tok, p')" "tok_type tok = TOK_EOF"
  shows "ps_pos p' = []"
  using assms scan_token_not_eof
  by (fastforce simp: next_token_def skip_whitespace_def parser_warn_ctx_def Let_def
      split: if_splits prod.splits)

lemma next_token_window:
  "next_token p = (tok, p') \<Longrightarrow> ps_current p' = ps_current p"
  by (auto simp: next_token_def skip_whitespace_def parser_warn_ctx_def Let_def
      split: if_splits prod.splits)

text \<open>The tokens ahead: none at the end, the last one before it, and otherwise at most one per
  character that is left.\<close>

definition tokens_left :: "parser_state \<Rightarrow> nat" where
  "tokens_left p =
     (if cur_type p = TOK_EOF then 0
      else if peek_type p = TOK_EOF then 1
      else 2 + length (ps_pos p))"

lemma tokens_left_0: "tokens_left p = 0 \<longleftrightarrow> cur_type p = TOK_EOF"
  by (simp add: tokens_left_def)

lemma advance_progress:
  assumes "cur_type p \<noteq> TOK_EOF"
  shows "tokens_left (advance p) < tokens_left p"
proof (cases "peek_type p = TOK_EOF")
  case True
  with assms show ?thesis by (simp add: advance_def tokens_left_def Let_def)
next
  case False
  obtain tok p' where n: "next_token (p\<lparr>ps_current := ps_peek p\<rparr>) = (tok, p')" by fastforce
  from n False have "cur_type (advance p) = peek_type p" "peek_type (advance p) = tok_type tok"
    "ps_pos (advance p) = ps_pos p'"
    by (simp_all add: advance_def Let_def next_token_window)
  with next_token_progress [OF n] False assms show ?thesis
    by (auto simp: tokens_left_def)
qed

lemma advance_at_eof [simp]: "cur_type p = TOK_EOF \<Longrightarrow> peek_type p = TOK_EOF \<Longrightarrow> cur_type (advance p) = TOK_EOF"
  by (simp add: advance_def Let_def)

lemma advance_le: "tokens_left (advance p) \<le> tokens_left p \<or> cur_type p = TOK_EOF"
  using advance_progress [of p] by (cases "cur_type p = TOK_EOF") auto

end
