(* ===== verification/Operand_Parser.thy ===== *)
theory Operand_Parser
  imports Lexer Encoding_Core
begin

text \<open>
  The operand parser of src/x86_64_parser.c: \<open>parse_memory_operand\<close>, \<open>parse_operand\<close>,
  \<open>is_valid_scale_factor\<close> and \<open>parse_segment_override_name\<close>. One iteration of the component
  loop of a memory operand is \<open>mem_component\<close>; the loop ends because every iteration takes a
  token. An operation answers a diagnostic (\<open>Inl\<close>) or its result and the new state.
\<close>

section \<open>Results\<close>

datatype parse_error =
  Syntax_Diagnostic | Constraint_Diagnostic | Unknown_Instruction "string option"

type_synonym 'a presult = "parse_error + 'a \<times> parser_state"

section \<open>Memory operands\<close>

definition is_valid_scale_factor :: "u64 \<Rightarrow> bool" where
  "is_valid_scale_factor scale \<longleftrightarrow> scale = 1 \<or> scale = 2 \<or> scale = 4 \<or> scale = 8"

definition parse_segment_override_name :: "string \<Rightarrow> mem_segment_t" where
  "parse_segment_override_name name =
     (if strcase_eq name ''fs'' then MEM_SEG_FS
      else if strcase_eq name ''gs'' then MEM_SEG_GS
      else MEM_SEG_DEFAULT)"

text \<open>\<open>memset\<close> to zero, then the scale.\<close>

definition zero_mem :: mem_operand where
  "zero_mem = \<lparr>mem_base = 0, mem_index = 0, mem_scale = 0, mem_displacement = 0,
     mem_has_base = False, mem_has_index = False, mem_has_displacement = False,
     mem_is_absolute = False, mem_is_rip_relative = False,
     mem_segment_override = MEM_SEG_DEFAULT, mem_label = []\<rparr>"

definition close_bracket :: "mem_operand \<Rightarrow> parser_state \<Rightarrow> mem_operand presult" where
  "close_bracket mem p =
     (case expect p TOK_RBRACKET of
        (True, p') \<Rightarrow> Inr (mem, p')
      | (False, _) \<Rightarrow> Inl Syntax_Diagnostic)"

text \<open>A scale after \<open>reg *\<close>: the register is the index.\<close>

definition scaled_index :: "reg_t \<Rightarrow> mem_operand \<Rightarrow> parser_state \<Rightarrow> mem_operand presult" where
  "scaled_index reg mem p =
     (if cur_type p \<noteq> TOK_NUMBER then Inl Syntax_Diagnostic
      else if \<not> is_valid_scale_factor (cur_value p) then Inl Syntax_Diagnostic
      else Inr (mem\<lparr>mem_index := reg, mem_has_index := True, mem_scale := sint (cur_value p)\<rparr>,
                advance p))"

text \<open>A register at the start of a component; \<open>p\<close> is the state after it.\<close>

definition register_component ::
  "reg_t \<Rightarrow> reg_size_t \<Rightarrow> mem_operand \<Rightarrow> parser_state \<Rightarrow> mem_operand presult" where
  "register_component reg sz mem p =
     (if reg = RIP \<or> (sz = REG_SIZE_64 \<and> strcase_eq (cur_text p) ''rip'')
      then Inr (mem\<lparr>mem_is_rip_relative := True\<rparr>, p)
      else case expect p TOK_STAR of
        (True, p') \<Rightarrow> scaled_index reg mem p'
      | (False, p') \<Rightarrow>
          (if \<not> mem_has_base mem then Inr (mem\<lparr>mem_base := reg, mem_has_base := True\<rparr>, p')
           else if \<not> mem_has_index mem then Inr (mem\<lparr>mem_index := reg, mem_has_index := True\<rparr>, p')
           else Inl Syntax_Diagnostic))"

definition component_label :: "mem_operand \<Rightarrow> parser_state \<Rightarrow> mem_operand presult" where
  "component_label mem p =
     Inr (mem\<lparr>mem_label := copy_bounded_text MAX_LABEL_LENGTH (cur_text p)\<rparr>, advance p)"

text \<open>What follows a sign.\<close>

definition signed_component ::
  "bool \<Rightarrow> mem_operand \<Rightarrow> parser_state \<Rightarrow> mem_operand presult" where
  "signed_component negative mem p =
     (if cur_type p = TOK_NUMBER then
        (let v = ucast (cur_value p) :: u32
         in Inr (mem\<lparr>mem_displacement := mem_displacement mem + (if negative then - v else v),
                     mem_has_displacement := True\<rparr>, advance p))
      else if cur_type p = TOK_IDENTIFIER then
        (let (reg, sz) = parse_register (cur_text p) in
         if reg \<noteq> REG_NONE then
           (case expect (advance p) TOK_STAR of
              (True, p') \<Rightarrow> scaled_index reg mem p'
            | (False, p') \<Rightarrow>
                Inr (mem\<lparr>mem_index := reg, mem_has_index := True, mem_scale := 1\<rparr>, p'))
         else if negative \<and> mem_is_rip_relative mem then Inl Constraint_Diagnostic
         else component_label mem p)
      else Inl Syntax_Diagnostic)"

text \<open>A \<open>*\<close> that follows a component: the scale of an index that is already there.\<close>

definition late_scale :: "mem_operand \<Rightarrow> parser_state \<Rightarrow> mem_operand presult" where
  "late_scale mem p =
     (if cur_type p \<noteq> TOK_NUMBER then Inl Syntax_Diagnostic
      else if \<not> mem_has_index mem then Inl Constraint_Diagnostic
      else if \<not> is_valid_scale_factor (cur_value p) then Inl Syntax_Diagnostic
      else Inr (mem\<lparr>mem_scale := sint (cur_value p)\<rparr>, advance p))"

definition mem_component :: "mem_operand \<Rightarrow> parser_state \<Rightarrow> mem_operand presult" where
  "mem_component mem p =
     (if cur_type p = TOK_IDENTIFIER then
        (let (reg, sz) = parse_register (cur_text p) in
         if reg \<noteq> REG_NONE then register_component reg sz mem (advance p)
         else component_label mem p)
      else if cur_type p = TOK_NUMBER then
        Inr (mem\<lparr>mem_displacement := mem_displacement mem + ucast (cur_value p),
                 mem_has_displacement := True\<rparr>, advance p)
      else if cur_type p = TOK_PLUS \<or> cur_type p = TOK_MINUS then
        signed_component (cur_type p = TOK_MINUS) mem (advance p)
      else if cur_type p = TOK_STAR then late_scale mem (advance p)
      else Inl Syntax_Diagnostic)"

text \<open>An iteration that goes on has taken at least one token.\<close>

lemma expect_le:
  "expect p ty = (b, p') \<Longrightarrow> ty \<noteq> TOK_EOF \<Longrightarrow> tokens_left p' \<le> tokens_left p"
  using advance_le [of p] by (auto simp: expect_def split: if_splits)

lemma advance_less:
  "cur_type p \<noteq> TOK_EOF \<Longrightarrow> tokens_left p \<le> n \<Longrightarrow> tokens_left (advance p) < n"
  using advance_progress [of p] by simp

lemma scaled_index_le:
  "scaled_index reg mem p = Inr (m, p') \<Longrightarrow> tokens_left p' \<le> tokens_left p"
  using advance_progress [of p] by (auto simp: scaled_index_def split: if_splits)

lemma register_component_le:
  "register_component reg sz mem p = Inr (m, p') \<Longrightarrow> tokens_left p' \<le> tokens_left p"
  using expect_le scaled_index_le
  by (fastforce simp: register_component_def split: if_splits prod.splits bool.splits)

lemma component_label_le:
  "component_label mem p = Inr (m, p') \<Longrightarrow> cur_type p \<noteq> TOK_EOF \<Longrightarrow> tokens_left p' < tokens_left p"
  using advance_progress [of p] by (auto simp: component_label_def)

lemma signed_component_le:
  assumes "signed_component neg mem p = Inr (m, p')"
  shows "tokens_left p' \<le> tokens_left p"
proof (cases "cur_type p = TOK_EOF")
  case False
  note adv = advance_progress [OF False]
  show ?thesis
  proof (cases "cur_type p = TOK_IDENTIFIER \<and> fst (parse_register (cur_text p)) \<noteq> REG_NONE")
    case True
    obtain b q where e: "expect (advance p) TOK_STAR = (b, q)" by fastforce
    from expect_le [OF e] have "tokens_left q \<le> tokens_left (advance p)" by simp
    with assms True adv e show ?thesis
      by (auto simp: signed_component_def split: if_splits prod.splits bool.splits dest!: scaled_index_le)
  next
    case no_reg: False
    with assms adv False show ?thesis
      by (auto simp: signed_component_def Let_def split: if_splits prod.splits dest!: component_label_le)
  qed
qed (use assms in \<open>simp add: signed_component_def\<close>)

lemma late_scale_le: "late_scale mem p = Inr (m, p') \<Longrightarrow> tokens_left p' \<le> tokens_left p"
  using advance_progress [of p] by (auto simp: late_scale_def split: if_splits)

lemma mem_component_progress:
  assumes "mem_component mem p = Inr (m, p')"
  shows "tokens_left p' < tokens_left p"
proof -
  from assms have ne: "cur_type p \<noteq> TOK_EOF" by (auto simp: mem_component_def)
  note adv = advance_progress [OF ne]
  from assms ne adv show ?thesis
    by (auto simp: mem_component_def split: if_splits prod.splits
        dest!: register_component_le signed_component_le late_scale_le component_label_le)
qed

function mem_components :: "mem_operand \<Rightarrow> parser_state \<Rightarrow> mem_operand presult" where
  "mem_components mem p =
     (if cur_type p = TOK_RBRACKET \<or> cur_type p = TOK_EOF then Inr (mem, p)
      else case mem_component mem p of
        Inl e \<Rightarrow> Inl e
      | Inr (mem', p') \<Rightarrow> mem_components mem' p')"
  by pat_completeness auto
termination
  by (relation "measure (tokens_left \<circ> snd)") (auto simp: mem_component_progress)

declare mem_components.simps [simp del]

text \<open>The form \<open>[abs n]\<close>, after the word.\<close>

definition absolute_operand :: "mem_operand \<Rightarrow> parser_state \<Rightarrow> mem_operand presult" where
  "absolute_operand mem p =
     (if cur_type p \<noteq> TOK_NUMBER then Inl Syntax_Diagnostic
      else close_bracket
        (mem\<lparr>mem_is_absolute := True, mem_displacement := ucast (cur_value p),
             mem_has_displacement := True\<rparr>) (advance p))"

definition parse_memory_operand :: "parser_state \<Rightarrow> mem_operand presult" where
  "parse_memory_operand p0 =
     (let mem = zero_mem\<lparr>mem_scale := 1, mem_segment_override := MEM_SEG_DEFAULT\<rparr> in
      case expect p0 TOK_LBRACKET of
        (False, _) \<Rightarrow> Inl Syntax_Diagnostic
      | (True, p) \<Rightarrow>
          (if cur_type p = TOK_IDENTIFIER \<and> strcase_eq (cur_text p) ''abs''
           then absolute_operand mem (advance p)
           else case mem_components mem p of
             Inl e \<Rightarrow> Inl e
           | Inr (mem1, p1) \<Rightarrow>
               (case close_bracket mem1 p1 of
                  Inl e \<Rightarrow> Inl e
                | Inr (mem2, p2) \<Rightarrow>
                    (if mem_is_rip_relative mem2 \<and> (mem_has_base mem2 \<or> mem_has_index mem2)
                     then Inl Constraint_Diagnostic
                     else Inr (mem2, p2)))))"

section \<open>Operands\<close>

definition zero_operand :: operand where
  "zero_operand = \<lparr>op_type = OPERAND_NONE, op_reg = 0, op_reg_size = REG_SIZE_8,
     op_immediate = 0, op_mem = zero_mem, op_label = [], op_label_rhs = [], op_string = []\<rparr>"

text \<open>A label or the difference of two labels; \<open>p\<close> is the state at the first label.\<close>

definition label_or_difference :: "parser_state \<Rightarrow> operand \<times> parser_state" where
  "label_or_difference p0 =
     (let lhs = copy_bounded_text MAX_LABEL_LENGTH (cur_text p0); p = advance p0 in
      if cur_type p = TOK_MINUS \<and> peek_type p = TOK_IDENTIFIER then
        (let p' = advance p
         in (zero_operand\<lparr>op_type := OPERAND_LABEL_DIFF, op_label := lhs,
               op_label_rhs := copy_bounded_text MAX_LABEL_LENGTH (cur_text p')\<rparr>, advance p'))
      else (zero_operand\<lparr>op_type := OPERAND_LABEL, op_label := lhs\<rparr>, p))"

definition memory_operand :: "mem_segment_t \<Rightarrow> parser_state \<Rightarrow> operand presult" where
  "memory_operand seg p =
     (case parse_memory_operand p of
        Inl e \<Rightarrow> Inl e
      | Inr (mem, p') \<Rightarrow>
          Inr (zero_operand\<lparr>op_type := OPERAND_MEM, op_mem := mem\<lparr>mem_segment_override := seg\<rparr>\<rparr>, p'))"

text \<open>Adjacent string literals are joined while the buffer has room; a literal that does not
  fit is dropped.\<close>

function join_strings :: "string \<Rightarrow> parser_state \<Rightarrow> string \<times> parser_state" where
  "join_strings s p =
     (if cur_type p = TOK_STRING
      then join_strings
        (if length s + length (cur_text p) < MAX_LINE_LENGTH - 1 then s @ cur_text p else s) (advance p)
      else (s, p))"
  by pat_completeness auto
termination
  by (relation "measure (tokens_left \<circ> snd)") (auto intro: advance_progress)

declare join_strings.simps [simp del]

definition immediate_operand :: "u64 \<Rightarrow> operand" where
  "immediate_operand v = zero_operand\<lparr>op_type := OPERAND_IMM, op_immediate := v\<rparr>"

definition parse_plain_operand :: "parser_state \<Rightarrow> operand presult" where
  "parse_plain_operand p =
     (if cur_type p = TOK_DOLLAR then
        (let p' = advance p in
         if cur_type p' = TOK_NUMBER then Inr (immediate_operand (cur_value p'), advance p')
         else if cur_type p' = TOK_IDENTIFIER then Inr (label_or_difference p')
         else Inl Syntax_Diagnostic)
      else if cur_type p = TOK_LBRACKET then memory_operand MEM_SEG_DEFAULT p
      else if cur_type p = TOK_IDENTIFIER then
        (let (reg, sz) = parse_register (cur_text p) in
         if reg \<noteq> REG_NONE
         then Inr (zero_operand\<lparr>op_type := OPERAND_REG, op_reg := reg, op_reg_size := sz\<rparr>, advance p)
         else Inr (label_or_difference p))
      else if cur_type p = TOK_NUMBER \<or> cur_type p = TOK_CHAR then
        Inr (immediate_operand (cur_value p), advance p)
      else if cur_type p = TOK_STRING then
        (let (s, p') = join_strings (copy_bounded_text MAX_LINE_LENGTH (cur_text p)) (advance p)
         in Inr (zero_operand\<lparr>op_type := OPERAND_STRING, op_string := s\<rparr>, p'))
      else Inl Syntax_Diagnostic)"

text \<open>A segment prefix \<open>fs:\<close> or \<open>gs:\<close> needs a memory operand behind it.\<close>

definition parse_operand :: "parser_state \<Rightarrow> operand presult" where
  "parse_operand p =
     (if cur_type p = TOK_IDENTIFIER \<and> peek_type p = TOK_COLON
       \<and> parse_segment_override_name (cur_text p) \<noteq> MEM_SEG_DEFAULT
      then (let seg = parse_segment_override_name (cur_text p); p' = advance (advance p) in
            if cur_type p' \<noteq> TOK_LBRACKET then Inl Syntax_Diagnostic
            else memory_operand seg p')
      else parse_plain_operand p)"

end
