(* ===== verification/Instruction_Parser.thy ===== *)
theory Instruction_Parser
  imports Operand_Parser Name_Distance
begin

text \<open>
  The instruction parser of src/x86_64_parser.c: the mnemonic table and its lookup, the
  suggestion for an unknown mnemonic, the operand checks of the SSE instructions, the special
  forms (\<open>equ\<close>, section shorthands, \<open>comm\<close>), \<open>parse_instruction\<close> and the loop of
  \<open>parse_source_internal\<close>. The loop need not end: it is a partial function, and the results at
  the end say when it returns. Running out of memory and the profiling counters are left out.
\<close>

section \<open>The mnemonic table\<close>

definition inst_table :: "(string \<times> instruction_type) list" where
  "inst_table =
    [(''mov'', Mov_family INST_MOV), (''push'', Stack_family INST_PUSH),
     (''pop'', Stack_family INST_POP), (''lea'', Single_family INST_LEA),
     (''movzx'', Mov_family INST_MOVZX), (''movsx'', Mov_family INST_MOVSX),
     (''xchg'', Single_family INST_XCHG), (''bswap'', Single_family INST_BSWAP),
     (''cmova'', Cmov_family INST_CMOVA), (''cmovae'', Cmov_family INST_CMOVAE),
     (''cmovb'', Cmov_family INST_CMOVB), (''cmovbe'', Cmov_family INST_CMOVBE),
     (''cmove'', Cmov_family INST_CMOVE), (''cmovg'', Cmov_family INST_CMOVG),
     (''cmovge'', Cmov_family INST_CMOVGE), (''cmovl'', Cmov_family INST_CMOVL),
     (''cmovle'', Cmov_family INST_CMOVLE), (''cmovne'', Cmov_family INST_CMOVNE),
     (''cmovno'', Cmov_family INST_CMOVNO), (''cmovnp'', Cmov_family INST_CMOVNP),
     (''cmovns'', Cmov_family INST_CMOVNS), (''cmovo'', Cmov_family INST_CMOVO),
     (''cmovp'', Cmov_family INST_CMOVP), (''cmovs'', Cmov_family INST_CMOVS),
     (''add'', Arith_family INST_ADD), (''adc'', Arith_family INST_ADC),
     (''sub'', Arith_family INST_SUB), (''sbb'', Arith_family INST_SBB),
     (''mul'', Muldiv_family INST_MUL), (''imul'', Single_family INST_IMUL),
     (''div'', Muldiv_family INST_DIV), (''idiv'', Muldiv_family INST_IDIV),
     (''inc'', Unary_family INST_INC), (''dec'', Unary_family INST_DEC),
     (''neg'', Unary_family INST_NEG), (''cmp'', Arith_family INST_CMP),
     (''xor'', Arith_family INST_XOR), (''or'', Arith_family INST_OR),
     (''and'', Arith_family INST_AND), (''not'', Unary_family INST_NOT),
     (''test'', Single_family INST_TEST), (''shl'', Shift_family INST_SHL),
     (''shr'', Shift_family INST_SHR), (''sal'', Shift_family INST_SAL),
     (''sar'', Shift_family INST_SAR), (''rol'', Shift_family INST_ROL),
     (''ror'', Shift_family INST_ROR), (''rcl'', Shift_family INST_RCL),
     (''rcr'', Shift_family INST_RCR), (''shld'', Dshift_family INST_SHLD),
     (''shrd'', Dshift_family INST_SHRD), (''bt'', Bit_family INST_BT),
     (''bts'', Bit_family INST_BTS), (''btr'', Bit_family INST_BTR),
     (''btc'', Bit_family INST_BTC), (''bsf'', Scan_family INST_BSF),
     (''bsr'', Scan_family INST_BSR), (''jmp'', Single_family INST_JMP),
     (''ja'', Jcc_family INST_JA), (''jae'', Jcc_family INST_JAE), (''jb'', Jcc_family INST_JB),
     (''jbe'', Jcc_family INST_JBE), (''je'', Jcc_family INST_JE), (''jg'', Jcc_family INST_JG),
     (''jge'', Jcc_family INST_JGE), (''jl'', Jcc_family INST_JL), (''jle'', Jcc_family INST_JLE),
     (''jne'', Jcc_family INST_JNE), (''jnz'', Jcc_family INST_JNZ),
     (''jno'', Jcc_family INST_JNO), (''jnp'', Jcc_family INST_JNP),
     (''jns'', Jcc_family INST_JNS), (''jo'', Jcc_family INST_JO), (''jp'', Jcc_family INST_JP),
     (''js'', Jcc_family INST_JS), (''call'', Callret_family INST_CALL),
     (''ret'', Callret_family INST_RET), (''int'', Single_family INST_INT),
     (''syscall'', Single_family INST_SYSCALL), (''sysret'', Single_family INST_SYSRET),
     (''seta'', Setcc_family INST_SETA), (''setae'', Setcc_family INST_SETAE),
     (''setb'', Setcc_family INST_SETB), (''setbe'', Setcc_family INST_SETBE),
     (''sete'', Setcc_family INST_SETE), (''setg'', Setcc_family INST_SETG),
     (''setge'', Setcc_family INST_SETGE), (''setl'', Setcc_family INST_SETL),
     (''setle'', Setcc_family INST_SETLE), (''setne'', Setcc_family INST_SETNE),
     (''setno'', Setcc_family INST_SETNO), (''setnp'', Setcc_family INST_SETNP),
     (''setns'', Setcc_family INST_SETNS), (''seto'', Setcc_family INST_SETO),
     (''setp'', Setcc_family INST_SETP), (''sets'', Setcc_family INST_SETS),
     (''leave'', Single_family INST_LEAVE), (''enter'', Single_family INST_ENTER),
     (''nop'', Single_family INST_NOP), (''hlt'', Single_family INST_HLT),
     (''clc'', Flag_family INST_CLC), (''stc'', Flag_family INST_STC),
     (''cmc'', Flag_family INST_CMC), (''cld'', Flag_family INST_CLD),
     (''std'', Flag_family INST_STD), (''cli'', Flag_family INST_CLI),
     (''sti'', Flag_family INST_STI), (''cbw'', Cbw_family INST_CBW),
     (''cwd'', Cwd_family INST_CWD), (''cwde'', Cbw_family INST_CWDE),
     (''cqo'', Cwd_family INST_CQO), (''cdq'', Cwd_family INST_CDQ),
     (''cdqe'', Cbw_family INST_CDQE), (''movsb'', String_family INST_MOVSB),
     (''movsw'', String_family INST_MOVSW), (''movsd'', String_family INST_MOVSD),
     (''movsq'', String_family INST_MOVSQ), (''movaps'', Sse_mov_family INST_MOVAPS),
     (''movups'', Sse_mov_family INST_MOVUPS), (''movss'', Sse_mov_family INST_MOVSS),
     (''movapd'', Sse_mov_family INST_MOVAPD), (''movupd'', Sse_mov_family INST_MOVUPD),
     (''addss'', Sse_arith_family INST_ADDSS), (''addps'', Sse_arith_family INST_ADDPS),
     (''addsd'', Sse_arith_family INST_ADDSD), (''addpd'', Sse_arith_family INST_ADDPD),
     (''subss'', Sse_arith_family INST_SUBSS), (''subps'', Sse_arith_family INST_SUBPS),
     (''subsd'', Sse_arith_family INST_SUBSD), (''subpd'', Sse_arith_family INST_SUBPD),
     (''mulss'', Sse_arith_family INST_MULSS), (''mulps'', Sse_arith_family INST_MULPS),
     (''mulsd'', Sse_arith_family INST_MULSD), (''mulpd'', Sse_arith_family INST_MULPD),
     (''divss'', Sse_arith_family INST_DIVSS), (''divps'', Sse_arith_family INST_DIVPS),
     (''divsd'', Sse_arith_family INST_DIVSD), (''divpd'', Sse_arith_family INST_DIVPD),
     (''movdqa'', Sse_mov_family INST_MOVDQA), (''movdqu'', Sse_mov_family INST_MOVDQU),
     (''paddb'', Packed_family INST_PADDB), (''paddw'', Packed_family INST_PADDW),
     (''paddd'', Packed_family INST_PADDD), (''paddq'', Packed_family INST_PADDQ),
     (''psubb'', Packed_family INST_PSUBB), (''psubw'', Packed_family INST_PSUBW),
     (''psubd'', Packed_family INST_PSUBD), (''psubq'', Packed_family INST_PSUBQ),
     (''pcmpeqb'', Pcmp_family INST_PCMPEQB), (''pcmpeqw'', Pcmp_family INST_PCMPEQW),
     (''pcmpeqd'', Pcmp_family INST_PCMPEQD), (''pcmpeqq'', Pcmp_family INST_PCMPEQQ),
     (''pcmpgtb'', Pcmp_family INST_PCMPGTB), (''pcmpgtw'', Pcmp_family INST_PCMPGTW),
     (''pcmpgtd'', Pcmp_family INST_PCMPGTD), (''pcmpgtq'', Pcmp_family INST_PCMPGTQ),
     (''pand'', Plogic_family INST_PAND), (''pandn'', Plogic_family INST_PANDNPD),
     (''por'', Plogic_family INST_POR), (''pxor'', Plogic_family INST_PXOR),
     (''db'', Data_family INST_DB), (''dw'', Data_family INST_DW), (''dd'', Data_family INST_DD),
     (''dq'', Data_family INST_DQ), (''resb'', Reserve_family INST_RESB),
     (''resw'', Reserve_family INST_RESW), (''resd'', Reserve_family INST_RESD),
     (''resq'', Reserve_family INST_RESQ), (''equ'', Directive_family INST_EQU),
     (''times'', Directive_family INST_TIMES), (''align'', Directive_family INST_ALIGN),
     (''incbin'', Directive_family INST_INCBIN), (''comm'', Common_family INST_COMM),
     (''.comm'', Common_family INST_COMM), (''lcomm'', Common_family INST_LCOMM),
     (''.lcomm'', Common_family INST_LCOMM), (''global'', Symdir_family INST_GLOBAL),
     (''extern'', Symdir_family INST_EXTERN), (''.global'', Symdir_family INST_GLOBAL),
     (''.extern'', Symdir_family INST_EXTERN), (''weak'', Symdir_family INST_WEAK),
     (''hidden'', Symdir_family INST_HIDDEN), (''.weak'', Symdir_family INST_WEAK),
     (''.hidden'', Symdir_family INST_HIDDEN), (''section'', Directive_family INST_SECTION),
     (''.section'', Directive_family INST_SECTION), (''segment'', Directive_family INST_SECTION),
     (''.segment'', Directive_family INST_SECTION), (''.text'', Directive_family INST_SECTION),
     (''.data'', Directive_family INST_SECTION), (''text'', Directive_family INST_SECTION),
     (''data'', Directive_family INST_SECTION), (''.bss'', Directive_family INST_SECTION),
     (''bss'', Directive_family INST_SECTION), (''.rodata'', Directive_family INST_SECTION),
     (''rodata'', Directive_family INST_SECTION)]"

definition lookup_instruction_type :: "string \<Rightarrow> instruction_type" where
  "lookup_instruction_type mnemonic =
     (case find (\<lambda>e. strcase_eq mnemonic (fst e)) inst_table of
        Some (_, ty) \<Rightarrow> ty
      | None \<Rightarrow> INST_UNKNOWN)"

definition instruction_name_distance :: "string \<Rightarrow> string \<Rightarrow> int" where
  "instruction_name_distance lhs rhs =
     (if 63 < length lhs \<or> 63 < length rhs then 999
      else distance_rows 1 lhs rhs (map int [0..<length rhs + 1]) ! length rhs)"

fun closest_instruction :: "string \<Rightarrow> (string \<times> instruction_type) list \<Rightarrow> string option \<Rightarrow> int \<Rightarrow> string option \<times> int" where
  "closest_instruction name [] best best_dist = (best, best_dist)"
| "closest_instruction name (e # es) best best_dist =
     (let dist = instruction_name_distance name (fst e) in
      if dist < best_dist then closest_instruction name es (Some (fst e)) dist
      else closest_instruction name es best best_dist)"

definition find_closest_instruction_name :: "string \<Rightarrow> string option \<times> int" where
  "find_closest_instruction_name name = closest_instruction name inst_table None 999"

text \<open>The diagnostic names the closest mnemonic when it is at most two edits away.\<close>

definition unknown_instruction_error :: "string \<Rightarrow> parse_error" where
  "unknown_instruction_error name =
     (let (closest, distance) = find_closest_instruction_name name
      in Unknown_Instruction (if distance \<le> 2 then closest else None))"

section \<open>Checks of SSE operands\<close>

definition is_sse_move_inst :: "instruction_type \<Rightarrow> bool" where
  "is_sse_move_inst ty = (case ty of Sse_mov_family _ \<Rightarrow> True | _ \<Rightarrow> False)"

text \<open>The ranges \<open>INST_ADDSS\<close> to \<open>INST_DIVPD\<close> and \<open>INST_PADDB\<close> to \<open>INST_PXOR\<close> of the enumeration.\<close>

definition is_sse_arith_inst :: "instruction_type \<Rightarrow> bool" where
  "is_sse_arith_inst ty = (case ty of Sse_arith_family _ \<Rightarrow> True | _ \<Rightarrow> False)"

definition is_sse_packed_inst :: "instruction_type \<Rightarrow> bool" where
  "is_sse_packed_inst ty =
     (case ty of Packed_family _ \<Rightarrow> True | Pcmp_family _ \<Rightarrow> True | Plogic_family _ \<Rightarrow> True | _ \<Rightarrow> False)"

definition is_xmm_reg_operand :: "operand \<Rightarrow> bool" where
  "is_xmm_reg_operand op \<longleftrightarrow> op_type op = OPERAND_REG \<and> op_reg_size op = REG_SIZE_XMM"

definition sse_move_operands_ok :: "operand list \<Rightarrow> bool" where
  "sse_move_operands_ok ops \<longleftrightarrow>
     length ops = 2 \<and>
     (let dst = ops ! 0; src = ops ! 1;
          dst_xmm = is_xmm_reg_operand dst; src_xmm = is_xmm_reg_operand src;
          dst_mem = (op_type dst = OPERAND_MEM); src_mem = (op_type src = OPERAND_MEM)
      in \<not> (dst_mem \<and> src_mem) \<and> \<not> (dst_mem \<and> \<not> src_xmm)
       \<and> \<not> (dst_xmm \<and> \<not> src_xmm \<and> \<not> src_mem) \<and> \<not> (\<not> dst_xmm \<and> \<not> src_xmm))"

definition sse_xmm_destination_ok :: "operand list \<Rightarrow> bool" where
  "sse_xmm_destination_ok ops \<longleftrightarrow>
     length ops = 2 \<and>
     (let dst = ops ! 0; src = ops ! 1
      in is_xmm_reg_operand dst \<and> (is_xmm_reg_operand src \<or> op_type src = OPERAND_MEM))"

definition validate_sse_operands :: "instruction_type \<Rightarrow> operand list \<Rightarrow> bool" where
  "validate_sse_operands ty ops \<longleftrightarrow>
     (is_sse_move_inst ty \<longrightarrow> sse_move_operands_ok ops) \<and>
     (is_sse_arith_inst ty \<longrightarrow> sse_xmm_destination_ok ops) \<and>
     (is_sse_packed_inst ty \<longrightarrow> sse_xmm_destination_ok ops)"

section \<open>One line\<close>

abbreviation (input) MAX_OPERANDS :: nat where "MAX_OPERANDS \<equiv> 16"

definition zero_inst :: parsed_instruction where
  "zero_inst = \<lparr>inst_type = Mov_family INST_MOV, inst_label = [], inst_has_label = False,
     inst_label_column = 0, inst_operands = [], inst_address = 0, inst_line_number = 0,
     inst_original_line = []\<rparr>"

definition capture_original_line :: "parser_state \<Rightarrow> string" where
  "capture_original_line p =
     copy_bounded_text MAX_LINE_LENGTH
       (takeWhile (\<lambda>c. c \<noteq> LF \<and> c \<noteq> CHR 0x0D) (ps_line_start p))"

definition set_label :: "parser_state \<Rightarrow> parsed_instruction \<Rightarrow> parsed_instruction" where
  "set_label p inst =
     inst\<lparr>inst_has_label := True, inst_label := copy_bounded_text MAX_LABEL_LENGTH (cur_text p),
          inst_label_column := tok_column (ps_current p)\<rparr>"

definition at_line_end :: "parser_state \<Rightarrow> bool" where
  "at_line_end p \<longleftrightarrow> cur_type p = TOK_NEWLINE \<or> cur_type p = TOK_EOF"

definition skip_comma :: "parser_state \<Rightarrow> parser_state" where
  "skip_comma p = (if cur_type p = TOK_COMMA then advance p else p)"

text \<open>\<open>name equ value\<close>: \<open>None\<close> when the line has another form.\<close>

definition maybe_parse_equ_directive ::
  "parser_state \<Rightarrow> parsed_instruction \<Rightarrow> (parsed_instruction presult) option" where
  "maybe_parse_equ_directive p inst =
     (if \<not> (cur_type p = TOK_IDENTIFIER \<and> peek_type p = TOK_IDENTIFIER
          \<and> strcase_eq (tok_text (ps_peek p)) ''equ'') then None
      else Some
        (let inst' = (set_label p inst)\<lparr>inst_type := Directive_family INST_EQU\<rparr>;
             p' = advance (advance p)
         in case parse_operand p' of
              Inl e \<Rightarrow> Inl e
            | Inr (op, p'') \<Rightarrow>
                (if op_type op \<noteq> OPERAND_IMM \<and> op_type op \<noteq> OPERAND_LABEL \<and> op_type op \<noteq> OPERAND_LABEL_DIFF
                 then Inl Syntax_Diagnostic
                 else Inr (inst'\<lparr>inst_operands := [op]\<rparr>, p''))))"

definition maybe_apply_section_shorthand ::
  "parser_state \<Rightarrow> parsed_instruction \<Rightarrow> string \<Rightarrow> (parsed_instruction presult) option" where
  "maybe_apply_section_shorthand p inst mnemonic =
     (let section_keyword = strcase_eq mnemonic ''section'' \<or> strcase_eq mnemonic ''.section''
            \<or> strcase_eq mnemonic ''segment'' \<or> strcase_eq mnemonic ''.segment''
      in if inst_type inst \<noteq> Directive_family INST_SECTION \<or> section_keyword then None
         else Some
           (if at_line_end p
            then Inr (inst\<lparr>inst_operands :=
                   [zero_operand\<lparr>op_type := OPERAND_LABEL,
                      op_label := copy_bounded_text MAX_LABEL_LENGTH mnemonic\<rparr>]\<rparr>, p)
            else Inl Syntax_Diagnostic))"

text \<open>\<open>comm name, size [, alignment]\<close>.\<close>

definition parse_comm_lcomm_operands ::
  "parser_state \<Rightarrow> parsed_instruction \<Rightarrow> parsed_instruction presult" where
  "parse_comm_lcomm_operands p inst =
     (if cur_type p \<noteq> TOK_IDENTIFIER then Inl Syntax_Diagnostic
      else
        let name = zero_operand\<lparr>op_type := OPERAND_LABEL,
              op_label := copy_bounded_text MAX_LABEL_LENGTH (cur_text p)\<rparr>;
            p1 = skip_comma (advance p)
        in if cur_type p1 \<noteq> TOK_NUMBER then Inl Syntax_Diagnostic
           else
             let sz = immediate_operand (cur_value p1); p2 = advance p1
             in if cur_type p2 \<noteq> TOK_COMMA
                then Inr (inst\<lparr>inst_operands := [name, sz]\<rparr>, p2)
                else
                  let p3 = advance p2
                  in if cur_type p3 \<noteq> TOK_NUMBER then Inl Syntax_Diagnostic
                     else Inr (inst\<lparr>inst_operands := [name, sz, immediate_operand (cur_value p3)]\<rparr>,
                               advance p3))"

function parse_operands_until_eol :: "operand list \<Rightarrow> parser_state \<Rightarrow> operand list presult" where
  "parse_operands_until_eol ops p =
     (if at_line_end p then Inr (ops, p)
      else if MAX_OPERANDS \<le> length ops then Inl Syntax_Diagnostic
      else case parse_operand p of
        Inl e \<Rightarrow> Inl e
      | Inr (op, p') \<Rightarrow> parse_operands_until_eol (ops @ [op]) (skip_comma p'))"
  by pat_completeness auto
termination by (relation "measure (\<lambda>(ops, _). MAX_OPERANDS - length ops)") auto

declare parse_operands_until_eol.simps [simp del]

text \<open>The mnemonic and what follows it; \<open>p\<close> is the state at the mnemonic.\<close>

definition parse_mnemonic_line ::
  "parser_state \<Rightarrow> parsed_instruction \<Rightarrow> parsed_instruction presult" where
  "parse_mnemonic_line p inst0 =
     (let ty = lookup_instruction_type (cur_text p);
          inst = inst0\<lparr>inst_type := ty\<rparr>; p1 = advance p
      in if ty = INST_UNKNOWN then Inl (unknown_instruction_error (cur_text p))
         else case maybe_apply_section_shorthand p1 inst (cur_text p) of
           Some r \<Rightarrow> r
         | None \<Rightarrow>
             (if ty = Common_family INST_COMM \<or> ty = Common_family INST_LCOMM
              then parse_comm_lcomm_operands p1 inst
              else case parse_operands_until_eol [] p1 of
                Inl e \<Rightarrow> Inl e
              | Inr (ops, p2) \<Rightarrow>
                  let ty' = (if ty = String_family INST_MOVSD \<and> ops \<noteq> [] then Sse_mov_family INST_MOVSD_XMM
                             else ty)
                  in if validate_sse_operands ty' ops
                     then Inr (inst\<lparr>inst_type := ty', inst_operands := ops\<rparr>, p2)
                     else Inl Constraint_Diagnostic))"

definition start_inst :: "parser_state \<Rightarrow> parsed_instruction" where
  "start_inst p =
     zero_inst\<lparr>inst_line_number := ps_line p, inst_label_column := 1,
               inst_original_line := capture_original_line p\<rparr>"

definition parse_instruction :: "parser_state \<Rightarrow> parsed_instruction presult" where
  "parse_instruction p0 =
     (let inst0 = start_inst p0 in
      if cur_type p0 = TOK_EOF then Inr (inst0\<lparr>inst_type := Single_family INST_NOP\<rparr>, p0)
      else
        let labelled = (cur_type p0 = TOK_IDENTIFIER \<and> peek_type p0 = TOK_COLON);
            inst = (if labelled then set_label p0 inst0 else inst0);
            p = (if labelled then advance (advance p0) else p0)
        in case maybe_parse_equ_directive p inst of
             Some r \<Rightarrow> r
           | None \<Rightarrow>
               (if cur_type p = TOK_IDENTIFIER then parse_mnemonic_line p inst
                else Inr (inst\<lparr>inst_type := Single_family INST_NOP\<rparr>, p)))"

section \<open>The loop over the source\<close>

definition should_keep_instruction :: "parsed_instruction \<Rightarrow> token_type \<Rightarrow> bool" where
  "should_keep_instruction inst prev_type \<longleftrightarrow>
     inst_type inst \<noteq> Single_family INST_NOP \<or> inst_has_label inst \<or> prev_type = TOK_IDENTIFIER"

text \<open>One iteration: the instructions it keeps (none or one) and the next state.\<close>

definition parse_line :: "parser_state \<Rightarrow> parsed_instruction list presult" where
  "parse_line p =
     (case parse_instruction p of
        Inl e \<Rightarrow> Inl e
      | Inr (inst, p') \<Rightarrow>
          Inr (if should_keep_instruction inst (cur_type p) then [inst] else [],
               if cur_type p' = TOK_NEWLINE then advance p' else p'))"

partial_function (option) parse_lines ::
  "parser_state \<Rightarrow> parsed_instruction list \<Rightarrow> (parse_error + parsed_instruction list \<times> parser_state) option" where
  "parse_lines p insts =
     (if cur_type p = TOK_EOF then Some (Inr (insts, p))
      else case parse_line p of
        Inl e \<Rightarrow> Some (Inl e)
      | Inr (kept, p') \<Rightarrow> parse_lines p' (insts @ kept))"

definition parse_source_internal ::
  "bool \<Rightarrow> bool \<Rightarrow> string \<Rightarrow> (parse_error + parsed_instruction list \<times> parser_state) option" where
  "parse_source_internal warn_all as_errors source =
     parse_lines (init_tokens (parser_init warn_all as_errors source)) []"

end
