(* ===== verification/Parser_Progress.thy ===== *)
theory Parser_Progress
  imports Instruction_Parser
begin

text \<open>
  When the parser returns. Every operation of the parser leaves at most the tokens it found,
  and a line that starts with an identifier or is empty takes at least one. A line that starts
  with any other token is \<open>stuck\<close>: \<open>parse_instruction\<close> answers an empty instruction without
  taking a token, the loop does not skip to the next line, and the state repeats.
\<close>

section \<open>Operations never add tokens\<close>

named_theorems progress

lemma current_advance [simp]: "ps_current (advance p) = ps_peek p"
proof -
  obtain tok p' where n: "next_token (p\<lparr>ps_current := ps_peek p\<rparr>) = (tok, p')" by fastforce
  from next_token_window [OF n] n show ?thesis by (simp add: advance_def Let_def)
qed

lemma advance_twice:
  "cur_type p \<noteq> TOK_EOF \<Longrightarrow> peek_type p \<noteq> TOK_EOF \<Longrightarrow> tokens_left (advance (advance p)) < tokens_left p"
  using advance_progress [of p] advance_progress [of "advance p"] by simp

lemma expect_tokens [progress]:
  "expect p ty = (b, p') \<Longrightarrow> ty \<noteq> TOK_EOF \<Longrightarrow> tokens_left p' \<le> tokens_left p"
  by (rule expect_le)

lemma mem_components_le [progress]:
  "mem_components mem p = Inr (m, p') \<Longrightarrow> tokens_left p' \<le> tokens_left p"
proof (induction mem p rule: mem_components.induct)
  case (1 mem p)
  show ?case
  proof (cases "cur_type p = TOK_RBRACKET \<or> cur_type p = TOK_EOF")
    case True
    with "1.prems" show ?thesis by (simp add: mem_components.simps)
  next
    case False
    with "1.prems" obtain m1 p1 where c: "mem_component mem p = Inr (m1, p1)"
      and r: "mem_components m1 p1 = Inr (m, p')"
      by (subst (asm) mem_components.simps) (auto split: sum.splits)
    from "1.IH" [OF False c refl r] mem_component_progress [OF c] show ?thesis by simp
  qed
qed

lemma close_bracket_le [progress]:
  "close_bracket mem p = Inr (m, p') \<Longrightarrow> tokens_left p' \<le> tokens_left p"
  using expect_le by (auto simp: close_bracket_def split: prod.splits bool.splits)

lemma absolute_operand_le [progress]:
  assumes "absolute_operand mem p = Inr (m, p')"
  shows "tokens_left p' \<le> tokens_left p"
proof -
  from assms have "cur_type p \<noteq> TOK_EOF" by (auto simp: absolute_operand_def split: if_splits)
  with assms advance_progress [of p] show ?thesis
    by (auto simp: absolute_operand_def split: if_splits dest!: close_bracket_le)
qed

lemma parse_memory_operand_le [progress]:
  assumes "parse_memory_operand p = Inr (m, p')"
  shows "tokens_left p' \<le> tokens_left p"
proof -
  obtain b q where e: "expect p TOK_LBRACKET = (b, q)" by fastforce
  have "tokens_left p' \<le> tokens_left q"
  proof (cases "cur_type q = TOK_IDENTIFIER \<and> strcase_eq (cur_text q) ''abs''")
    case True
    with advance_progress [of q] assms e show ?thesis
      by (auto simp: parse_memory_operand_def Let_def split: bool.splits dest!: absolute_operand_le)
  next
    case False
    with assms e show ?thesis
      by (auto simp: parse_memory_operand_def Let_def split: bool.splits sum.splits prod.splits if_splits
          dest!: close_bracket_le mem_components_le)
  qed
  with expect_le [OF e] show ?thesis by simp
qed

lemma memory_operand_le [progress]:
  "memory_operand seg p = Inr (op, p') \<Longrightarrow> tokens_left p' \<le> tokens_left p"
  by (auto simp: memory_operand_def split: sum.splits dest!: parse_memory_operand_le)

lemma label_or_difference_le [progress]:
  assumes "label_or_difference p = (op, p')" "cur_type p \<noteq> TOK_EOF"
  shows "tokens_left p' \<le> tokens_left p"
  using assms advance_progress [of p] advance_twice [of "advance p"]
  by (auto simp: label_or_difference_def Let_def split: if_splits)

lemma join_strings_le [progress]:
  "join_strings s p = (s', p') \<Longrightarrow> tokens_left p' \<le> tokens_left p"
proof (induction s p rule: join_strings.induct)
  case (1 s p)
  from "1.prems" "1.IH" advance_progress [of p] show ?case
    by (subst (asm) join_strings.simps) (fastforce split: if_splits)
qed

lemma parse_plain_operand_le [progress]:
  assumes "parse_plain_operand p = Inr (op, p')"
  shows "tokens_left p' \<le> tokens_left p"
proof -
  have ne: "cur_type p \<noteq> TOK_EOF"
    using assms by (auto simp: parse_plain_operand_def split: if_splits)
  note adv = advance_progress [OF ne]
  show ?thesis
  proof (cases "cur_type p = TOK_DOLLAR")
    case True
    with assms adv advance_progress [of "advance p"] show ?thesis
      by (auto simp: parse_plain_operand_def Let_def split: if_splits dest!: label_or_difference_le)
  next
    case False
    with assms ne adv show ?thesis
      by (auto simp: parse_plain_operand_def Let_def split: if_splits prod.splits
          dest!: label_or_difference_le memory_operand_le join_strings_le)
  qed
qed

lemma parse_operand_le [progress]:
  assumes "parse_operand p = Inr (op, p')"
  shows "tokens_left p' \<le> tokens_left p"
proof (cases "cur_type p = TOK_IDENTIFIER \<and> peek_type p = TOK_COLON
    \<and> parse_segment_override_name (cur_text p) \<noteq> MEM_SEG_DEFAULT")
  case True
  with assms advance_twice [of p] show ?thesis
    by (auto simp: parse_operand_def Let_def split: if_splits dest!: memory_operand_le)
qed (use assms in \<open>auto simp: parse_operand_def dest: parse_plain_operand_le\<close>)

lemma skip_comma_le: "tokens_left (skip_comma p) \<le> tokens_left p"
  using advance_progress [of p] by (auto simp: skip_comma_def)

lemma parse_operands_until_eol_le [progress]:
  "parse_operands_until_eol ops p = Inr (ops', p') \<Longrightarrow> tokens_left p' \<le> tokens_left p"
proof (induction ops p rule: parse_operands_until_eol.induct)
  case (1 ops p)
  from "1.prems" show ?case
  proof (subst (asm) parse_operands_until_eol.simps, goal_cases)
    case 1
    then show ?case
      using "1.IH" skip_comma_le
      by (fastforce split: if_splits sum.splits prod.splits dest: parse_operand_le intro: order_trans)
  qed
qed

lemma comm_operands_le [progress]:
  assumes "parse_comm_lcomm_operands p inst = Inr (i, p')"
  shows "tokens_left p' \<le> tokens_left p"
proof -
  let ?p1 = "skip_comma (advance p)"
  have ne: "cur_type p \<noteq> TOK_EOF" "cur_type ?p1 = TOK_NUMBER"
    using assms by (auto simp: parse_comm_lcomm_operands_def Let_def split: if_splits)
  have le: "tokens_left (advance ?p1) \<le> tokens_left p"
    using advance_progress [OF ne(1)] skip_comma_le [of "advance p"] advance_progress [of ?p1] ne(2) by simp
  have "tokens_left p' \<le> tokens_left (advance ?p1)"
    using assms advance_progress [of "advance ?p1"] advance_progress [of "advance (advance ?p1)"]
    by (auto simp: parse_comm_lcomm_operands_def Let_def split: if_splits)
  with le show ?thesis by simp
qed

section \<open>Lines\<close>

lemma equ_progress:
  assumes "maybe_parse_equ_directive p inst = Some (Inr (i, p'))"
  shows "tokens_left p' < tokens_left p"
proof -
  have "cur_type p = TOK_IDENTIFIER" "peek_type p = TOK_IDENTIFIER"
    using assms by (auto simp: maybe_parse_equ_directive_def split: if_splits)
  with advance_twice [of p] assms show ?thesis
    by (auto simp: maybe_parse_equ_directive_def Let_def split: if_splits sum.splits dest!: parse_operand_le)
qed

lemma section_shorthand_state:
  "maybe_apply_section_shorthand p inst s = Some (Inr (i, p')) \<Longrightarrow> p' = p"
  by (auto simp: maybe_apply_section_shorthand_def Let_def split: if_splits)

lemma mnemonic_line_progress:
  assumes "parse_mnemonic_line p inst = Inr (i, p')" "cur_type p \<noteq> TOK_EOF"
  shows "tokens_left p' < tokens_left p"
proof -
  have "tokens_left p' \<le> tokens_left (advance p)"
    using assms(1)
    by (auto simp: parse_mnemonic_line_def Let_def split: if_splits option.splits sum.splits
        dest!: section_shorthand_state comm_operands_le parse_operands_until_eol_le)
  with advance_progress [OF assms(2)] show ?thesis by simp
qed

text \<open>A token that starts no line.\<close>

definition stuck :: "parser_state \<Rightarrow> bool" where
  "stuck p \<longleftrightarrow> cur_type p \<noteq> TOK_IDENTIFIER \<and> cur_type p \<noteq> TOK_NEWLINE \<and> cur_type p \<noteq> TOK_EOF"

lemma equ_needs_identifier [simp]:
  "cur_type p \<noteq> TOK_IDENTIFIER \<Longrightarrow> maybe_parse_equ_directive p inst = None"
  by (simp add: maybe_parse_equ_directive_def)

lemma stuck_line: "stuck p \<Longrightarrow> parse_line p = Inr ([], p)"
  by (simp add: stuck_def parse_line_def parse_instruction_def start_inst_def zero_inst_def
      should_keep_instruction_def)

lemma parse_instruction_progress:
  assumes "parse_instruction p = Inr (i, p')" "cur_type p = TOK_IDENTIFIER"
  shows "tokens_left p' < tokens_left p"
proof (cases "peek_type p = TOK_COLON")
  case True
  let ?q = "advance (advance p)"
  have q: "tokens_left ?q < tokens_left p" using advance_twice [of p] assms(2) True by simp
  have "tokens_left p' \<le> tokens_left ?q"
    using assms True equ_progress mnemonic_line_progress
    by (fastforce simp: parse_instruction_def Let_def split: option.splits if_splits)
  with q show ?thesis by simp
next
  case False
  with assms show ?thesis
    by (auto simp: parse_instruction_def Let_def split: option.splits if_splits
        dest!: equ_progress mnemonic_line_progress)
qed

lemma parse_line_progress:
  assumes "parse_line p = Inr (kept, p')" "\<not> stuck p" "cur_type p \<noteq> TOK_EOF"
  shows "tokens_left p' < tokens_left p"
proof -
  obtain inst q where i: "parse_instruction p = Inr (inst, q)"
    and p': "p' = (if cur_type q = TOK_NEWLINE then advance q else q)"
    using assms(1) by (auto simp: parse_line_def split: sum.splits)
  show ?thesis
  proof (cases "cur_type p = TOK_IDENTIFIER")
    case True
    with parse_instruction_progress [OF i] advance_progress [of q] p' show ?thesis
      by (auto split: if_splits)
  next
    case False
    with assms(2,3) have "cur_type p = TOK_NEWLINE" by (simp add: stuck_def)
    moreover from this i have "q = p" by (simp add: parse_instruction_def)
    ultimately show ?thesis using p' advance_progress [of p] by simp
  qed
qed

section \<open>The loop\<close>

text \<open>The states of the loop.\<close>

inductive line_step :: "parser_state \<Rightarrow> parser_state \<Rightarrow> bool" where
  "cur_type p \<noteq> TOK_EOF \<Longrightarrow> parse_line p = Inr (kept, p') \<Longrightarrow> line_step p p'"

inductive_cases line_stepE: "line_step p p'"

definition reaches_stuck :: "parser_state \<Rightarrow> bool" where
  "reaches_stuck p \<longleftrightarrow> (\<exists>q. line_step\<^sup>*\<^sup>* p q \<and> stuck q)"

lemma stuck_repeats: "stuck p \<Longrightarrow> line_step p q \<Longrightarrow> q = p"
  by (auto elim!: line_stepE simp: stuck_line)

lemma stuck_self: "stuck p \<Longrightarrow> line_step p p"
  by (rule line_step.intros [of p "[]"]) (auto simp: stuck_line stuck_def)

lemma reaches_stuck_step:
  "line_step p q \<Longrightarrow> reaches_stuck p \<longleftrightarrow> stuck p \<or> reaches_stuck q"
proof
  assume s: "line_step p q" and "reaches_stuck p"
  then obtain r where r: "line_step\<^sup>*\<^sup>* p r" "stuck r" by (auto simp: reaches_stuck_def)
  from r(1) show "stuck p \<or> reaches_stuck q"
  proof (cases rule: converse_rtranclpE)
    case base
    with r(2) show ?thesis by simp
  next
    case (step q')
    from s step(1) have "q' = q" by (auto elim!: line_stepE)
    with step(2) r(2) show ?thesis by (auto simp: reaches_stuck_def)
  qed
next
  assume "line_step p q" "stuck p \<or> reaches_stuck q"
  then show "reaches_stuck p"
    by (auto simp: reaches_stuck_def intro: converse_rtranclp_into_rtranclp)
qed

lemma stuck_never_returns:
  assumes "parse_lines p insts = Some r"
  shows "\<not> stuck p"
proof (rule parse_lines.raw_induct [where P = "\<lambda>p insts r. \<not> stuck p", OF _ assms])
  fix loop p insts r
  assume ih: "\<And>p insts r. loop p insts = Some r \<Longrightarrow> \<not> stuck p"
    and b: "(if cur_type p = TOK_EOF then Some (Inr (insts, p))
      else case parse_line p of Inl e \<Rightarrow> Some (Inl e) | Inr (kept, p') \<Rightarrow> loop p' (insts @ kept)) = Some r"
  show "\<not> stuck p"
  proof
    assume s: "stuck p"
    then have "cur_type p \<noteq> TOK_EOF" by (simp add: stuck_def)
    with b stuck_line [OF s] have "loop p insts = Some r" by simp
    from ih [OF this] s show False by simp
  qed
qed

lemma parse_lines_step:
  "cur_type p \<noteq> TOK_EOF \<Longrightarrow> parse_line p = Inr (kept, p') \<Longrightarrow>
    parse_lines p insts = parse_lines p' (insts @ kept)"
  by (subst parse_lines.simps) simp

lemma parse_lines_returns_iff: "(\<exists>r. parse_lines p insts = Some r) \<longleftrightarrow> \<not> reaches_stuck p"
proof (induction "tokens_left p" arbitrary: p insts rule: less_induct)
  case less
  show ?case
  proof (cases "stuck p")
    case True
    then show ?thesis using stuck_never_returns by (auto simp: reaches_stuck_def)
  next
    case ns: False
    show ?thesis
    proof (cases "cur_type p = TOK_EOF \<or> (\<exists>e. parse_line p = Inl e)")
      case True
      then have "\<not> line_step p q" for q by (auto elim!: line_stepE)
      then have "\<not> reaches_stuck p"
        using ns by (auto simp: reaches_stuck_def elim: converse_rtranclpE)
      with True show ?thesis by (subst parse_lines.simps) auto
    next
      case False
      then obtain kept p' where l: "cur_type p \<noteq> TOK_EOF" "parse_line p = Inr (kept, p')"
        by (metis sum.exhaust surj_pair)
      from line_step.intros [OF l] ns have "reaches_stuck p \<longleftrightarrow> reaches_stuck p'"
        by (simp add: reaches_stuck_step)
      with less.hyps [OF parse_line_progress [OF l(2) ns l(1)]] parse_lines_step [OF l] show ?thesis
        by simp
    qed
  qed
qed

end
