(* ===== verification/Token_Streams.thy ===== *)
theory Token_Streams
  imports Parser_Progress Decode_Facts
begin

text \<open>
  What the tokenizer makes of printed text. \<open>lex_as\<close> relates a text to the list of its tokens,
  \<open>ahead\<close> a parser state to the tokens from the current one on; a printed number, name or
  punctuation mark is one token, and the parser takes tokens from the front of the list.
\<close>

section \<open>Token lists\<close>

type_synonym lexeme = "token_type \<times> string \<times> u64"

fun lex_as :: "string \<Rightarrow> lexeme list \<Rightarrow> bool" where
  "lex_as s [] \<longleftrightarrow> skip_blanks s = []"
| "lex_as s ((ty, t, v) # ts) \<longleftrightarrow>
     skip_blanks s \<noteq> [] \<and>
     (\<exists>r. scan_token (skip_blanks s) = (ty, t, v, r) \<and> lex_as r ts)"

declare skip_blanks.simps(2) [simp del]

lemma lex_asI:
  assumes "skip_blanks s = s'" "s' \<noteq> []" "scan_token s' = (ty, t, v, r)" "lex_as r ts"
  shows "lex_as s ((ty, t, v) # ts)"
  using assms by auto

definition is_lexeme :: "token \<Rightarrow> lexeme \<Rightarrow> bool" where
  "is_lexeme tok l \<longleftrightarrow> (tok_type tok, tok_text tok, tok_value tok) = l"

fun ahead :: "parser_state \<Rightarrow> lexeme list \<Rightarrow> bool" where
  "ahead p [] \<longleftrightarrow> cur_type p = TOK_EOF"
| "ahead p [l] \<longleftrightarrow> fst l \<noteq> TOK_EOF \<and> is_lexeme (ps_current p) l \<and> peek_type p = TOK_EOF"
| "ahead p (l # m # ls) \<longleftrightarrow>
     fst l \<noteq> TOK_EOF \<and> is_lexeme (ps_current p) l \<and> fst m \<noteq> TOK_EOF \<and> is_lexeme (ps_peek p) m \<and> lex_as (ps_pos p) ls"

lemma ahead_current:
  "ahead p ((ty, t, v) # ls) \<Longrightarrow> cur_type p = ty \<and> cur_text p = t \<and> cur_value p = v"
  by (cases ls) (auto simp: is_lexeme_def)

lemma ahead_peek: "ahead p (l # (ty, t, v) # ls) \<Longrightarrow> peek_type p = ty \<and> tok_text (ps_peek p) = t"
  by (auto simp: is_lexeme_def)

lemma ahead_last: "ahead p [l] \<Longrightarrow> peek_type p = TOK_EOF"
  by simp

lemma ahead_not_eof: "ahead p (l # ls) \<Longrightarrow> cur_type p \<noteq> TOK_EOF"
  by (cases l; cases ls) (auto simp: is_lexeme_def)

lemma next_token_lex_nil:
  "lex_as (ps_pos p) [] \<Longrightarrow> tok_type (fst (next_token p)) = TOK_EOF"
  by (simp add: next_token_def skip_whitespace_def Let_def)

lemma next_token_lex:
  assumes "lex_as (ps_pos p) ((ty, t, v) # ls)"
  shows "is_lexeme (fst (next_token p)) (ty, t, v) \<and> lex_as (ps_pos (snd (next_token p))) ls \<and> ty \<noteq> TOK_EOF"
proof -
  from assms obtain r where r: "skip_blanks (ps_pos p) \<noteq> []"
    "scan_token (skip_blanks (ps_pos p)) = (ty, t, v, r)" "lex_as r ls" by auto
  with scan_token_not_eof [OF r(2)] show ?thesis
    by (auto simp: next_token_def skip_whitespace_def parser_warn_ctx_def Let_def is_lexeme_def)
qed

lemma ahead_advance: "ahead p (l # ls) \<Longrightarrow> ahead (advance p) ls"
proof (cases ls)
  case Nil
  then show "ahead p (l # ls) \<Longrightarrow> ?thesis" by simp
next
  case (Cons m ms)
  assume a: "ahead p (l # ls)"
  let ?q = "p\<lparr>ps_current := ps_peek p\<rparr>"
  have ne: "peek_type p \<noteq> TOK_EOF" and m: "fst m \<noteq> TOK_EOF" "is_lexeme (ps_peek p) m"
    and lex: "lex_as (ps_pos ?q) ms"
    using a Cons by (cases m, auto simp: is_lexeme_def)
  have adv: "ps_peek (advance p) = fst (next_token ?q)" "ps_pos (advance p) = ps_pos (snd (next_token ?q))"
    using ne by (simp_all add: advance_def Let_def split: prod.splits)
  show ?thesis
  proof (cases ms)
    case Nil
    with Cons m adv next_token_lex_nil [of ?q] lex show ?thesis by simp
  next
    case (Cons n ns)
    with \<open>ls = m # ms\<close> m adv lex show ?thesis
      by (cases n) (use next_token_lex [of ?q] in auto)
  qed
qed

lemma ahead_init:
  assumes "lex_as s ts"
  shows "ahead (init_tokens (parser_init warn_all as_errors s)) ts"
proof -
  let ?p = "parser_init warn_all as_errors s"
  have pos: "ps_pos ?p = s" by (simp add: parser_init_def)
  obtain tok q where n: "next_token ?p = (tok, q)" by fastforce
  show ?thesis
  proof (cases ts)
    case Nil
    with assms n pos next_token_lex_nil [of ?p] show ?thesis
      by (simp add: init_tokens_def)
  next
    case (Cons l ls)
    obtain ty t v where l: "l = (ty, t, v)" by (cases l)
    from next_token_lex [of ?p ty t v ls] assms Cons l n pos
    have tok: "is_lexeme tok l" "ty \<noteq> TOK_EOF" "lex_as (ps_pos q) ls" by auto
    let ?r = "q\<lparr>ps_peek := tok, ps_current := tok\<rparr>"
    have "ahead ?r (l # l # ls)" using tok l by simp
    from ahead_advance [OF this] have "ahead (advance ?r) ts" unfolding Cons .
    moreover have "advance (q\<lparr>ps_peek := tok\<rparr>) = advance ?r"
      by (simp add: advance_def)
    ultimately show ?thesis using n by (simp add: init_tokens_def)
  qed
qed

declare ahead.simps [simp del]

section \<open>Printed pieces\<close>

text \<open>What may follow a number or a name.\<close>

definition ends_word :: "string \<Rightarrow> bool" where
  "ends_word r \<longleftrightarrow> (\<forall>c. r \<noteq> [] \<and> hd r = c \<longrightarrow> \<not> ident_char c \<and> \<not> c_isxdigit c)"

definition plain_start :: "char \<Rightarrow> bool" where
  "plain_start c \<longleftrightarrow> \<not> c_isspace c \<and> c \<noteq> CHR '';'' \<and> c \<noteq> CHR ''/''"

lemma LF_space: "c_isspace LF"
  by (simp add: c_isspace_def LF_def code_def)

lemma skip_blanks_plain: "plain_start c \<Longrightarrow> skip_blanks (c # s) = c # s"
  using LF_space by (auto simp: plain_start_def skip_blanks.simps)

lemma skip_space: "skip_blanks (CHR '' '' # s) = skip_blanks s"
  by (simp add: skip_blanks.simps c_isspace_def code_def LF_def)

lemma lex_space: "lex_as s ts \<Longrightarrow> lex_as (CHR '' '' # s) ts"
  by (cases ts) (auto simp: skip_space)

lemma lex_symbol:
  assumes "single_token c = Some ty" "lex_as r ts"
  shows "lex_as (c # r) ((ty, [], 0) # ts)"
proof -
  have "plain_start c \<and> c \<noteq> LF"
    using assms(1) by (auto simp: single_token_def plain_start_def c_isspace_def code_def LF_def split: if_splits)
  then show ?thesis
    by (intro lex_asI [OF skip_blanks_plain _ _ assms(2)]) (use assms(1) in \<open>auto simp: scan_token_def Let_def\<close>)
qed

lemma ident_body_word:
  assumes "\<forall>c\<in>set s. ident_char c" "r = [] \<or> \<not> ident_char (hd r)" "length s \<le> n"
  shows "ident_body n (s @ r) = (s, r)"
  using assms
proof (induction s arbitrary: n)
  case Nil
  then show ?case by (cases n; cases r) auto
next
  case (Cons c s)
  then show ?case by (cases n) auto
qed

text \<open>A name of letters, digits, \<open>_\<close>, \<open>.\<close> and \<open>@\<close> that does not start with a digit.\<close>

definition name_text :: "string \<Rightarrow> bool" where
  "name_text s \<longleftrightarrow> s \<noteq> [] \<and> ident_start (hd s) \<and> (\<forall>c\<in>set s. ident_char c) \<and> length s < MAX_LINE_LENGTH"

lemma ident_start_other:
  assumes "ident_start c"
  shows "plain_start c" "c \<noteq> LF" "single_token c = None" "c \<noteq> SQUOTE" "c \<noteq> DQUOTE" "\<not> c_isdigit c"
proof -
  note defs = ident_start_def c_isalpha_def code_def
  have other: "c \<noteq> x" if "\<not> ident_start x" for x using assms that by auto
  show "plain_start c" "\<not> c_isdigit c"
    using assms by (auto simp: defs plain_start_def c_isspace_def c_isdigit_def)
  show "c \<noteq> LF" "c \<noteq> SQUOTE" "c \<noteq> DQUOTE"
    by (rule other; simp add: defs LF_def SQUOTE_def DQUOTE_def)+
  have "c \<notin> set '':,[]+-*$''"
    using assms by (auto simp: defs)
  then show "single_token c = None" by (simp add: single_token_def)
qed

lemma lex_name:
  assumes "name_text s" "ends_word r" "lex_as r ts"
  shows "lex_as (s @ r) ((TOK_IDENTIFIER, s, 0) # ts)"
proof -
  obtain c s' where s: "s = c # s'" using assms(1) by (cases s) (auto simp: name_text_def)
  have c: "ident_start c" using assms(1) s by (simp add: name_text_def)
  have "ident_body (MAX_LINE_LENGTH - 1) (s @ r) = (s, r)"
    by (rule ident_body_word) (use assms in \<open>auto simp: name_text_def ends_word_def\<close>)
  then have "scan_token (s @ r) = (TOK_IDENTIFIER, s, 0, r)"
    using ident_start_other [OF c] c s by (simp add: scan_token_def Let_def)
  then show ?thesis
    using lex_asI [OF skip_blanks_plain [OF ident_start_other(1) [OF c]]] assms(3) by (simp add: s)
qed

lemma hex_digit_facts:
  "c_isxdigit (hex_digit n)" "digit_value (hex_digit n) = n mod 16"
proof -
  have "list_all (\<lambda>i. c_isxdigit (''0123456789abcdef'' ! i) \<and> digit_value (''0123456789abcdef'' ! i) = i) [0..<16]"
    by code_simp
  then show "c_isxdigit (hex_digit n)" "digit_value (hex_digit n) = n mod 16"
    by (simp_all add: hex_digit_def list_all_iff)
qed

lemma hex_of_digits: "\<forall>c\<in>set (hex_of n). c_isxdigit c \<and> digit_value c < 16"
proof (induction n rule: hex_of.induct)
  case (1 n)
  then show ?case
    by (cases "n < 16") (simp_all add: hex_of.simps [of n] hex_digit_facts)
qed

lemma fold_hex_of: "foldl (\<lambda>v c. 16 * v + digit_value c) 0 (hex_of n) = n"
proof (induction n rule: hex_of.induct)
  case (1 n)
  then show ?case
    by (cases "n < 16") (simp_all add: hex_of.simps [of n] hex_digit_facts)
qed

lemma strtoll_hex_of: "strtoll 16 (hex_of n) = min (2 ^ 63 - 1) n"
proof -
  have "takeWhile (\<lambda>c. digit_value c < 16) (hex_of n) = hex_of n"
    using hex_of_digits by (auto simp only: takeWhile_eq_all_conv)
  then show ?thesis unfolding strtoll_def by (simp only: fold_hex_of)
qed

lemma parse_number_hex_text: "parse_number (hex_text n) = word_of_nat (min (2 ^ 63 - 1) n)"
  by (simp add: parse_number_def has_prefix_def hex_text_def strtoll_hex_of)

lemma lex_hex_text:
  assumes "n < 2 ^ 64" "ends_word r" "lex_as r ts"
  shows "lex_as (hex_text n @ r) ((TOK_NUMBER, hex_text n, word_of_nat (min (2 ^ 63 - 1) n)) # ts)"
proof -
  have len: "length (hex_of n) \<le> 16" using length_hex_of [of n 16] assms(1) by simp
  have tw: "takeWhile c_isxdigit (hex_of n @ r) = hex_of n" "dropWhile c_isxdigit (hex_of n @ r) = r"
    using hex_of_digits [of n] assms(2) by (cases r; auto simp: ends_word_def)+
  have lexeme: "number_lexeme (hex_text n @ r) = (hex_text n, r)"
    by (simp add: number_lexeme_def hex_text_def has_prefix_def tw)
  have "scan_token (hex_text n @ r) = (TOK_NUMBER, hex_text n, word_of_nat (min (2 ^ 63 - 1) n), r)"
    using lexeme len parse_number_hex_text [of n]
    by (simp add: scan_token_def Let_def hex_text_def LF_def single_token_def SQUOTE_def DQUOTE_def
        c_isdigit_def code_def)
  moreover have "skip_blanks (hex_text n @ r) = hex_text n @ r"
    by (simp add: hex_text_def LF_def c_isspace_def code_def skip_blanks.simps)
  moreover have "hex_text n @ r \<noteq> []" by (simp add: hex_text_def)
  ultimately show ?thesis using assms(3) by (blast intro: lex_asI)
qed

end
