(* ===== verification/Printed_Operands.thy ===== *)
theory Printed_Operands
  imports Token_Streams
begin

text \<open>
  The parser reads what the disassembler prints: registers, unsigned numbers and memory
  operands in every form \<open>print_mem\<close> produces, and lines of a mnemonic with two such operands.
\<close>

section \<open>Registers and scales\<close>

lemma reg_names: "list_all (\<lambda>e. name_text (fst e) \<and> \<not> strcase_eq (fst e) ''equ'' \<and> \<not> strcase_eq (fst e) ''abs''
    \<and> 0 \<le> fst (snd e)) reg_table"
  unfolding reg_table_def by code_simp

lemma reg_name_facts:
  assumes "(n, r, sz) \<in> set reg_table"
  shows "name_text n" "\<not> strcase_eq n ''equ''" "\<not> strcase_eq n ''abs''" "r \<noteq> REG_NONE"
    "parse_register n = (r, sz)"
  using assms reg_names parse_listed_name [OF assms strcase_eq_refl] by (auto simp: list_all_iff)

lemma reg64_listed: "b < 16 \<Longrightarrow> (reg64_name b, int b, REG_SIZE_64) \<in> set reg_table"
proof -
  have "list_all (\<lambda>b. (reg64_name b, int b, REG_SIZE_64) \<in> set reg_table) [0..<16]"
    by code_simp
  then show "b < 16 \<Longrightarrow> ?thesis" by (simp add: list_all_iff)
qed

lemma rip_listed: "(''rip'', 32, REG_SIZE_64) \<in> set reg_table"
  by (simp add: reg_table_def)

definition scale_ok :: "nat \<Rightarrow> bool" where
  "scale_ok s \<longleftrightarrow> s \<in> {1, 2, 4, 8}"

lemma lex_scale:
  assumes "scale_ok s" "ends_word r" "lex_as r ts"
  shows "lex_as (scale_text s @ r) ((TOK_NUMBER, scale_text s, word_of_nat s) # ts)"
proof -
  have tw: "takeWhile c_isxdigit r = []" "dropWhile c_isxdigit r = r"
    using assms(2) by (cases r; simp add: ends_word_def)+
  have "list_all (\<lambda>s. hex_digit s \<noteq> CHR ''0'' \<and> c_isdigit (hex_digit s) \<and> plain_start (hex_digit s)
      \<and> hex_digit s \<noteq> LF \<and> single_token (hex_digit s) = None \<and> hex_digit s \<noteq> SQUOTE \<and> hex_digit s \<noteq> DQUOTE
      \<and> digit_value (hex_digit s) = s) [1, 2, 4, 8]"
    by code_simp
  with assms(1) have s: "hex_digit s \<noteq> CHR ''0''" "c_isdigit (hex_digit s)" "plain_start (hex_digit s)"
      "hex_digit s \<noteq> LF" "single_token (hex_digit s) = None" "hex_digit s \<noteq> SQUOTE" "hex_digit s \<noteq> DQUOTE"
      "digit_value (hex_digit s) = s" "s < 10"
    by (auto simp: scale_ok_def)
  then have num: "parse_number (scale_text s) = word_of_nat s"
    by (simp add: parse_number_def scale_text_def has_prefix_def strtoll_def)
  have "number_lexeme (hex_digit s # r) = ([hex_digit s], r)"
    using s tw by (simp add: number_lexeme_def has_prefix_def isdigit_isxdigit split: list.splits)
  then have "scan_token (hex_digit s # r) = (TOK_NUMBER, scale_text s, word_of_nat s, r)"
    using s num by (simp add: scan_token_def Let_def scale_text_def)
  then show ?thesis
    using lex_asI [OF skip_blanks_plain [OF s(3)] _ _ assms(3)] by (simp add: scale_text_def)
qed

section \<open>Components of a memory operand\<close>

text \<open>\<open>component m ts m'\<close>: with the tokens \<open>ts\<close> in front and a further punctuation mark, one
  iteration takes \<open>ts\<close> and turns the operand \<open>m\<close> into \<open>m'\<close>.\<close>

definition punctuation :: "lexeme list \<Rightarrow> bool" where
  "punctuation us \<longleftrightarrow> us \<noteq> [] \<and> fst (hd us) \<noteq> TOK_STAR \<and> fst (snd (hd us)) = []"

definition component :: "mem_operand \<Rightarrow> lexeme list \<Rightarrow> mem_operand \<Rightarrow> bool" where
  "component m ts m' \<longleftrightarrow>
     (\<forall>p us. ahead p (ts @ us) \<longrightarrow> punctuation us \<longrightarrow>
        cur_type p \<noteq> TOK_RBRACKET \<and> cur_type p \<noteq> TOK_EOF \<and>
        (\<exists>p'. mem_component m p = Inr (m', p') \<and> ahead p' us))"

lemma componentI:
  assumes "\<And>p us. ahead p (ts @ us) \<Longrightarrow> punctuation us \<Longrightarrow>
      cur_type p \<noteq> TOK_RBRACKET \<and> cur_type p \<noteq> TOK_EOF \<and> (\<exists>p'. mem_component m p = Inr (m', p') \<and> ahead p' us)"
  shows "component m ts m'"
  using assms by (auto simp: component_def)

lemma expect_eq: "cur_type p = ty \<Longrightarrow> expect p ty = (True, advance p)"
  and expect_neq: "cur_type p \<noteq> ty \<Longrightarrow> expect p ty = (False, p)"
  by (simp_all add: expect_def)

lemma punctuation_current:
  assumes "ahead p us" "punctuation us"
  shows "cur_type p \<noteq> TOK_STAR" "cur_text p = []"
  using assms by (cases us; cases "hd us"; auto simp: punctuation_def dest!: ahead_current)+

lemma rip_word: "strcase_eq [] ''rip'' = False"
  by (simp add: strcase_eq_def)

lemma base_component:
  assumes "b < 16" "\<not> mem_has_base m"
  shows "component m [(TOK_IDENTIFIER, reg64_name b, 0)] (m\<lparr>mem_base := int b, mem_has_base := True\<rparr>)"
proof (rule componentI)
  fix p us assume a: "ahead p ([(TOK_IDENTIFIER, reg64_name b, 0)] @ us)" and u: "punctuation us"
  have c: "cur_type p = TOK_IDENTIFIER" "cur_text p = reg64_name b"
    using ahead_current [OF a [unfolded append_Cons]] by simp_all
  from ahead_advance [of p] a have adv: "ahead (advance p) us" by simp
  note n = punctuation_current [OF adv u]
  have "mem_component m p = Inr (m\<lparr>mem_base := int b, mem_has_base := True\<rparr>, advance p)"
    using assms n reg_name_facts(4,5) [OF reg64_listed [OF assms(1)]]
    by (simp add: mem_component_def c register_component_def rip_word expect_neq)
  with c adv show "cur_type p \<noteq> TOK_RBRACKET \<and> cur_type p \<noteq> TOK_EOF
      \<and> (\<exists>p'. mem_component m p = Inr (m\<lparr>mem_base := int b, mem_has_base := True\<rparr>, p') \<and> ahead p' us)"
    by simp
qed

lemma rip_component:
  "component m [(TOK_IDENTIFIER, ''rip'', 0)] (m\<lparr>mem_is_rip_relative := True\<rparr>)"
proof (rule componentI)
  fix p us assume a: "ahead p ([(TOK_IDENTIFIER, ''rip'', 0)] @ us)"
  have c: "cur_type p = TOK_IDENTIFIER" "cur_text p = ''rip''"
    using ahead_current [OF a [unfolded append_Cons]] by simp_all
  from ahead_advance [of p] a have adv: "ahead (advance p) us" by simp
  have "mem_component m p = Inr (m\<lparr>mem_is_rip_relative := True\<rparr>, advance p)"
    using reg_name_facts(5) [OF rip_listed] by (simp add: mem_component_def c register_component_def)
  with c adv show "cur_type p \<noteq> TOK_RBRACKET \<and> cur_type p \<noteq> TOK_EOF
      \<and> (\<exists>p'. mem_component m p = Inr (m\<lparr>mem_is_rip_relative := True\<rparr>, p') \<and> ahead p' us)"
    by simp
qed

definition with_index :: "nat \<Rightarrow> nat \<Rightarrow> mem_operand \<Rightarrow> mem_operand" where
  "with_index i s m = m\<lparr>mem_index := int i, mem_has_index := True, mem_scale := int s\<rparr>"

lemma scaled_index_ahead:
  assumes "ahead p ((TOK_NUMBER, t, word_of_nat s) # us)" "scale_ok s"
  shows "scaled_index (int i) m p = Inr (with_index i s m, advance p)" "ahead (advance p) us"
proof -
  have "sint (word_of_nat s :: u64) = int s"
    using assms(2) by (auto simp: scale_ok_def)
  then show "scaled_index (int i) m p = Inr (with_index i s m, advance p)"
    using ahead_current [OF assms(1)] assms(2)
    by (auto simp: scaled_index_def is_valid_scale_factor_def scale_ok_def with_index_def)
  show "ahead (advance p) us" by (rule ahead_advance [OF assms(1)])
qed

abbreviation index_tokens :: "nat \<Rightarrow> nat \<Rightarrow> lexeme list" where
  "index_tokens i s \<equiv>
     [(TOK_IDENTIFIER, reg64_name i, 0), (TOK_STAR, [], 0), (TOK_NUMBER, scale_text s, word_of_nat s)]"

lemma index_component:
  assumes "i < 16" "scale_ok s"
  shows "component m (index_tokens i s) (with_index i s m)"
proof (rule componentI)
  fix p us assume a: "ahead p (index_tokens i s @ us)"
  from ahead_current [OF a [unfolded append_Cons]]
  have c: "cur_type p = TOK_IDENTIFIER" "cur_text p = reg64_name i" by simp_all
  from ahead_advance [of p] a
  have a1: "ahead (advance p) ((TOK_STAR, [], 0) # (TOK_NUMBER, scale_text s, word_of_nat s) # us)" by simp
  from ahead_current [OF a1] have c1: "cur_type (advance p) = TOK_STAR" "cur_text (advance p) = []" by simp_all
  note a2 = ahead_advance [OF a1]
  have "mem_component m p = scaled_index (int i) m (advance (advance p))"
    using assms c1 reg_name_facts(4,5) [OF reg64_listed [OF assms(1)]]
    by (simp add: mem_component_def c register_component_def rip_word expect_eq)
  with c scaled_index_ahead [OF a2 assms(2)] show "cur_type p \<noteq> TOK_RBRACKET \<and> cur_type p \<noteq> TOK_EOF
      \<and> (\<exists>p'. mem_component m p = Inr (with_index i s m, p') \<and> ahead p' us)"
    by simp
qed

lemma plus_index_component:
  assumes "i < 16" "scale_ok s"
  shows "component m ((TOK_PLUS, [], 0) # index_tokens i s) (with_index i s m)"
proof (rule componentI)
  fix p us assume a: "ahead p (((TOK_PLUS, [], 0) # index_tokens i s) @ us)"
  from ahead_current [OF a [unfolded append_Cons]] have c: "cur_type p = TOK_PLUS" by simp
  from ahead_advance [of p] a have a1: "ahead (advance p) (index_tokens i s @ us)" by simp
  from ahead_current [OF a1 [unfolded append_Cons]]
  have c1: "cur_type (advance p) = TOK_IDENTIFIER" "cur_text (advance p) = reg64_name i" by simp_all
  from ahead_advance [of "advance p"] a1
  have a2: "ahead (advance (advance p)) ((TOK_STAR, [], 0) # (TOK_NUMBER, scale_text s, word_of_nat s) # us)"
    by simp
  from ahead_current [OF a2] have c2: "cur_type (advance (advance p)) = TOK_STAR" by simp
  note a3 = ahead_advance [OF a2]
  have "mem_component m p = scaled_index (int i) m (advance (advance (advance p)))"
    using assms c1 c2 reg_name_facts(4,5) [OF reg64_listed [OF assms(1)]]
    by (simp add: mem_component_def c signed_component_def expect_eq)
  with c scaled_index_ahead [OF a3 assms(2)] show "cur_type p \<noteq> TOK_RBRACKET \<and> cur_type p \<noteq> TOK_EOF
      \<and> (\<exists>p'. mem_component m p = Inr (with_index i s m, p') \<and> ahead p' us)"
    by simp
qed

definition with_disp :: "u32 \<Rightarrow> mem_operand \<Rightarrow> mem_operand" where
  "with_disp d m = m\<lparr>mem_displacement := mem_displacement m + d, mem_has_displacement := True\<rparr>"

lemma number_component: "component m [(TOK_NUMBER, t, v)] (with_disp (ucast v) m)"
proof (rule componentI)
  fix p us assume a: "ahead p ([(TOK_NUMBER, t, v)] @ us)"
  have c: "cur_type p = TOK_NUMBER" "cur_value p = v"
    using ahead_current [OF a [unfolded append_Cons]] by simp_all
  from ahead_advance [of p] a have adv: "ahead (advance p) us" by simp
  with c show "cur_type p \<noteq> TOK_RBRACKET \<and> cur_type p \<noteq> TOK_EOF
      \<and> (\<exists>p'. mem_component m p = Inr (with_disp (ucast v) m, p') \<and> ahead p' us)"
    by (simp add: mem_component_def with_disp_def)
qed

lemma signed_number_component:
  "component m [(if neg then TOK_MINUS else TOK_PLUS, [], 0), (TOK_NUMBER, t, v)]
     (with_disp (if neg then - ucast v else ucast v) m)"
proof (rule componentI)
  fix p us assume a: "ahead p ([(if neg then TOK_MINUS else TOK_PLUS, [], 0), (TOK_NUMBER, t, v)] @ us)"
  from ahead_current [OF a [unfolded append_Cons]]
  have c: "cur_type p = (if neg then TOK_MINUS else TOK_PLUS)" by simp
  from ahead_advance [of p] a have a1: "ahead (advance p) ((TOK_NUMBER, t, v) # us)" by simp
  from ahead_current [OF a1] have c1: "cur_type (advance p) = TOK_NUMBER" "cur_value (advance p) = v" by simp_all
  from ahead_advance [OF a1] c c1 show "cur_type p \<noteq> TOK_RBRACKET \<and> cur_type p \<noteq> TOK_EOF
      \<and> (\<exists>p'. mem_component m p = Inr (with_disp (if neg then - ucast v else ucast v) m, p') \<and> ahead p' us)"
    by (simp add: mem_component_def signed_component_def with_disp_def Let_def)
qed

end
