(* ===== verification/Printed_Lines.thy ===== *)
theory Printed_Lines
  imports Printed_Operands
begin

text \<open>
  Whole operands and lines: the parser on \<open>print_mem\<close>, on a register name, on an unsigned
  number, and on a mnemonic with two of them.
\<close>

declare lex_as.simps(2) [simp del]

section \<open>Memory operands\<close>

text \<open>The memory operand that the text of a decoded one stands for.\<close>

definition shows_disp :: "rm_mem \<Rightarrow> bool" where
  "shows_disp m \<longleftrightarrow> rm_rip m \<or> 0 < rm_disp_size m \<or> (rm_base m = None \<and> rm_index m = None)"

definition mem_of :: "rm_mem \<Rightarrow> mem_operand" where
  "mem_of m = zero_mem\<lparr>
     mem_base := (case rm_base m of Some b \<Rightarrow> if rm_rip m then 0 else int b | None \<Rightarrow> 0),
     mem_has_base := (rm_base m \<noteq> None \<and> \<not> rm_rip m),
     mem_index := (case rm_index m of Some (i, s) \<Rightarrow> if rm_rip m then 0 else int i | None \<Rightarrow> 0),
     mem_has_index := (rm_index m \<noteq> None \<and> \<not> rm_rip m),
     mem_scale := (case rm_index m of Some (i, s) \<Rightarrow> if rm_rip m then 1 else int s | None \<Rightarrow> 1),
     mem_is_rip_relative := rm_rip m,
     mem_displacement := (if shows_disp m then rm_disp m else 0),
     mem_has_displacement := shows_disp m\<rparr>"

definition mem_printable :: "rm_mem \<Rightarrow> bool" where
  "mem_printable m \<longleftrightarrow>
     (case rm_base m of Some b \<Rightarrow> b < 16 | None \<Rightarrow> True) \<and>
     (case rm_index m of Some (i, s) \<Rightarrow> i < 16 \<and> scale_ok s | None \<Rightarrow> True)"

text \<open>A list of components and the operand it builds.\<close>

inductive components :: "mem_operand \<Rightarrow> lexeme list \<Rightarrow> mem_operand \<Rightarrow> bool" where
  none: "components m [] m"
| some: "component m ts m' \<Longrightarrow> components m' us m'' \<Longrightarrow> ts \<noteq> [] \<Longrightarrow> us = [] \<or> punctuation us \<Longrightarrow>
    components m (ts @ us) m''"

abbreviation closing :: "lexeme" where
  "closing \<equiv> (TOK_RBRACKET, [], 0)"

lemma components_run:
  "components m ts m' \<Longrightarrow> ahead p (ts @ closing # us) \<Longrightarrow>
    \<exists>p'. mem_components m p = Inr (m', p') \<and> ahead p' (closing # us)"
proof (induction arbitrary: p rule: components.induct)
  case (none m)
  then have "ahead p (closing # us)" by simp
  moreover from ahead_current [OF this] have "mem_components m p = Inr (m, p)"
    by (subst mem_components.simps) simp
  ultimately show ?case by blast
next
  case (some m ts m' vs m'')
  have "punctuation (vs @ closing # us)"
    using some.hyps(4) by (auto simp: punctuation_def)
  moreover have "ahead p (ts @ (vs @ closing # us))" using some.prems by simp
  ultimately obtain p1 where p1: "cur_type p \<noteq> TOK_RBRACKET" "cur_type p \<noteq> TOK_EOF"
      "mem_component m p = Inr (m', p1)" "ahead p1 (vs @ closing # us)"
    using some.hyps(1) unfolding component_def by blast
  from some.IH [OF p1(4)] obtain p' where "mem_components m' p1 = Inr (m'', p')" "ahead p' (closing # us)"
    by blast
  moreover from p1 have "mem_components m p = mem_components m' p1"
    by (subst mem_components.simps) simp
  ultimately show ?case by auto
qed

text \<open>The displacement tokens.\<close>

definition hex_lexeme :: "nat \<Rightarrow> lexeme" where
  "hex_lexeme n = (TOK_NUMBER, hex_text n, word_of_nat n)"

lemma lex_hex_small:
  assumes "n < 2 ^ 63" "ends_word r" "lex_as r ts"
  shows "lex_as (hex_text n @ r) (hex_lexeme n # ts)"
proof -
  have "min (2 ^ 63 - 1) n = n" "n < 2 ^ 64" using assms(1) by simp_all
  with lex_hex_text [OF _ assms(2,3), of n] show ?thesis by (simp only: hex_lexeme_def)
qed

definition sign_lexeme :: "bool \<Rightarrow> lexeme" where
  "sign_lexeme neg = (if neg then TOK_MINUS else TOK_PLUS, [], 0)"

lemma signs: "single_token CHR ''-'' = Some TOK_MINUS" "single_token CHR ''+'' = Some TOK_PLUS"
    "single_token CHR ''*'' = Some TOK_STAR" "single_token CHR ''['' = Some TOK_LBRACKET"
    "single_token CHR '']'' = Some TOK_RBRACKET" "single_token CHR '','' = Some TOK_COMMA"
  by (simp_all add: single_token_def)

lemma ends_word_symbol: "c \<in> set ''-+*[], '' \<Longrightarrow> ends_word (c # r)"
  by (auto simp: ends_word_def ident_char_def c_isalnum_def c_isalpha_def c_isdigit_def c_isxdigit_def code_def)

lemma u32_small: "unat (d :: u32) < 2 ^ 63"
  by (rule order.strict_trans2 [OF unsigned_less]) simp

lemma ucast_u32_back [simp]: "ucast (ucast (d :: u32) :: u64) = d"
  by (rule bit_word_eqI) (simp add: bit_simps)

definition disp_lexemes :: "bool \<Rightarrow> u32 \<Rightarrow> lexeme list" where
  "disp_lexemes needs_plus d =
     (if \<not> needs_plus then [hex_lexeme (unat d)]
      else if sint d < 0 then [sign_lexeme True, hex_lexeme (unat (- d))]
      else [sign_lexeme False, hex_lexeme (unat d)])"

lemma lex_disp:
  assumes "ends_word r" "lex_as r ts"
  shows "lex_as (disp_text np d @ r) (disp_lexemes np d @ ts)"
  using lex_hex_small [OF u32_small assms]
  by (auto simp: disp_text_def disp_lexemes_def sign_lexeme_def intro!: lex_symbol signs)

lemma component_disp: "component m (disp_lexemes np d) (with_disp d m)"
  using number_component [of m "hex_text (unat d)" "word_of_nat (unat d)"]
    signed_number_component [of m True "hex_text (unat (- d))" "word_of_nat (unat (- d))"]
    signed_number_component [of m False "hex_text (unat d)" "word_of_nat (unat d)"]
  by (simp add: disp_lexemes_def sign_lexeme_def hex_lexeme_def)

lemma u64_of_nonneg: "0 \<le> i \<Longrightarrow> i < 2 ^ 32 \<Longrightarrow> unat (word_of_int i :: u64) = nat i"
  by (subst unsigned_of_int, subst take_bit_int_eq_self) simp_all

lemma u32_of_nonneg: "0 \<le> i \<Longrightarrow> i < 2 ^ 32 \<Longrightarrow> unat (word_of_int i :: u32) = nat i"
  by (subst unsigned_of_int, subst take_bit_int_eq_self) simp_all

lemma append_with_sign_disp: "append_with_sign (scast d :: u64) = disp_text True (d :: u32)"
proof -
  have s: "sint (scast d :: u64) = sint d"
    using sint_less [of d] sint_greater_eq [of d]
    by (simp add: signed_scast_eq signed_take_bit_int_eq_self)
  have w64: "(scast d :: u64) = word_of_int (sint d)" "- (scast d :: u64) = word_of_int (- sint d)"
    by (simp_all only: scast_eq of_int_minus)
  have w32: "word_of_int (sint d) = d" "word_of_int (- sint d) = - d"
    by (simp_all only: of_int_minus of_int_sint scast_id)
  have neg: "unat (- (scast d :: u64)) = unat (- d)" if "sint d < 0"
  proof -
    have r: "0 \<le> - sint d" "- sint d < 2 ^ 32" using that sint_greater_eq [of d] by simp_all
    from u64_of_nonneg [OF r] u32_of_nonneg [OF r] show ?thesis by (simp only: w64(2) w32)
  qed
  have pos: "unat (scast d :: u64) = unat d" if "\<not> sint d < 0"
  proof -
    have r: "0 \<le> sint d" "sint d < 2 ^ 32" using that sint_less [of d] by simp_all
    from u64_of_nonneg [OF r] u32_of_nonneg [OF r] show ?thesis by (simp only: w64(1) w32)
  qed
  have zero: "unat d = 0" if "sint d = 0"
    using u32_of_nonneg [of "sint d"] w32(1) that by (simp only:) simp
  show ?thesis
    using s neg pos zero
    by (cases "sint d < 0"; cases "sint d = 0") (simp_all add: append_with_sign_def disp_text_def hex_text_def hex_of.simps hex_digit_def)
qed

text \<open>The tokens between the brackets.\<close>

definition mem_lexemes :: "rm_mem \<Rightarrow> lexeme list" where
  "mem_lexemes m =
     (if rm_rip m then (TOK_IDENTIFIER, ''rip'', 0) # disp_lexemes True (rm_disp m)
      else (case rm_base m of Some b \<Rightarrow> [(TOK_IDENTIFIER, reg64_name b, 0)] | None \<Rightarrow> []) @
        (case rm_index m of
           Some (i, s) \<Rightarrow> (if rm_base m \<noteq> None then [sign_lexeme False] else []) @ index_tokens i s
         | None \<Rightarrow> []) @
        (if shows_disp m then disp_lexemes (rm_base m \<noteq> None \<or> rm_index m \<noteq> None) (rm_disp m) else []))"

lemma shows_disp_alt: "rm_rip m \<Longrightarrow> shows_disp m"
  by (simp add: shows_disp_def)

lemma lex_index:
  assumes "i < 16" "scale_ok s" "ends_word r" "lex_as r ts"
  shows "lex_as (reg64_name i @ ''*'' @ scale_text s @ r) (index_tokens i s @ ts)"
  using lex_name [OF reg_name_facts(1) [OF reg64_listed [OF assms(1)]] ends_word_symbol
      lex_symbol [OF signs(3) lex_scale [OF assms(2-4)]]]
  by simp

lemma lex_print_mem:
  assumes "mem_printable m" "lex_as r ts"
  shows "lex_as (print_mem m @ r) ((TOK_LBRACKET, [], 0) # mem_lexemes m @ closing # ts)"
proof -
  let ?np = "rm_base m \<noteq> None \<or> rm_index m \<noteq> None"
  let ?base = "case rm_base m of Some b \<Rightarrow> reg64_name b | None \<Rightarrow> []"
  let ?index = "case rm_index m of
     Some (i, s) \<Rightarrow> (if rm_base m \<noteq> None then ''+'' else []) @ reg64_name i @ ''*'' @ scale_text s | None \<Rightarrow> []"
  let ?disp = "if shows_disp m then disp_text ?np (rm_disp m) else []"
  have close: "ends_word (CHR '']'' # r)" "lex_as (CHR '']'' # r) (closing # ts)"
    by (auto intro: ends_word_symbol lex_symbol signs assms(2))
  show ?thesis
  proof (cases "rm_rip m")
    case True
    have "lex_as (''rip'' @ disp_text True (rm_disp m) @ CHR '']'' # r)
        ((TOK_IDENTIFIER, ''rip'', 0) # disp_lexemes True (rm_disp m) @ closing # ts)"
      by (rule lex_name [OF reg_name_facts(1) [OF rip_listed] _ lex_disp [OF close]])
        (simp add: disp_text_def ends_word_symbol)
    from lex_symbol [OF signs(4) this] True show ?thesis
      by (simp add: print_mem_def mem_lexemes_def append_with_sign_disp)
  next
    case False
    have d: "lex_as (?disp @ CHR '']'' # r)
        ((if shows_disp m then disp_lexemes ?np (rm_disp m) else []) @ closing # ts)"
      using lex_disp [OF close] close(2) by simp
    have d_end: "?np \<Longrightarrow> ends_word (?disp @ CHR '']'' # r)"
      using close(1) by (auto simp: disp_text_def ends_word_symbol)
    have i: "lex_as (?index @ ?disp @ CHR '']'' # r)
        ((case rm_index m of
            Some (i, s) \<Rightarrow> (if rm_base m \<noteq> None then [sign_lexeme False] else []) @ index_tokens i s
          | None \<Rightarrow> []) @
         (if shows_disp m then disp_lexemes ?np (rm_disp m) else []) @ closing # ts)"
    proof (cases "rm_index m")
      case (Some pair)
      obtain i s where pair: "pair = (i, s)" by (cases pair)
      have ok: "i < 16" "scale_ok s" using assms(1) Some pair by (simp_all add: mem_printable_def)
      have "ends_word (?disp @ CHR '']'' # r)" using d_end Some by simp
      from lex_index [OF ok this d] lex_symbol [OF signs(2) lex_index [OF ok this d]] Some pair
      show ?thesis by (simp add: sign_lexeme_def)
    qed (use d in simp)
    have i_end: "rm_base m \<noteq> None \<Longrightarrow> ends_word (?index @ ?disp @ CHR '']'' # r)"
      using d_end by (auto split: option.splits prod.splits simp: ends_word_symbol)
    have "lex_as (?base @ ?index @ ?disp @ CHR '']'' # r) (mem_lexemes m @ closing # ts)"
    proof (cases "rm_base m")
      case (Some b)
      have "b < 16" using assms(1) Some by (simp add: mem_printable_def)
      from lex_name [OF reg_name_facts(1) [OF reg64_listed [OF this]] _ i] i_end False Some
      show ?thesis by (simp add: mem_lexemes_def)
    qed (use i False in \<open>simp add: mem_lexemes_def\<close>)
    from lex_symbol [OF signs(4) this] False show ?thesis
      by (simp add: print_mem_def shows_disp_def)
  qed
qed

lemma components_one: "component m ts m' \<Longrightarrow> ts \<noteq> [] \<Longrightarrow> components m ts m'"
  using components.some [OF _ components.none, of m ts m'] by simp

lemma disp_lexemes_punctuation: "punctuation (disp_lexemes True d)" "disp_lexemes np d \<noteq> []"
  by (simp_all add: punctuation_def disp_lexemes_def sign_lexeme_def)

lemma components_disp:
  "components m (disp_lexemes np d) (with_disp d m)"
  by (rule components_one [OF component_disp disp_lexemes_punctuation(2)])

lemma components_opt_disp:
  "components m (if b then disp_lexemes np d else []) (if b then with_disp d m else m)"
  using components_disp components.none by simp

lemma components_mem:
  assumes "mem_printable m"
  shows "components (zero_mem\<lparr>mem_scale := 1\<rparr>) (mem_lexemes m) (mem_of m)"
proof -
  let ?z = "zero_mem\<lparr>mem_scale := 1\<rparr>"
  let ?d = "rm_disp m"
  let ?np = "rm_base m \<noteq> None \<or> rm_index m \<noteq> None"
  let ?tail = "\<lambda>np. if shows_disp m then disp_lexemes np ?d else []"
  have tail: "?tail True = [] \<or> punctuation (?tail True)"
    using disp_lexemes_punctuation by simp
  show ?thesis
  proof (cases "rm_rip m")
    case True
    have "components ?z ([(TOK_IDENTIFIER, ''rip'', 0)] @ disp_lexemes True ?d)
        (with_disp ?d (?z\<lparr>mem_is_rip_relative := True\<rparr>))"
      by (rule components.some [OF rip_component components_disp])
        (simp_all add: disp_lexemes_punctuation)
    with True show ?thesis
      by (simp add: mem_lexemes_def mem_of_def with_disp_def zero_mem_def shows_disp_alt split: option.splits prod.splits)
  next
    case False
    show ?thesis
    proof (cases "rm_base m")
      case None
      show ?thesis
      proof (cases "rm_index m")
        case None
        with \<open>rm_base m = None\<close> False components_disp [of ?z False ?d] show ?thesis
          by (simp add: mem_lexemes_def mem_of_def with_disp_def zero_mem_def shows_disp_def)
      next
        case (Some pair)
        obtain i s where pair: "pair = (i, s)" by (cases pair)
        have ok: "i < 16" "scale_ok s" using assms Some pair by (simp_all add: mem_printable_def)
        have "components ?z (index_tokens i s @ ?tail True)
            (if shows_disp m then with_disp ?d (with_index i s ?z) else with_index i s ?z)"
          by (rule components.some [OF index_component [OF ok] components_opt_disp]) (use tail in simp_all)
        with None Some pair False show ?thesis
          by (simp add: mem_lexemes_def mem_of_def with_disp_def with_index_def zero_mem_def split: if_splits)
      qed
    next
      case (Some b)
      have b: "b < 16" using assms Some by (simp add: mem_printable_def)
      let ?b = "?z\<lparr>mem_base := int b, mem_has_base := True\<rparr>"
      have base: "component ?z [(TOK_IDENTIFIER, reg64_name b, 0)] ?b"
        by (rule base_component [OF b]) (simp add: zero_mem_def)
      show ?thesis
      proof (cases "rm_index m")
        case None
        have "components ?z ([(TOK_IDENTIFIER, reg64_name b, 0)] @ ?tail True)
            (if shows_disp m then with_disp ?d ?b else ?b)"
          by (rule components.some [OF base components_opt_disp]) (use tail in simp_all)
        with None Some False show ?thesis
          by (simp add: mem_lexemes_def mem_of_def with_disp_def zero_mem_def split: if_splits)
      next
        case (Some pair)
        obtain i s where pair: "pair = (i, s)" by (cases pair)
        have ok: "i < 16" "scale_ok s" using assms Some pair by (simp_all add: mem_printable_def)
        have i: "components ?b ((sign_lexeme False # index_tokens i s) @ ?tail True)
            (if shows_disp m then with_disp ?d (with_index i s ?b) else with_index i s ?b)"
          unfolding sign_lexeme_def if_False
          by (rule components.some [OF plus_index_component [OF ok] components_opt_disp]) (use tail in simp_all)
        have "components ?z ([(TOK_IDENTIFIER, reg64_name b, 0)] @ (sign_lexeme False # index_tokens i s) @ ?tail True)
            (if shows_disp m then with_disp ?d (with_index i s ?b) else with_index i s ?b)"
          by (rule components.some [OF base i]) (simp_all add: punctuation_def sign_lexeme_def)
        with \<open>rm_base m = Some b\<close> Some pair False show ?thesis
          by (simp add: mem_lexemes_def mem_of_def with_disp_def with_index_def zero_mem_def split: if_splits)
      qed
    qed
  qed
qed

lemma mem_lexemes_head:
  assumes "mem_printable m"
  obtains ty t v ls where "mem_lexemes m = (ty, t, v) # ls" "ty = TOK_IDENTIFIER \<longrightarrow> \<not> strcase_eq t ''abs''"
proof -
  have "\<exists>ty t v ls. mem_lexemes m = (ty, t, v) # ls \<and> (ty = TOK_IDENTIFIER \<longrightarrow> \<not> strcase_eq t ''abs'')"
    using assms reg_name_facts(3) [OF rip_listed] reg_name_facts(3) [OF reg64_listed]
    by (auto simp: mem_lexemes_def mem_printable_def shows_disp_def disp_lexemes_def hex_lexeme_def
        split: option.splits)
  with that show ?thesis by blast
qed

lemma parse_printed_mem:
  assumes "mem_printable m" "ahead p ((TOK_LBRACKET, [], 0) # mem_lexemes m @ closing # us)"
  shows "\<exists>p'. parse_memory_operand p = Inr (mem_of m, p') \<and> ahead p' us"
proof -
  note cur = ahead_current [OF assms(2)]
  have adv: "ahead (advance p) (mem_lexemes m @ closing # us)" by (rule ahead_advance [OF assms(2)])
  obtain ty t v ls where h: "mem_lexemes m = (ty, t, v) # ls" "ty = TOK_IDENTIFIER \<longrightarrow> \<not> strcase_eq t ''abs''"
    by (rule mem_lexemes_head [OF assms(1)])
  have not_abs: "\<not> (cur_type (advance p) = TOK_IDENTIFIER \<and> strcase_eq (cur_text (advance p)) ''abs'')"
    using ahead_current [of "advance p" ty t v] adv h by auto
  obtain p1 where p1: "mem_components (zero_mem\<lparr>mem_scale := 1\<rparr>) (advance p) = Inr (mem_of m, p1)"
      "ahead p1 (closing # us)"
    using components_run [OF components_mem [OF assms(1)] adv] by blast
  have close: "close_bracket (mem_of m) p1 = Inr (mem_of m, advance p1)"
    using ahead_current [OF p1(2)] by (simp add: close_bracket_def expect_def)
  have start: "zero_mem\<lparr>mem_scale := 1, mem_segment_override := MEM_SEG_DEFAULT\<rparr> = zero_mem\<lparr>mem_scale := 1\<rparr>"
    by (simp add: zero_mem_def)
  have no_mix: "\<not> (mem_is_rip_relative (mem_of m) \<and> (mem_has_base (mem_of m) \<or> mem_has_index (mem_of m)))"
    by (simp add: mem_of_def)
  have "parse_memory_operand p = Inr (mem_of m, advance p1)"
    using cur not_abs p1(1) close
    by (auto simp: parse_memory_operand_def expect_def start no_mix Let_def)
  with ahead_advance [OF p1(2)] show ?thesis by blast
qed

section \<open>Operands\<close>

text \<open>What the disassembler prints for an operand and what the parser makes of it.\<close>

inductive printed_as :: "string \<Rightarrow> operand \<Rightarrow> bool" where
  register: "register_name r sz \<noteq> ''???'' \<Longrightarrow>
    printed_as (register_name r sz) (zero_operand\<lparr>op_type := OPERAND_REG, op_reg := r, op_reg_size := sz\<rparr>)"
| memory: "mem_printable m \<Longrightarrow>
    printed_as (print_mem m) (zero_operand\<lparr>op_type := OPERAND_MEM, op_mem := mem_of m\<rparr>)"
| number: "n < 2 ^ 63 \<Longrightarrow> printed_as (hex_text n) (immediate_operand (word_of_nat n))"

text \<open>The text is the token list \<open>ts\<close>, and \<open>parse_operand\<close> turns that list into the operand.\<close>

definition after_operand :: "lexeme list \<Rightarrow> bool" where
  "after_operand us \<longleftrightarrow> us = [] \<or> fst (hd us) = TOK_COMMA \<or> fst (hd us) = TOK_NEWLINE"

definition reads_as :: "string \<Rightarrow> lexeme list \<Rightarrow> operand \<Rightarrow> bool" where
  "reads_as s ts op \<longleftrightarrow>
     ts \<noteq> [] \<and> fst (hd ts) \<notin> {TOK_NEWLINE, TOK_EOF, TOK_COMMA, TOK_COLON} \<and>
     \<not> (fst (hd ts) = TOK_IDENTIFIER \<and> strcase_eq (fst (snd (hd ts))) ''equ'') \<and>
     (\<forall>r us. ends_word r \<longrightarrow> lex_as r us \<longrightarrow> lex_as (s @ r) (ts @ us)) \<and>
     (\<forall>p us. ahead p (ts @ us) \<longrightarrow> after_operand us \<longrightarrow>
        (\<exists>p'. parse_operand p = Inr (op, p') \<and> ahead p' us))"

lemma reads_asI:
  assumes "ts = (ty, t, v) # ls" "ty \<notin> {TOK_NEWLINE, TOK_EOF, TOK_COMMA, TOK_COLON}"
    and "ty = TOK_IDENTIFIER \<Longrightarrow> \<not> strcase_eq t ''equ''"
    and "\<And>r us. ends_word r \<Longrightarrow> lex_as r us \<Longrightarrow> lex_as (s @ r) (ts @ us)"
    and "\<And>p us. ahead p (ts @ us) \<Longrightarrow> after_operand us \<Longrightarrow>
        \<exists>p'. parse_operand p = Inr (op, p') \<and> ahead p' us"
  shows "reads_as s ts op"
  using assms by (simp add: reads_as_def)

lemma not_colon_after:
  assumes "ahead p ((ty, t, v) # us)" "after_operand us"
  shows "peek_type p \<noteq> TOK_COLON"
proof (cases us)
  case Nil
  with assms(1) show ?thesis using ahead_last [of p "(ty, t, v)"] by simp
next
  case (Cons u us')
  obtain ty' t' v' where "u = (ty', t', v')" by (cases u)
  with Cons assms ahead_peek [of p "(ty, t, v)" ty' t' v' us'] show ?thesis
    by (auto simp: after_operand_def)
qed

lemma parse_operand_plain:
  "cur_type p \<noteq> TOK_IDENTIFIER \<or> peek_type p \<noteq> TOK_COLON \<Longrightarrow> parse_operand p = parse_plain_operand p"
  by (auto simp: parse_operand_def)

lemma register_reads:
  assumes "register_name r sz \<noteq> ''???''"
  shows "reads_as (register_name r sz) [(TOK_IDENTIFIER, register_name r sz, 0)]
    (zero_operand\<lparr>op_type := OPERAND_REG, op_reg := r, op_reg_size := sz\<rparr>)"
proof (rule reads_asI [OF refl])
  note f = reg_name_facts [OF register_name_listed [OF assms]]
  show "\<not> strcase_eq (register_name r sz) ''equ''" by (rule f(2))
  show "lex_as (register_name r sz @ q) ([(TOK_IDENTIFIER, register_name r sz, 0)] @ us)"
    if "ends_word q" "lex_as q us" for q us
    using lex_name [OF f(1) that] by simp
  fix p us assume a: "ahead p ([(TOK_IDENTIFIER, register_name r sz, 0)] @ us)" and u: "after_operand us"
  note a = a [unfolded append_Cons append_Nil]
  show "\<exists>p'. parse_operand p = Inr (zero_operand\<lparr>op_type := OPERAND_REG, op_reg := r, op_reg_size := sz\<rparr>, p')
      \<and> ahead p' us"
    using ahead_current [OF a] not_colon_after [OF a u] ahead_advance [OF a] f(4,5)
    by (simp add: parse_operand_plain parse_plain_operand_def)
qed simp

lemma memory_reads:
  assumes "mem_printable m"
  shows "reads_as (print_mem m) ((TOK_LBRACKET, [], 0) # mem_lexemes m @ [closing])
    (zero_operand\<lparr>op_type := OPERAND_MEM, op_mem := mem_of m\<rparr>)"
proof (rule reads_asI [OF refl])
  show "lex_as (print_mem m @ q) (((TOK_LBRACKET, [], 0) # mem_lexemes m @ [closing]) @ us)"
    if "lex_as q us" for q us
    using lex_print_mem [OF assms that] by simp
  fix p us assume a: "ahead p (((TOK_LBRACKET, [], 0) # mem_lexemes m @ [closing]) @ us)"
  then have a: "ahead p ((TOK_LBRACKET, [], 0) # mem_lexemes m @ closing # us)" by simp
  have seg: "mem_of m\<lparr>mem_segment_override := MEM_SEG_DEFAULT\<rparr> = mem_of m"
    by (simp add: mem_of_def zero_mem_def)
  show "\<exists>p'. parse_operand p = Inr (zero_operand\<lparr>op_type := OPERAND_MEM, op_mem := mem_of m\<rparr>, p') \<and> ahead p' us"
    using ahead_current [OF a] parse_printed_mem [OF assms a] seg
    by (auto simp: parse_operand_plain parse_plain_operand_def memory_operand_def)
qed simp_all

lemma number_reads:
  assumes "n < 2 ^ 63"
  shows "reads_as (hex_text n) [hex_lexeme n] (immediate_operand (word_of_nat n))"
proof (rule reads_asI)
  show "[hex_lexeme n] = [(TOK_NUMBER, hex_text n, word_of_nat n)]" by (simp add: hex_lexeme_def)
  show "lex_as (hex_text n @ q) ([hex_lexeme n] @ us)" if "ends_word q" "lex_as q us" for q us
    using lex_hex_small [OF assms that] by simp
  fix p us assume "ahead p ([hex_lexeme n] @ us)"
  then have a: "ahead p ((TOK_NUMBER, hex_text n, word_of_nat n) # us)" by (simp add: hex_lexeme_def)
  show "\<exists>p'. parse_operand p = Inr (immediate_operand (word_of_nat n), p') \<and> ahead p' us"
    using ahead_current [OF a] ahead_advance [OF a] by (simp add: parse_operand_plain parse_plain_operand_def)
qed simp_all

lemma printed_reads: "printed_as s op \<Longrightarrow> \<exists>ts. reads_as s ts op"
  by (induction rule: printed_as.induct) (blast intro: register_reads memory_reads number_reads)+

section \<open>Lines\<close>

text \<open>Instructions without a special form: no directive of the parser and no operand check.\<close>

definition ordinary :: "instruction_type \<Rightarrow> bool" where
  "ordinary ty \<longleftrightarrow> ty \<noteq> INST_UNKNOWN \<and> ty \<noteq> Directive_family INST_SECTION
     \<and> ty \<noteq> Common_family INST_COMM \<and> ty \<noteq> Common_family INST_LCOMM \<and> ty \<noteq> String_family INST_MOVSD
     \<and> \<not> is_sse_move_inst ty \<and> \<not> is_sse_arith_inst ty \<and> \<not> is_sse_packed_inst ty"

lemma parse_printed_line:
  assumes n: "name_text n" "lookup_instruction_type n = ty" "ordinary ty"
    and ops: "printed_as a opa" "printed_as b opb"
    and p_def: "p = init_tokens (parser_init warn_all as_errors (n @ '' '' @ a @ '', '' @ b))"
  shows "\<exists>p'. parse_instruction p = Inr ((start_inst p)\<lparr>inst_type := ty, inst_operands := [opa, opb]\<rparr>, p')
    \<and> cur_type p' = TOK_EOF"
proof -
  obtain ta where ta: "reads_as a ta opa" using printed_reads [OF ops(1)] by blast
  obtain tb where tb: "reads_as b tb opb" using printed_reads [OF ops(2)] by blast
  have lex_b: "lex_as b tb" using tb unfolding reads_as_def by (metis append_Nil2 ends_word_def lex_as.simps(1) skip_blanks.simps(1))
  have lex: "lex_as (n @ '' '' @ a @ '', '' @ b) ((TOK_IDENTIFIER, n, 0) # ta @ (TOK_COMMA, [], 0) # tb)"
  proof -
    have c: "lex_as ('', '' @ b) ((TOK_COMMA, [], 0) # tb)"
      using lex_symbol [OF signs(6) lex_space [OF lex_b]] by simp
    have "lex_as (a @ '', '' @ b) (ta @ (TOK_COMMA, [], 0) # tb)"
      using ta c unfolding reads_as_def by (simp add: ends_word_symbol)
    from lex_name [OF n(1) _ lex_space [OF this]] show ?thesis by (simp add: ends_word_symbol)
  qed
  have p: "ahead p ((TOK_IDENTIFIER, n, 0) # ta @ (TOK_COMMA, [], 0) # tb)"
    unfolding p_def by (rule ahead_init [OF lex])
  note cur = ahead_current [OF p]
  obtain ty1 t1 v1 la where h: "ta = (ty1, t1, v1) # la" "ty1 \<noteq> TOK_COLON" "ty1 \<noteq> TOK_NEWLINE" "ty1 \<noteq> TOK_EOF"
      "\<not> (ty1 = TOK_IDENTIFIER \<and> strcase_eq t1 ''equ'')"
    using ta by (cases ta) (auto simp: reads_as_def)
  have peek: "peek_type p = ty1" "tok_text (ps_peek p) = t1"
    using ahead_peek [of p "(TOK_IDENTIFIER, n, 0)" ty1 t1 v1] p h(1) by simp_all
  have a1: "ahead (advance p) (ta @ (TOK_COMMA, [], 0) # tb)" by (rule ahead_advance [OF p])
  obtain p2 where p2: "parse_operand (advance p) = Inr (opa, p2)" "ahead p2 ((TOK_COMMA, [], 0) # tb)"
    using ta a1 unfolding reads_as_def by (fastforce simp: after_operand_def)
  have a3: "ahead (advance p2) (tb @ [])" using ahead_advance [OF p2(2)] by simp
  obtain p4 where p4: "parse_operand (advance p2) = Inr (opb, p4)" "cur_type p4 = TOK_EOF"
    using tb a3 unfolding reads_as_def by (fastforce simp: after_operand_def ahead.simps(1))
  have "cur_type (advance p2) \<noteq> TOK_NEWLINE \<and> cur_type (advance p2) \<noteq> TOK_EOF"
    using tb ahead_current [of "advance p2" "fst (hd tb)" "fst (snd (hd tb))" "snd (snd (hd tb))" "tl tb"] a3
    by (auto simp: reads_as_def)
  then have ops_run: "parse_operands_until_eol [] (advance p) = Inr ([opa, opb], p4)"
    using p2 p4 h ahead_current [of "advance p" ty1 t1 v1] a1 ahead_current [OF p2(2)]
    by (simp add: parse_operands_until_eol.simps at_line_end_def skip_comma_def)
  have valid: "validate_sse_operands ty [opa, opb]"
    using n(3) by (simp add: ordinary_def validate_sse_operands_def)
  have no_section: "maybe_apply_section_shorthand q i s = None" if "inst_type i = ty" for q i s
    using n(3) that by (simp add: ordinary_def maybe_apply_section_shorthand_def Let_def)
  have "parse_mnemonic_line p (start_inst p) =
      Inr ((start_inst p)\<lparr>inst_type := ty, inst_operands := [opa, opb]\<rparr>, p4)"
    using cur n ops_run valid no_section by (simp add: parse_mnemonic_line_def Let_def ordinary_def)
  moreover have "maybe_parse_equ_directive p i = None" for i
    using peek h(5) by (auto simp: maybe_parse_equ_directive_def)
  ultimately have "parse_instruction p = Inr ((start_inst p)\<lparr>inst_type := ty, inst_operands := [opa, opb]\<rparr>, p4)"
    using cur peek h by (simp add: parse_instruction_def Let_def)
  with p4 show ?thesis by blast
qed

end
