(* ===== verification/Parser_Properties.thy ===== *)
theory Parser_Properties
  imports Printed_Lines
begin

text \<open>
  The properties of the tokenizer and the parser.
\<close>

section \<open>Text the disassembler prints\<close>

text \<open>C34 (roundtrip). A line of a mnemonic and two operands as the disassembler prints them (a register name, a
  memory operand in any of the printed forms, an unsigned number below 2^63) parses to that
  mnemonic and those operands, and the whole text is used up.\<close>

theorem printed_line_parses:
  assumes "name_text n" "lookup_instruction_type n = ty" "ordinary ty"
    and "printed_as a opa" "printed_as b opb"
    and "p = init_tokens (parser_init warn_all as_errors (n @ '' '' @ a @ '', '' @ b))"
  shows "\<exists>p'. parse_instruction p = Inr ((start_inst p)\<lparr>inst_type := ty, inst_operands := [opa, opb]\<rparr>, p')
    \<and> cur_type p' = TOK_EOF"
  using parse_printed_line [OF assms] .

lemma mov_known: "name_text ''mov''" "lookup_instruction_type ''mov'' = Mov_family INST_MOV"
    "ordinary (Mov_family INST_MOV)"
proof -
  show "name_text ''mov''" by code_simp
  have "strcase_eq ''mov'' (fst (hd inst_table))" by (simp add: inst_table_def)
  then show "lookup_instruction_type ''mov'' = Mov_family INST_MOV"
    by (simp add: lookup_instruction_type_def inst_table_def)
  show "ordinary (Mov_family INST_MOV)"
    by (simp add: ordinary_def is_sse_move_inst_def is_sse_arith_inst_def is_sse_packed_inst_def)
qed

definition stack_slot :: rm_mem where
  "stack_slot = \<lparr>rm_base = Some 5, rm_index = None, rm_rip = False, rm_disp_size = 1, rm_disp = - 8\<rparr>"

lemma stack_slot_text: "print_mem stack_slot = ''[rbp-0x8]''"
  by (simp add: stack_slot_def print_mem_def disp_text_def hex_text_def hex_of.simps hex_digit_def
      reg64_name_def name_in_def regs64_def)

lemma printed_line_parses_witness:
  "\<exists>i p'. parse_instruction (init_tokens (parser_init False False ''mov [rbp-0x8], rax'')) = Inr (i, p')
    \<and> inst_type i = Mov_family INST_MOV \<and> length (inst_operands i) = 2"
proof -
  have r: "register_name 0 REG_SIZE_64 = ''rax''"
    by (simp add: register_name_def reg_table_def)
  have "printed_as ''[rbp-0x8]'' (zero_operand\<lparr>op_type := OPERAND_MEM, op_mem := mem_of stack_slot\<rparr>)"
    using printed_as.memory [of stack_slot] stack_slot_text by (simp add: mem_printable_def stack_slot_def)
  moreover have "printed_as ''rax'' (zero_operand\<lparr>op_type := OPERAND_REG, op_reg := 0, op_reg_size := REG_SIZE_64\<rparr>)"
    using printed_as.register [of 0 REG_SIZE_64] r by simp
  ultimately show ?thesis
    using printed_line_parses [OF mov_known, of "''[rbp-0x8]''" _ "''rax''" _ _ False False] by fastforce
qed

section \<open>Strings\<close>

text \<open>C36 (functional). The UTF-8 check accepts every text of encoded code points and returns their number.\<close>

theorem validate_utf8_counts_code_points:
  assumes "list_all code_point cps"
  shows "validate_utf8 (map char_of_byte (concat (map utf8_encode cps))) = int (length cps)"
  using utf8_scan_text [OF assms, of "[]" 0] by (simp add: validate_utf8_def comp_def)

lemma validate_utf8_counts_code_points_witness:
  "validate_utf8 (map char_of_byte (concat (map utf8_encode [0x41, 0xE9, 0x20AC, 0x1F600]))) = 4"
  using validate_utf8_counts_code_points [of "[0x41, 0xE9, 0x20AC, 0x1F600]"] by (simp add: code_point_def)

section \<open>Termination\<close>

text \<open>C35 (termination). Parsing a source returns, with instructions or with a diagnostic, exactly when the loop over
  the lines, from the first token on, reaches no stuck state: a state in front of a token that is neither
  a name, nor a line feed, nor the end of the text. From such a state, which the rest of a line can give
  as well as its start, the loop never returns. A diagnostic in front of it ends the loop, so
  such a token behind a diagnostic does no harm.\<close>

theorem parse_source_returns_iff:
  "(\<exists>r. parse_source_internal warn_all as_errors source = Some r) \<longleftrightarrow>
    \<not> reaches_stuck (init_tokens (parser_init warn_all as_errors source))"
  by (simp add: parse_source_internal_def parse_lines_returns_iff)

text \<open>A constant with a sum as its value is such a source: \<open>equ\<close> takes one operand, and the rest of the
  line starts the next iteration with a \<open>+\<close>.\<close>

lemma equ_sum_stuck:
  assumes "ahead p ((TOK_IDENTIFIER, x, 0) # (TOK_IDENTIFIER, ''equ'', 0) # (TOK_NUMBER, t, v) # (TOK_PLUS, [], 0) # us)"
  shows "reaches_stuck p"
proof -
  note a0 = ahead_current [OF assms] ahead_peek [OF assms]
  note n1 = ahead_advance [OF assms]
  note n2 = ahead_advance [OF n1]
  note a2 = ahead_current [OF n2] ahead_peek [OF n2]
  note n3 = ahead_advance [OF n2]
  note a3 = ahead_current [OF n3]
  have op: "parse_operand (advance (advance p)) = Inr (immediate_operand v, advance (advance (advance p)))"
    using a2 by (simp add: parse_operand_plain parse_plain_operand_def)
  then have "\<exists>i. parse_instruction p = Inr (i, advance (advance (advance p)))"
    using a0 a2 by (simp add: parse_instruction_def maybe_parse_equ_directive_def Let_def immediate_operand_def)
  then obtain kept where "parse_line p = Inr (kept, advance (advance (advance p)))"
    using a3 by (auto simp: parse_line_def)
  then have "line_step p (advance (advance (advance p)))"
    using a0 by (intro line_step.intros) auto
  moreover have "stuck (advance (advance (advance p)))" using a3 by (simp add: stuck_def)
  ultimately show ?thesis by (auto simp: reaches_stuck_def)
qed

lemma equ_sum_never_returns:
  "parse_source_internal warn_all as_errors ''total equ 0x10+0x20'' = None"
proof -
  have hex: "hex_text 16 = ''0x10''" "hex_text 32 = ''0x20''"
    by (simp_all add: hex_text_def hex_of.simps hex_digit_def)
  have names: "name_text ''total''" "name_text ''equ''" by code_simp+
  have plus: "lex_as (CHR ''+'' # hex_text 32 @ []) ((TOK_PLUS, [], 0) # [hex_lexeme 32])"
    by (intro lex_symbol signs lex_hex_small) (simp_all add: ends_word_def)
  have equ: "lex_as (''equ'' @ CHR '' '' # hex_text 16 @ CHR ''+'' # hex_text 32 @ [])
      ((TOK_IDENTIFIER, ''equ'', 0) # hex_lexeme 16 # (TOK_PLUS, [], 0) # [hex_lexeme 32])"
    by (intro lex_name [OF names(2)] lex_space lex_hex_small [OF _ _ plus] ends_word_symbol) simp_all
  have "lex_as (''total'' @ CHR '' '' # ''equ'' @ CHR '' '' # hex_text 16 @ CHR ''+'' # hex_text 32 @ [])
      ((TOK_IDENTIFIER, ''total'', 0) # (TOK_IDENTIFIER, ''equ'', 0) # hex_lexeme 16 # (TOK_PLUS, [], 0) # [hex_lexeme 32])"
    by (intro lex_name [OF names(1)] lex_space [OF equ] ends_word_symbol) simp
  then have "lex_as ''total equ 0x10+0x20''
      ((TOK_IDENTIFIER, ''total'', 0) # (TOK_IDENTIFIER, ''equ'', 0) # (TOK_NUMBER, hex_text 16, word_of_nat 16)
        # (TOK_PLUS, [], 0) # [hex_lexeme 32])"
    by (simp add: hex hex_lexeme_def)
  from equ_sum_stuck [OF ahead_init [OF this]] show ?thesis
    using parse_lines_returns_iff unfolding parse_source_internal_def by (metis option.exhaust)
qed

end
