(* ===== verification/Source_Lines.thy ===== *)
theory Source_Lines
  imports Lexer
begin

text \<open>
  The line reader that the preprocessor loops of src/x86_64_parser.c share, and the expansion of
  \<open>times\<close>: \<open>parse_times_count\<close>, \<open>trim_trailing_ws\<close>, \<open>parse_times_directive\<close> and
  \<open>parser_expand_times_only\<close>, whose output buffer has four times the size of the source.
  \<open>times_expanded\<close> is the specification, the expansion without a limit.
\<close>

section \<open>Text helpers\<close>

definition skip_ws :: "string \<Rightarrow> string" where
  "skip_ws s = dropWhile c_isspace s"

text \<open>\<open>strncasecmp(s, word, strlen(word)) == 0\<close>.\<close>

definition starts_with_word :: "string \<Rightarrow> string \<Rightarrow> bool" where
  "starts_with_word word s \<longleftrightarrow> strcase_eq (take (length word) s) word"

definition trim_trailing_ws :: "string \<Rightarrow> string" where
  "trim_trailing_ws s = rev (dropWhile c_isspace (rev s))"

text \<open>One line: its characters, at most \<open>MAX_LINE_LENGTH - 1\<close>, whether a line feed ended it,
  and what is left.\<close>

definition read_line :: "string \<Rightarrow> string \<times> bool \<times> string" where
  "read_line s =
     (let line = take (MAX_LINE_LENGTH - 1) (takeWhile (\<lambda>c. c \<noteq> LF) s);
          rest = drop (length line) s
      in if rest \<noteq> [] \<and> hd rest = LF then (line, True, tl rest) else (line, False, rest))"

lemma read_line_progress: "read_line s = (line, nl, rest) \<Longrightarrow> s \<noteq> [] \<Longrightarrow> length rest < length s"
  by (cases s) (auto simp: read_line_def Let_def split: if_splits)

section \<open>The times directive\<close>

definition hex_or_decimal :: "nat \<Rightarrow> (char \<Rightarrow> bool) \<Rightarrow> string \<Rightarrow> u32 \<times> string" where
  "hex_or_decimal base is_digit s =
     (foldl (\<lambda>n c. word_of_nat base * n + word_of_nat (digit_value c)) 0 (takeWhile is_digit s),
      dropWhile is_digit s)"

text \<open>The count is an \<open>int\<close>; a count that does not fit wraps around.\<close>

definition parse_times_count :: "string \<Rightarrow> (u32 \<times> string) option" where
  "parse_times_count s0 =
     (let s = (if s0 \<noteq> [] \<and> hd s0 = CHR ''$'' then tl s0 else s0);
          (count, rest) = (if has_prefix ''xX'' s then hex_or_decimal 16 c_isxdigit (drop 2 s)
                           else hex_or_decimal 10 c_isdigit s)
      in if 0 < sint count \<and> sint count \<le> 10000 then Some (count, rest) else None)"

fun until_comment :: "string \<Rightarrow> string" where
  "until_comment [] = []"
| "until_comment (c # cs) =
     (if c = LF \<or> c = CHR '';'' \<or> (c = CHR ''/'' \<and> cs \<noteq> [] \<and> hd cs = CHR ''/'') then []
      else c # until_comment cs)"

definition parse_times_directive :: "string \<Rightarrow> (nat \<times> string) option" where
  "parse_times_directive line =
     (let p = skip_ws line in
      if \<not> starts_with_word ''times'' p then None
      else case parse_times_count (skip_ws (drop 5 p)) of
        None \<Rightarrow> None
      | Some (count, rest) \<Rightarrow>
          (let inst = trim_trailing_ws (take (MAX_LINE_LENGTH - 1) (until_comment (skip_ws rest)))
           in if inst \<noteq> [] then Some (unat count, inst) else None))"

text \<open>The instruction is repeated while the buffer has room; a copy that does not fit is left out.\<close>

fun repeat_line :: "nat \<Rightarrow> nat \<Rightarrow> string \<Rightarrow> string \<Rightarrow> string" where
  "repeat_line output_size 0 inst out = out"
| "repeat_line output_size (Suc n) inst out =
     repeat_line output_size n inst
       (if length out + length inst + 1 < output_size - 1 then out @ inst @ [LF] else out)"

definition copy_line :: "nat \<Rightarrow> string \<Rightarrow> string \<Rightarrow> string" where
  "copy_line output_size raw out = (if length out + length raw < output_size - 1 then out @ raw else out)"

function expand_times_lines :: "nat \<Rightarrow> string \<Rightarrow> string \<Rightarrow> string" where
  "expand_times_lines output_size s out =
     (if s = [] then out
      else let (line, nl, rest) = read_line s in
        expand_times_lines output_size rest
          (case parse_times_directive line of
             Some (n, inst) \<Rightarrow> repeat_line output_size n inst out
           | None \<Rightarrow> copy_line output_size (take (length s - length rest) s) out))"
  by pat_completeness auto
termination
  by (relation "measure (\<lambda>(_, s, _). length s)") (auto dest: read_line_progress [OF sym])

declare expand_times_lines.simps [simp del]

definition parser_expand_times_only :: "string \<Rightarrow> string" where
  "parser_expand_times_only source = expand_times_lines (length source * 4 + 1) source []"

section \<open>The expansion without a limit\<close>

definition expanded_line :: "string \<Rightarrow> string \<Rightarrow> string" where
  "expanded_line line raw =
     (case parse_times_directive line of
        Some (n, inst) \<Rightarrow> concat (replicate n (inst @ [LF]))
      | None \<Rightarrow> raw)"

function times_expanded :: "string \<Rightarrow> string" where
  "times_expanded s =
     (if s = [] then []
      else let (line, nl, rest) = read_line s in
        expanded_line line (take (length s - length rest) s) @ times_expanded rest)"
  by pat_completeness auto
termination
  by (relation "measure length") (auto dest: read_line_progress [OF sym])

declare times_expanded.simps [simp del]

lemma repeat_line_fits:
  "length out + n * (length inst + 1) < output_size - 1 \<Longrightarrow>
    repeat_line output_size n inst out = out @ concat (replicate n (inst @ [LF]))"
  by (induction n arbitrary: out) auto

lemma length_repeated: "length (concat (replicate n (inst @ [LF]))) = n * (length inst + 1)"
  by (induction n) auto

lemma expand_line_fits:
  "length out + length (expanded_line line raw) < output_size - 1 \<Longrightarrow>
    (case parse_times_directive line of
       Some (n, inst) \<Rightarrow> repeat_line output_size n inst out
     | None \<Rightarrow> copy_line output_size raw out) = out @ expanded_line line raw"
  by (auto simp: expanded_line_def copy_line_def length_repeated repeat_line_fits split: option.splits)

lemma expand_times_lines_fits:
  "length out + length (times_expanded s) < output_size - 1 \<Longrightarrow>
    expand_times_lines output_size s out = out @ times_expanded s"
proof (induction s arbitrary: out rule: times_expanded.induct)
  case (1 s)
  show ?case
  proof (cases "s = []")
    case True
    then show ?thesis by (simp add: expand_times_lines.simps times_expanded.simps)
  next
    case False
    obtain line nl rest where r: "read_line s = (line, nl, rest)" by (cases "read_line s") auto
    let ?e = "expanded_line line (take (length s - length rest) s)"
    have t: "times_expanded s = ?e @ times_expanded rest"
      using False r by (subst times_expanded.simps) simp
    have "length out + length ?e < output_size - 1" using "1.prems" t by simp
    from expand_line_fits [OF this] False r
    have "expand_times_lines output_size s out = expand_times_lines output_size rest (out @ ?e)"
      by (subst expand_times_lines.simps) simp
    also have "\<dots> = (out @ ?e) @ times_expanded rest"
      by (rule "1.IH" [OF False refl r [symmetric] refl]) (use "1.prems" t in \<open>simp add: add.assoc\<close>)
    finally show ?thesis using t by simp
  qed
qed

lemma repeat_line_bound:
  "length out < output_size \<Longrightarrow> length (repeat_line output_size n inst out) < output_size"
  by (induction n arbitrary: out) auto

lemma expand_times_lines_bound:
  "length out < output_size \<Longrightarrow> length (expand_times_lines output_size s out) < output_size"
proof (induction output_size s out rule: expand_times_lines.induct)
  case (1 output_size s out)
  show ?case
  proof (cases "s = []")
    case False
    obtain line nl rest where r: "read_line s = (line, nl, rest)" by (cases "read_line s") auto
    have "length (case parse_times_directive line of
        Some (n, inst) \<Rightarrow> repeat_line output_size n inst out
      | None \<Rightarrow> copy_line output_size (take (length s - length rest) s) out) < output_size"
      using "1.prems" repeat_line_bound by (auto simp: copy_line_def split: option.splits)
    from "1.IH" [OF False refl r [symmetric] refl this] False r show ?thesis
      by (subst expand_times_lines.simps) simp
  qed (use "1.prems" in \<open>simp add: expand_times_lines.simps\<close>)
qed

end
