(* ===== verification/Macros.thy ===== *)
theory Macros
  imports Source_Lines Labels
begin

text \<open>
  Macros of src/x86_64_parser.c: \<open>macro_lookup\<close>, \<open>is_macro_name\<close>, \<open>get_macro_arg_count\<close>,
  \<open>macro_define\<close>, \<open>macro_add_param\<close>, \<open>macro_add_body_line\<close>, \<open>macro_end_definition\<close>,
  \<open>substitute_params\<close>, \<open>expand_macro\<close>, \<open>parse_macro_directive\<close>, \<open>is_endm_directive\<close> and
  \<open>parse_macro_invocation\<close>. The table holds the macros that are completely defined; the one under
  definition is apart. A parameter list with a character that no rule takes is read for ever: the
  reader of parameters is a partial function.
\<close>

section \<open>State\<close>

abbreviation (input) MAX_MACROS :: nat where "MAX_MACROS \<equiv> 16"
abbreviation (input) MAX_MACRO_PARAMS :: nat where "MAX_MACRO_PARAMS \<equiv> 8"
abbreviation (input) MAX_MACRO_BODY_LINES :: nat where "MAX_MACRO_BODY_LINES \<equiv> 16"
abbreviation (input) MAX_MACRO_EXPANSION_DEPTH :: int where "MAX_MACRO_EXPANSION_DEPTH \<equiv> 10"

datatype pp_error =
  Pp_Syntax | Pp_Constraint | Pp_IO | Pp_Preprocessor | Pp_CLI | Pp_Memory_Fault

record macro =
  mc_name :: string
  mc_params :: "string list"
  mc_body :: "string list"

record macro_state =
  macros :: "macro list"
  current_macro :: "macro option"
  in_macro_definition :: bool
  expansion_depth :: int
  local_label_counter :: int
  expanding_name :: string

definition macro_reset :: macro_state where
  "macro_reset = \<lparr>macros = [], current_macro = None, in_macro_definition = False,
     expansion_depth = 0, local_label_counter = 0, expanding_name = []\<rparr>"

section \<open>The table\<close>

definition macro_lookup :: "macro_state \<Rightarrow> string \<Rightarrow> macro option" where
  "macro_lookup st name = find (\<lambda>m. strcase_eq (mc_name m) name) (macros st)"

definition is_macro_name :: "macro_state \<Rightarrow> string \<Rightarrow> bool" where
  "is_macro_name st name \<longleftrightarrow> macro_lookup st name \<noteq> None"

definition get_macro_arg_count :: "macro_state \<Rightarrow> string \<Rightarrow> int" where
  "get_macro_arg_count st name =
     (case macro_lookup st name of Some m \<Rightarrow> int (length (mc_params m)) | None \<Rightarrow> -1)"

definition macro_define :: "string \<Rightarrow> macro_state \<Rightarrow> pp_error + macro_state" where
  "macro_define name st =
     (if MAX_MACROS \<le> length (macros st) then Inl Pp_Constraint
      else if is_macro_name st name then Inl Pp_Constraint
      else Inr (st\<lparr>in_macro_definition := True,
             current_macro := Some \<lparr>mc_name = copy_bounded_text MAX_LABEL_LENGTH name,
                                    mc_params = [], mc_body = []\<rparr>\<rparr>))"

text \<open>Parameters and lines over the limit are dropped with a diagnostic.\<close>

definition macro_add_param :: "string \<Rightarrow> macro_state \<Rightarrow> macro_state" where
  "macro_add_param name st =
     (case current_macro st of
        None \<Rightarrow> st
      | Some m \<Rightarrow>
          (if MAX_MACRO_PARAMS \<le> length (mc_params m) then st
           else st\<lparr>current_macro :=
             Some (m\<lparr>mc_params := mc_params m @ [copy_bounded_text MAX_LABEL_LENGTH name]\<rparr>)\<rparr>))"

definition macro_add_body_line :: "string \<Rightarrow> macro_state \<Rightarrow> macro_state" where
  "macro_add_body_line line st =
     (case current_macro st of
        None \<Rightarrow> st
      | Some m \<Rightarrow>
          (if MAX_MACRO_BODY_LINES \<le> length (mc_body m) then st
           else st\<lparr>current_macro :=
             Some (m\<lparr>mc_body := mc_body m @ [copy_bounded_text MAX_LINE_LENGTH line]\<rparr>)\<rparr>))"

definition macro_end_definition :: "macro_state \<Rightarrow> macro_state" where
  "macro_end_definition st =
     (case current_macro st of
        None \<Rightarrow> st
      | Some m \<Rightarrow> st\<lparr>macros := macros st @ [m], in_macro_definition := False, current_macro := None\<rparr>)"

section \<open>Expansion\<close>

definition word_char :: "char \<Rightarrow> bool" where
  "word_char c \<longleftrightarrow> c_isalnum c \<or> c = CHR ''_''"

text \<open>The position of the first parameter with the name.\<close>

fun param_index :: "string \<Rightarrow> string list \<Rightarrow> nat \<Rightarrow> nat option" where
  "param_index name [] i = None"
| "param_index name (p # ps) i = (if p = name then Some i else param_index name ps (Suc i))"

text \<open>A reference is \<open>\\<close> or \<open>$\<close> and a parameter name. (The branch for \<open>\@\<close> asks for a name of
  one letter, digit or underscore that is an at sign, which does not exist.) An argument that does
  not fit into the buffer is left out, a parameter without an argument is empty.\<close>

function (sequential) substitute_params :: "string list \<Rightarrow> string list \<Rightarrow> string \<Rightarrow> nat \<Rightarrow> string" where
  "substitute_params args params [] remaining = []"
| "substitute_params args params (c # cs) remaining =
     (if remaining = 0 then []
      else let name = takeWhile word_char cs in
        case (if (c = BACKSLASH \<or> c = CHR ''$'') \<and> name \<noteq> [] then param_index name params 0 else None) of
          Some i \<Rightarrow>
            (let rest = drop (length name) cs in
             if i < length args \<and> length (args ! i) \<le> remaining
             then args ! i @ substitute_params args params rest (remaining - length (args ! i))
             else substitute_params args params rest remaining)
        | None \<Rightarrow> c # substitute_params args params cs (remaining - 1))"
  by pat_completeness auto
termination by (relation "measure (\<lambda>(_, _, s, _). length s)") auto

declare substitute_params.simps [simp del]

text \<open>The lines of the body, each into a buffer of two line lengths, and together into one of
  that size for each line.\<close>

fun expand_body :: "nat \<Rightarrow> (string \<Rightarrow> string) \<Rightarrow> string list \<Rightarrow> string \<Rightarrow> string" where
  "expand_body buf_size subst [] expanded = expanded"
| "expand_body buf_size subst (l # ls) expanded =
     (let line = subst l in
      expand_body buf_size subst ls
        (if length expanded + length line + 2 < buf_size then expanded @ line @ [LF] else expanded))"

text \<open>A macro without a body asks for a buffer of no bytes and writes the terminator into it.\<close>

definition expand_macro :: "string \<Rightarrow> string list \<Rightarrow> macro_state \<Rightarrow> pp_error + string \<times> macro_state" where
  "expand_macro name args st =
     (case macro_lookup st name of
        None \<Rightarrow> Inl Pp_Syntax
      | Some m \<Rightarrow>
          (if MAX_MACRO_EXPANSION_DEPTH \<le> expansion_depth st then Inl Pp_Constraint
           else
             let st' = st\<lparr>local_label_counter := local_label_counter st + 1,
                          expanding_name := copy_bounded_text MAX_LABEL_LENGTH name\<rparr>;
                 buf_size = length (mc_body m) * MAX_LINE_LENGTH * 2
             in if buf_size = 0 then Inl Pp_Memory_Fault
                else Inr (expand_body buf_size
                       (\<lambda>l. substitute_params args (mc_params m) l (MAX_LINE_LENGTH * 2 - 1)) (mc_body m) [], st')))"

section \<open>Directives and invocations\<close>

definition name_prefix :: "(char \<Rightarrow> bool) \<Rightarrow> string \<Rightarrow> string" where
  "name_prefix ok s = take (MAX_LABEL_LENGTH - 1) (takeWhile ok s)"

definition skip_opt_comma :: "string \<Rightarrow> string" where
  "skip_opt_comma s = (if s \<noteq> [] \<and> hd s = CHR '','' then skip_ws (tl s) else s)"

text \<open>One iteration of the parameter loop, and the loop.\<close>

definition param_step :: "string \<Rightarrow> string list \<Rightarrow> string \<times> string list" where
  "param_step s params =
     (let s1 = skip_opt_comma s; name = name_prefix word_char s1
      in (skip_opt_comma (skip_ws (drop (length name) s1)),
          if name \<noteq> [] then params @ [name] else params))"

partial_function (option) macro_params :: "string \<Rightarrow> string list \<Rightarrow> string list option" where
  "macro_params s params =
     (if s = [] \<or> hd s = CHR '';'' \<or> hd s = CHR ''/'' \<or> MAX_MACRO_PARAMS \<le> length params then Some params
      else let (s', params') = param_step s params in macro_params s' params')"

text \<open>The name and the parameters of a directive, \<open>None\<close> inside when the line is none.\<close>

definition parse_macro_directive :: "string \<Rightarrow> (string \<times> string list) option option" where
  "parse_macro_directive line =
     (let p = skip_ws line in
      if \<not> starts_with_word ''.macro'' p \<and> \<not> starts_with_word ''macro'' p then Some None
      else
        let q = skip_ws (drop (if hd p = CHR ''.'' then 6 else 5) p);
            name = name_prefix (\<lambda>c. word_char c \<or> c = CHR ''.'') q
        in if name = [] then Some None
           else map_option (\<lambda>params. Some (name, params)) (macro_params (skip_ws (drop (length name) q)) []))"

definition is_endm_directive :: "string \<Rightarrow> bool" where
  "is_endm_directive line \<longleftrightarrow>
     starts_with_word ''.endm'' (skip_ws line) \<or> starts_with_word ''endm'' (skip_ws line)"

text \<open>An argument: up to a comma outside brackets, a comment or the size of its buffer.\<close>

fun arg_text :: "nat \<Rightarrow> int \<Rightarrow> int \<Rightarrow> string \<Rightarrow> string \<times> string" where
  "arg_text n parens brackets [] = ([], [])"
| "arg_text 0 parens brackets s = ([], s)"
| "arg_text (Suc n) parens brackets (c # cs) =
     (if (c = CHR '','' \<and> \<not> (0 < parens \<or> 0 < brackets)) \<or> c = CHR '';''
         \<or> (c = CHR ''/'' \<and> cs \<noteq> [] \<and> hd cs = CHR ''/'')
      then ([], c # cs)
      else
        let (a, r) = arg_text n
              (if c = CHR ''('' then parens + 1 else if c = CHR '')'' then parens - 1 else parens)
              (if c = CHR ''['' then brackets + 1 else if c = CHR '']'' then brackets - 1 else brackets) cs
        in (c # a, r))"

definition arg_step :: "string \<Rightarrow> string list \<Rightarrow> string \<times> string list" where
  "arg_step s args =
     (let (a, r) = arg_text (MAX_LINE_LENGTH - 1) 0 0 (skip_ws (skip_opt_comma s))
      in (skip_opt_comma (skip_ws r), if a \<noteq> [] then args @ [trim_trailing_ws a] else args))"

lemma skip_ws_length: "length (skip_ws s) \<le> length s"
  by (simp add: skip_ws_def length_dropWhile_le)

lemma skip_opt_comma_length: "length (skip_opt_comma s) \<le> length s"
  using skip_ws_length [of "tl s"] by (cases s) (simp_all add: skip_opt_comma_def)

lemma arg_text_length: "length (snd (arg_text n p b s)) \<le> length s"
  by (induction n p b s rule: arg_text.induct) (auto split: prod.splits simp: Let_def le_SucI)

lemma arg_text_less:
  assumes "s \<noteq> []" "hd s \<noteq> CHR '',''" "hd s \<noteq> CHR '';''" "hd s \<noteq> CHR ''/''" "0 < n"
  shows "length (snd (arg_text n 0 0 s)) < length s"
proof -
  obtain c cs k where s: "s = c # cs" "n = Suc k" using assms(1,5) by (cases s; cases n) auto
  have "\<exists>p b. snd (arg_text n 0 0 s) = snd (arg_text k p b cs)"
    using assms s by (simp add: Let_def split_def) blast
  then obtain p b where "snd (arg_text n 0 0 s) = snd (arg_text k p b cs)" by blast
  with arg_text_length [of k p b cs] s show ?thesis by simp
qed

lemma arg_step_progress:
  assumes "s \<noteq> []" "hd s \<noteq> CHR '';''" "hd s \<noteq> CHR ''/''"
  shows "length (fst (arg_step s args)) < length s"
proof -
  let ?t = "skip_ws (skip_opt_comma s)"
  let ?r = "snd (arg_text (MAX_LINE_LENGTH - 1) 0 0 ?t)"
  have r: "length ?r < length s"
  proof (cases "hd s = CHR '',''")
    case True
    then have "length (skip_opt_comma s) < length s"
      using assms(1) skip_ws_length [of "tl s"] by (cases s) (auto simp: skip_opt_comma_def)
    then show ?thesis
      using arg_text_length [of "MAX_LINE_LENGTH - 1" 0 0 ?t] skip_ws_length [of "skip_opt_comma s"] by linarith
  next
    case False
    then have s: "skip_opt_comma s = s" by (simp add: skip_opt_comma_def)
    show ?thesis
    proof (cases "c_isspace (hd s)")
      case True
      then have "length ?t < length s"
        using assms(1) s by (cases s) (auto simp: skip_ws_def length_dropWhile_le less_Suc_eq_le)
      then show ?thesis using arg_text_length [of "MAX_LINE_LENGTH - 1" 0 0 ?t] by linarith
    next
      case False
      then have "?t = s" using s assms(1) by (cases s) (auto simp: skip_ws_def)
      with arg_text_less [of s "MAX_LINE_LENGTH - 1"] assms \<open>hd s \<noteq> CHR '',''\<close> show ?thesis by simp
    qed
  qed
  have "fst (arg_step s args) = skip_opt_comma (skip_ws ?r)"
    by (simp add: arg_step_def split: prod.splits)
  with r skip_opt_comma_length [of "skip_ws ?r"] skip_ws_length [of ?r] show ?thesis by simp
qed

function macro_args :: "string \<Rightarrow> string list \<Rightarrow> string list" where
  "macro_args s args =
     (if s = [] \<or> hd s = CHR '';'' \<or> hd s = CHR ''/'' \<or> MAX_MACRO_PARAMS \<le> length args then args
      else macro_args (fst (arg_step s args)) (snd (arg_step s args)))"
  by pat_completeness auto
termination
  by (relation "measure (length \<circ> fst)") (auto simp: arg_step_progress)

declare macro_args.simps [simp del]

text \<open>A colon anywhere in the line counts as the end of a label.\<close>

definition skip_label :: "string \<Rightarrow> string" where
  "skip_label p = (if CHR '':'' \<in> set p then skip_ws (tl (dropWhile (\<lambda>c. c \<noteq> CHR '':'') p)) else p)"

definition parse_macro_invocation :: "macro_state \<Rightarrow> string \<Rightarrow> (string \<times> string list) option" where
  "parse_macro_invocation st line =
     (let p = skip_label (skip_ws line) in
      if p = [] \<or> \<not> (c_isalpha (hd p) \<or> hd p = CHR ''_'') then None
      else
        let name = name_prefix (\<lambda>c. word_char c \<or> c = CHR ''.'') p
        in if is_macro_name st name
           then Some (name, macro_args (skip_ws (drop (length name) p)) [])
           else None)"

section \<open>A parameter list that is read for ever\<close>

lemma macro_params_returns_not_stuck:
  assumes "macro_params s params = Some r"
  shows "s = [] \<or> hd s = CHR '';'' \<or> hd s = CHR ''/'' \<or> MAX_MACRO_PARAMS \<le> length params
    \<or> param_step s params \<noteq> (s, params)"
proof (rule macro_params.raw_induct [where P = "\<lambda>s params r. s = [] \<or> hd s = CHR '';'' \<or> hd s = CHR ''/''
    \<or> MAX_MACRO_PARAMS \<le> length params \<or> param_step s params \<noteq> (s, params)", OF _ assms])
  fix loop s params r
  assume ih: "\<And>s params r. loop s params = Some r \<Longrightarrow> s = [] \<or> hd s = CHR '';'' \<or> hd s = CHR ''/''
      \<or> MAX_MACRO_PARAMS \<le> length params \<or> param_step s params \<noteq> (s, params)"
    and b: "(if s = [] \<or> hd s = CHR '';'' \<or> hd s = CHR ''/'' \<or> MAX_MACRO_PARAMS \<le> length params then Some params
      else let (s', params') = param_step s params in loop s' params') = Some r"
  show "s = [] \<or> hd s = CHR '';'' \<or> hd s = CHR ''/'' \<or> MAX_MACRO_PARAMS \<le> length params
      \<or> param_step s params \<noteq> (s, params)"
    using b ih [of s params r] by (auto split: if_splits)
qed

lemma macro_parenthesis_never_returns: "parse_macro_directive ''.macro add(a, b)'' = None"
proof -
  have stuck: "macro_params ''(a, b)'' [] = None"
  proof (rule ccontr)
    assume "macro_params ''(a, b)'' [] \<noteq> None"
    then obtain r where "macro_params ''(a, b)'' [] = Some r" by blast
    from macro_params_returns_not_stuck [OF this]
    have "param_step ''(a, b)'' [] \<noteq> (''(a, b)'', [])" by simp
    moreover have "param_step ''(a, b)'' [] = (''(a, b)'', [])" by code_simp
    ultimately show False by blast
  qed
  have p: "skip_ws ''.macro add(a, b)'' = ''.macro add(a, b)''"
    and q: "skip_ws (drop 6 ''.macro add(a, b)'') = ''add(a, b)''"
    and n: "name_prefix (\<lambda>c. word_char c \<or> c = CHR ''.'') ''add(a, b)'' = ''add''"
    and r: "skip_ws (drop (length ''add'') ''add(a, b)'') = ''(a, b)''"
    and d: "starts_with_word ''.macro'' ''.macro add(a, b)''" and h: "hd ''.macro add(a, b)'' = CHR ''.''"
    by code_simp+
  show ?thesis
    unfolding parse_macro_directive_def Let_def p q n r stuck if_P [OF h] using d by simp
qed

end
