(* ===== verification/Preprocessor.thy ===== *)
theory Preprocessor
  imports Macros
begin

text \<open>
  The definitions and conditions of the preprocessor of src/x86_64_parser.c, the functions whose
  names start with \<open>pp_\<close>: the table of defined names, the directives and the values of conditions,
  the stack of open conditionals and the substitution of defined names. The conditional branches
  stand in both loops of \<open>preprocess_macros\<close>; they are one definition here.
\<close>

section \<open>Definitions\<close>

abbreviation (input) PP_MAX_DEFINES :: nat where "PP_MAX_DEFINES \<equiv> 128"
abbreviation (input) PP_MAX_COND_DEPTH :: nat where "PP_MAX_COND_DEPTH \<equiv> 64"

definition pp_is_ident_start :: "char \<Rightarrow> bool" where
  "pp_is_ident_start c \<longleftrightarrow> c_isalpha c \<or> c = CHR ''_''"

type_synonym define_table = "(string \<times> string) list"

definition pp_lookup_define :: "define_table \<Rightarrow> string \<Rightarrow> string option" where
  "pp_lookup_define defs name = map_option snd (find (\<lambda>d. fst d = name) defs)"

fun set_value :: "string \<Rightarrow> string \<Rightarrow> define_table \<Rightarrow> define_table" where
  "set_value name v [] = []"
| "set_value name v (d # ds) = (if fst d = name then (fst d, v) # ds else d # set_value name v ds)"

definition pp_define_set :: "define_table \<Rightarrow> string \<Rightarrow> string \<Rightarrow> pp_error + define_table" where
  "pp_define_set defs name v =
     (if name = [] then Inl Pp_Constraint
      else if pp_lookup_define defs name \<noteq> None
      then Inr (set_value name (copy_bounded_text MAX_LINE_LENGTH v) defs)
      else if PP_MAX_DEFINES \<le> length defs then Inl Pp_Constraint
      else Inr (defs @ [(copy_bounded_text MAX_LABEL_LENGTH name, copy_bounded_text MAX_LINE_LENGTH v)]))"

text \<open>A directive word is followed by a blank or the end of the line.\<close>

definition directive_rest :: "string \<Rightarrow> string \<Rightarrow> string option" where
  "directive_rest word line =
     (let p = skip_ws line; n = length word in
      if \<not> starts_with_word word p then None
      else if n < length p \<and> \<not> c_isspace (p ! n) then None
      else Some (skip_ws (drop n p)))"

definition pp_parse_expr_directive :: "string \<Rightarrow> string \<Rightarrow> string option" where
  "pp_parse_expr_directive line word = map_option (take (MAX_LINE_LENGTH - 1)) (directive_rest word line)"

definition pp_parse_symbol_directive :: "string \<Rightarrow> string \<Rightarrow> pp_error + string option" where
  "pp_parse_symbol_directive line word =
     (case directive_rest word line of
        None \<Rightarrow> Inr None
      | Some p \<Rightarrow>
          (if p = [] \<or> \<not> pp_is_ident_start (hd p) then Inl Pp_Syntax
           else Inr (Some (name_prefix word_char p))))"

definition pp_parse_define_directive :: "string \<Rightarrow> pp_error + (string \<times> string) option" where
  "pp_parse_define_directive line =
     (case directive_rest ''%define'' line of
        None \<Rightarrow> Inr None
      | Some p \<Rightarrow>
          (if p = [] \<or> \<not> pp_is_ident_start (hd p) then Inl Pp_Syntax
           else let name = name_prefix word_char p in
             Inr (Some (name, trim_trailing_ws
               (copy_bounded_text MAX_LINE_LENGTH (skip_ws (drop (length name) p)))))))"

section \<open>Conditions\<close>

text \<open>\<open>strtoll\<close> with base 0: the value, what is left, and whether the range was exceeded.\<close>

definition strtoll0 :: "string \<Rightarrow> int \<times> string \<times> bool" where
  "strtoll0 s =
     (let p = skip_ws s;
          neg = (p \<noteq> [] \<and> hd p = CHR ''-'');
          q = (if p \<noteq> [] \<and> (hd p = CHR ''-'' \<or> hd p = CHR ''+'') then tl p else p);
          hex = (has_prefix ''xX'' q \<and> 2 < length q \<and> c_isxdigit (q ! 2));
          base = (if hex then 16 else if q \<noteq> [] \<and> hd q = CHR ''0'' then 8 else 10);
          t = (if hex then drop 2 q else q);
          digits = takeWhile (\<lambda>c. digit_value c < base) t;
          n = foldl (\<lambda>v c. base * v + digit_value c) 0 digits;
          v = (if neg then - int n else int n)
      in if digits = [] then (0, s, False)
         else (max (- (2 ^ 63)) (min (2 ^ 63 - 1) v), drop (length digits) t, v < - (2 ^ 63) \<or> 2 ^ 63 \<le> v))"

function strip_not :: "string \<Rightarrow> bool \<Rightarrow> string \<times> bool" where
  "strip_not p negate =
     (if p \<noteq> [] \<and> hd p = CHR ''!'' then strip_not (skip_ws (tl p)) (\<not> negate) else (p, negate))"
  by pat_completeness auto
termination
proof (relation "measure (length \<circ> fst)", simp_all)
  fix p :: string assume "p \<noteq> [] \<and> hd p = CHR ''!''"
  then show "length (skip_ws (tl p)) < length p"
    using skip_ws_length [of "tl p"] by (cases p) auto
qed

declare strip_not.simps [simp del]

definition pp_eval_number_or_symbol :: "string \<Rightarrow> define_table \<Rightarrow> pp_error + bool" where
  "pp_eval_number_or_symbol expr defs =
     (let (p, negate) = strip_not (skip_ws expr) False;
          word = take (MAX_LINE_LENGTH - 1) (takeWhile (\<lambda>c. \<not> c_isspace c) p)
      in if p = [] then Inl Pp_Syntax
         else if pp_is_ident_start (hd word) then
           (case pp_lookup_define defs word of
              None \<Rightarrow> Inr negate
            | Some v \<Rightarrow>
                (if v = [] then Inr (\<not> negate)
                 else let (n, rest, range) = strtoll0 v in
                   if \<not> range \<and> skip_ws rest = [] then Inr ((n \<noteq> 0) \<noteq> negate) else Inr (\<not> negate)))
         else
           let (n, rest, range) = strtoll0 word in
           if range \<or> skip_ws rest \<noteq> [] then Inl Pp_Syntax else Inr ((n \<noteq> 0) \<noteq> negate))"

text \<open>The stack of open conditionals, innermost first: whether the text around was active, and
  whether a branch was taken.\<close>

record pp_state =
  pp_defines :: define_table
  pp_conds :: "(bool \<times> bool) list"
  pp_active :: bool
  pp_macros :: macro_state
  pp_output :: string

definition push_cond :: "bool \<Rightarrow> pp_state \<Rightarrow> pp_state" where
  "push_cond c st =
     (let taken = pp_active st \<and> c
      in st\<lparr>pp_conds := (pp_active st, taken) # pp_conds st, pp_active := taken\<rparr>)"

definition open_cond :: "(pp_state \<Rightarrow> pp_error + bool) \<Rightarrow> pp_state \<Rightarrow> pp_error + pp_state" where
  "open_cond c st =
     (if PP_MAX_COND_DEPTH \<le> length (pp_conds st) then Inl Pp_Constraint
      else if pp_active st then (case c st of Inl e \<Rightarrow> Inl e | Inr b \<Rightarrow> Inr (push_cond b st))
      else Inr (push_cond False st))"

definition symbol_defined :: "string \<Rightarrow> pp_state \<Rightarrow> bool" where
  "symbol_defined name st \<longleftrightarrow> pp_lookup_define (pp_defines st) name \<noteq> None \<or> is_macro_name (pp_macros st) name"

definition else_branch :: "pp_state \<Rightarrow> pp_error + pp_state" where
  "else_branch st =
     (case pp_conds st of
        [] \<Rightarrow> Inl Pp_Syntax
      | (parent, taken) # cs \<Rightarrow> Inr (st\<lparr>pp_active := (parent \<and> \<not> taken), pp_conds := (parent, True) # cs\<rparr>))"

definition end_branch :: "pp_state \<Rightarrow> pp_error + pp_state" where
  "end_branch st =
     (case pp_conds st of
        [] \<Rightarrow> Inl Pp_Syntax
      | (parent, taken) # cs \<Rightarrow> Inr (st\<lparr>pp_active := parent, pp_conds := cs\<rparr>))"

text \<open>The conditional directives, the same in both passes: \<open>None\<close> when the line is none of them.\<close>

definition conditional_line :: "string \<Rightarrow> pp_state \<Rightarrow> (pp_error + pp_state) option" where
  "conditional_line line st =
     (case pp_parse_expr_directive line ''%if'' of
        Some expr \<Rightarrow> Some (open_cond (\<lambda>s. pp_eval_number_or_symbol expr (pp_defines s)) st)
      | None \<Rightarrow>
      (case pp_parse_symbol_directive line ''%ifdef'' of
        Inl e \<Rightarrow> Some (Inl e)
      | Inr (Some name) \<Rightarrow> Some (open_cond (\<lambda>s. Inr (symbol_defined name s)) st)
      | Inr None \<Rightarrow>
      (case pp_parse_symbol_directive line ''%ifndef'' of
        Inl e \<Rightarrow> Some (Inl e)
      | Inr (Some name) \<Rightarrow> Some (open_cond (\<lambda>s. Inr (\<not> symbol_defined name s)) st)
      | Inr None \<Rightarrow>
          (if starts_with_word ''%else'' (skip_ws line) then Some (else_branch st)
           else if starts_with_word ''%endif'' (skip_ws line) then Some (end_branch st)
           else None))))"

section \<open>Substitution\<close>

text \<open>The text with the defined names outside quotes replaced; \<open>None\<close> when it does not fit into
  \<open>out_size\<close> bytes. \<open>pos\<close> is the number of bytes already written.\<close>

function (sequential) substitute_from ::
  "define_table \<Rightarrow> nat \<Rightarrow> nat \<Rightarrow> bool \<Rightarrow> bool \<Rightarrow> string \<Rightarrow> string option" where
  "substitute_from defs out_size pos in_single in_double [] = Some []"
| "substitute_from defs out_size pos in_single in_double (c # cs) =
     (if \<not> pos + 1 < out_size then None
      else if \<not> in_single \<and> c = DQUOTE then
        map_option (Cons c) (substitute_from defs out_size (pos + 1) in_single (\<not> in_double) cs)
      else if \<not> in_double \<and> c = SQUOTE then
        map_option (Cons c) (substitute_from defs out_size (pos + 1) (\<not> in_single) in_double cs)
      else if \<not> in_single \<and> \<not> in_double \<and> pp_is_ident_start c then
        (let name = c # take (MAX_LABEL_LENGTH - 2) (takeWhile word_char cs);
             t = (case pp_lookup_define defs name of Some v \<Rightarrow> v | None \<Rightarrow> name)
         in if pos + length t + 1 \<ge> out_size then None
            else map_option (append t)
              (substitute_from defs out_size (pos + length t) in_single in_double (drop (length name - 1) cs)))
      else map_option (Cons c) (substitute_from defs out_size (pos + 1) in_single in_double cs))"
  by pat_completeness auto
termination by (relation "measure (\<lambda>(_, _, _, _, _, s). length s)") auto

declare substitute_from.simps [simp del]

definition pp_substitute_defines :: "string \<Rightarrow> define_table \<Rightarrow> nat \<Rightarrow> string option" where
  "pp_substitute_defines line defs out_size =
     (if out_size = 0 then None else substitute_from defs out_size 0 False False line)"

end
