(* ===== verification/Includes.thy ===== *)
theory Includes
  imports Preprocessor
begin

text \<open>
  Include files of src/x86_64_parser.c: \<open>dirname_from_path\<close>, \<open>parse_include_filename\<close>,
  \<open>is_system_include_path\<close>, \<open>track_dependency\<close>, \<open>is_circular_include\<close>,
  \<open>expand_includes_recursive\<close>, and the stack of sources behind \<open>source_getc\<close>. The file system is
  the parameter \<open>files\<close>, from paths to contents; \<open>ASM_TEST_SYSTEM_INCLUDE_PATH\<close> of the
  environment is a field of the configuration. The nesting of includes is bounded, and the number
  of levels left is the recursion argument.
\<close>

section \<open>Paths\<close>

abbreviation (input) MAX_FILEPATH_LENGTH :: nat where "MAX_FILEPATH_LENGTH \<equiv> 512"
abbreviation (input) MAX_INCLUDE_DEPTH :: nat where "MAX_INCLUDE_DEPTH \<equiv> 10"
abbreviation (input) MAX_DEPENDENCIES :: nat where "MAX_DEPENDENCIES \<equiv> 256"

text \<open>The text before the last slash.\<close>

definition before_slash :: "string \<Rightarrow> string" where
  "before_slash path = rev (tl (dropWhile (\<lambda>c. c \<noteq> CHR ''/'') (rev path)))"

definition dirname_from_path :: "string \<Rightarrow> string" where
  "dirname_from_path path =
     (if CHR ''/'' \<notin> set path then ''.''
      else if before_slash path = [] then ''/''
      else copy_bounded_text MAX_FILEPATH_LENGTH (before_slash path))"

text \<open>\<open>None\<close> inside when the line is no include directive.\<close>

definition parse_include_filename :: "string \<Rightarrow> pp_error + string option" where
  "parse_include_filename line =
     (let p = skip_ws line in
      if \<not> starts_with_word ''.include'' p \<and> \<not> starts_with_word ''include'' p then Inr None
      else
        let q = skip_ws (drop (if hd p = CHR ''.'' then 8 else 7) p)
        in if q = [] \<or> (hd q \<noteq> DQUOTE \<and> hd q \<noteq> SQUOTE) then Inl Pp_Syntax
           else
             let name = take (MAX_FILEPATH_LENGTH - 1) (takeWhile (\<lambda>c. c \<noteq> hd q) (tl q));
                 rest = drop (length name) (tl q)
             in if rest = [] \<or> hd rest \<noteq> hd q then Inl Pp_Syntax
                else if name = [] then Inl Pp_Syntax
                else Inr (Some name))"

definition has_prefix_dir :: "string \<Rightarrow> string \<Rightarrow> bool" where
  "has_prefix_dir path dir \<longleftrightarrow>
     take (length dir) path = dir \<and>
     (length path = length dir \<or> path ! length dir = CHR ''/'')"

record pp_config =
  cfg_filename :: string
  cfg_include_paths :: "string list"
  cfg_defines :: "(string \<times> string) list"
  cfg_generate_deps :: bool
  cfg_deps_exclude_system :: bool
  cfg_test_system_path :: "string option"

definition is_system_include_path :: "pp_config \<Rightarrow> string \<Rightarrow> bool" where
  "is_system_include_path cfg path \<longleftrightarrow>
     path \<noteq> [] \<and> hd path = CHR ''/'' \<and>
     (has_prefix_dir path ''/usr/include'' \<or> has_prefix_dir path ''/usr/local/include''
      \<or> has_prefix_dir path ''/include''
      \<or> (case cfg_test_system_path cfg of Some d \<Rightarrow> has_prefix_dir path d | None \<Rightarrow> False))"

section \<open>Includes in the source text\<close>

record include_state =
  inc_tracker :: "string list"
  inc_dependencies :: "string list"

definition track_dependency :: "pp_config \<Rightarrow> string \<Rightarrow> include_state \<Rightarrow> include_state" where
  "track_dependency cfg path inc =
     (if \<not> cfg_generate_deps cfg then inc
      else if cfg_deps_exclude_system cfg \<and> is_system_include_path cfg path then inc
      else if path \<in> set (inc_dependencies inc) then inc
      else if length (inc_dependencies inc) < MAX_DEPENDENCIES \<and> length path < MAX_FILEPATH_LENGTH
      then inc\<lparr>inc_dependencies := inc_dependencies inc @ [path]\<rparr>
      else inc)"

definition is_circular_include :: "include_state \<Rightarrow> string \<Rightarrow> bool" where
  "is_circular_include inc path \<longleftrightarrow> path \<in> set (inc_tracker inc)"

definition push_tracker :: "string \<Rightarrow> include_state \<Rightarrow> include_state" where
  "push_tracker path inc =
     (if length (inc_tracker inc) < MAX_INCLUDE_DEPTH
      then inc\<lparr>inc_tracker := inc_tracker inc @ [path]\<rparr> else inc)"

definition pop_tracker :: "include_state \<Rightarrow> include_state" where
  "pop_tracker inc = inc\<lparr>inc_tracker := butlast (inc_tracker inc)\<rparr>"

definition rename_tracker :: "string \<Rightarrow> include_state \<Rightarrow> include_state" where
  "rename_tracker path inc =
     (if length (inc_tracker inc) < MAX_INCLUDE_DEPTH
      then inc\<lparr>inc_tracker := butlast (inc_tracker inc) @ [path]\<rparr> else inc)"

text \<open>\<open>read_file_contents\<close>: the content with a line feed behind it, as a C string.\<close>

type_synonym file_system = "string \<Rightarrow> string option"

definition read_file_contents :: "file_system \<Rightarrow> string \<Rightarrow> string option" where
  "read_file_contents files path = map_option (\<lambda>content. c_str (content @ [LF])) (files path)"

definition join_path :: "string \<Rightarrow> string \<Rightarrow> string" where
  "join_path dir name = dir @ ''/'' @ name"

definition resolve_include :: "string \<Rightarrow> string \<Rightarrow> pp_error + string" where
  "resolve_include base_dir name =
     (if hd name = CHR ''/'' then Inr (copy_bounded_text MAX_FILEPATH_LENGTH name)
      else let path = (if base_dir = [] \<or> base_dir = ''.'' then name else join_path base_dir name)
        in if MAX_FILEPATH_LENGTH \<le> length path then Inl Pp_Constraint else Inr path)"

text \<open>The search paths, the first one that has the file.\<close>

fun search_paths :: "file_system \<Rightarrow> string list \<Rightarrow> string \<Rightarrow> (string \<times> string) option" where
  "search_paths files [] name = None"
| "search_paths files (d # ds) name =
     (if length (join_path d name) < MAX_FILEPATH_LENGTH
      then (case read_file_contents files (join_path d name) of
              Some content \<Rightarrow> Some (join_path d name, content)
            | None \<Rightarrow> search_paths files ds name)
      else search_paths files ds name)"

text \<open>Opening an include: its path, its content and the state with the file on the tracker.\<close>

definition open_include ::
  "file_system \<Rightarrow> pp_config \<Rightarrow> string \<Rightarrow> string \<Rightarrow> include_state \<Rightarrow> pp_error + string \<times> string \<times> include_state" where
  "open_include files cfg base_dir name inc =
     (case resolve_include base_dir name of
        Inl e \<Rightarrow> Inl e
      | Inr path \<Rightarrow>
          (if is_circular_include inc path then Inl Pp_Constraint
           else
             let inc1 = push_tracker path inc
             in case read_file_contents files path of
                  Some content \<Rightarrow> Inr (path, content, track_dependency cfg path inc1)
                | None \<Rightarrow>
                    (case (if hd name = CHR ''/'' then None else search_paths files (cfg_include_paths cfg) name) of
                       Some (path', content) \<Rightarrow>
                         Inr (path', content, track_dependency cfg path' (rename_tracker path' inc1))
                     | None \<Rightarrow> Inl Pp_IO)))"

function include_lines ::
  "(string \<Rightarrow> string \<Rightarrow> include_state \<Rightarrow> pp_error + string \<times> include_state) \<Rightarrow> file_system \<Rightarrow> pp_config
    \<Rightarrow> string \<Rightarrow> string \<Rightarrow> include_state \<Rightarrow> string \<Rightarrow> pp_error + string \<times> include_state" where
  "include_lines child files cfg base_dir s inc out =
     (if s = [] then Inr (out, inc)
      else let (line, nl, rest) = read_line s in
        case parse_include_filename line of
          Inl e \<Rightarrow> Inl e
        | Inr (Some name) \<Rightarrow>
            (case open_include files cfg base_dir name inc of
               Inl e \<Rightarrow> Inl e
             | Inr (path, content, inc1) \<Rightarrow>
                 (case child content (dirname_from_path path) inc1 of
                    Inl e \<Rightarrow> Inl e
                  | Inr (t, inc2) \<Rightarrow> include_lines child files cfg base_dir rest (pop_tracker inc2) (out @ t)))
        | Inr None \<Rightarrow>
            include_lines child files cfg base_dir rest inc (out @ line @ (if nl then [LF] else [])))"
  by pat_completeness auto
termination
  by (relation "measure (\<lambda>(_, _, _, _, s, _, _). length s)") (auto dest: read_line_progress [OF sym])

declare include_lines.simps [simp del]

primrec expand_includes_recursive ::
  "nat \<Rightarrow> file_system \<Rightarrow> pp_config \<Rightarrow> string \<Rightarrow> string \<Rightarrow> include_state \<Rightarrow> pp_error + string \<times> include_state" where
  "expand_includes_recursive 0 files cfg source base_dir inc = Inl Pp_Constraint"
| "expand_includes_recursive (Suc levels) files cfg source base_dir inc =
     include_lines (expand_includes_recursive levels files cfg) files cfg base_dir source inc []"

text \<open>Depth 0 to \<open>MAX_INCLUDE_DEPTH\<close>.\<close>

definition expand_includes :: "file_system \<Rightarrow> pp_config \<Rightarrow> string \<Rightarrow> include_state \<Rightarrow> pp_error + string \<times> include_state" where
  "expand_includes files cfg source inc =
     expand_includes_recursive (MAX_INCLUDE_DEPTH + 1) files cfg source (dirname_from_path (cfg_filename cfg)) inc"

section \<open>The stack of sources\<close>

text \<open>The entries are kept innermost first; \<open>None\<close> is a source that is not set, and \<open>ss_released\<close>
  says that \<open>source_pos\<close> points into a buffer that was freed.\<close>

record file_entry =
  fe_filename :: string
  fe_pos :: string
  fe_line :: int

record source_stack =
  ss_stack :: "file_entry list"
  ss_tracker :: "string list"
  ss_pos :: "string option"
  ss_line :: int
  ss_filename :: string
  ss_released :: bool

definition include_push :: "string \<Rightarrow> string \<Rightarrow> source_stack \<Rightarrow> pp_error + source_stack" where
  "include_push filename content st =
     (if MAX_INCLUDE_DEPTH \<le> length (ss_stack st) then Inl Pp_Constraint
      else if filename \<in> set (ss_tracker st) then Inl Pp_Constraint
      else
        let name = copy_bounded_text MAX_FILEPATH_LENGTH filename;
            saved = (case ss_stack st of
                       [] \<Rightarrow> []
                     | e # es \<Rightarrow> e\<lparr>fe_pos := (case ss_pos st of Some p \<Rightarrow> p | None \<Rightarrow> []), fe_line := ss_line st\<rparr> # es)
        in Inr (st\<lparr>ss_stack := \<lparr>fe_filename = name, fe_pos = content, fe_line = 1\<rparr> # saved,
               ss_pos := Some content, ss_line := 1, ss_filename := name, ss_released := False,
               ss_tracker := (if length (ss_tracker st) < MAX_INCLUDE_DEPTH then ss_tracker st @ [name]
                              else ss_tracker st)\<rparr>))"

text \<open>The depth that is left, or -1 when there was nothing to pop. The buffer of the file is
  released; the position is only set again when a file is left.\<close>

definition include_pop :: "source_stack \<Rightarrow> int \<times> source_stack" where
  "include_pop st =
     (case ss_stack st of
        [] \<Rightarrow> (-1, st)
      | e # es \<Rightarrow>
          let st1 = st\<lparr>ss_stack := es, ss_tracker := butlast (ss_tracker st)\<rparr>
          in (int (length es),
              case es of
                [] \<Rightarrow> st1\<lparr>ss_released := True\<rparr>
              | e' # _ \<Rightarrow> st1\<lparr>ss_pos := Some (fe_pos e'), ss_line := fe_line e', ss_filename := fe_filename e'\<rparr>))"

definition include_file :: "file_system \<Rightarrow> string \<Rightarrow> source_stack \<Rightarrow> pp_error + source_stack" where
  "include_file files filename st =
     (case read_file_contents files filename of
        None \<Rightarrow> Inl Pp_IO
      | Some content \<Rightarrow> include_push filename content st)"

lemma include_pop_less:
  "ss_stack st \<noteq> [] \<Longrightarrow> length (ss_stack (snd (include_pop st))) < length (ss_stack st)"
  by (cases "ss_stack st") (auto simp: include_pop_def Let_def split: list.splits)

datatype getc = Getc_Char char | Getc_Eof | Getc_Released

function source_getc :: "source_stack \<Rightarrow> getc \<times> source_stack" where
  "source_getc st =
     (if ss_stack st = [] \<and> ss_pos st = None then (Getc_Eof, st)
      else if ss_pos st \<noteq> None \<and> ss_released st then (Getc_Released, st)
      else case ss_pos st of
        Some (c # cs) \<Rightarrow>
          (Getc_Char c, st\<lparr>ss_pos := Some cs, ss_line := (if c = LF then ss_line st + 1 else ss_line st)\<rparr>)
      | _ \<Rightarrow> if ss_stack st \<noteq> [] then source_getc (snd (include_pop st)) else (Getc_Eof, st))"
  by pat_completeness auto
termination
  by (relation "measure (length \<circ> ss_stack)") (auto simp: include_pop_less)

declare source_getc.simps [simp del]

text \<open>At the end of the outermost file the reader frees its buffer and looks into it once more.\<close>

lemma end_of_input_reads_released:
  assumes "ss_stack st = [e]" "ss_pos st = Some []" "\<not> ss_released st"
  shows "fst (source_getc st) = Getc_Released"
proof -
  let ?t = "snd (include_pop st)"
  have t: "ss_stack ?t = []" "ss_pos ?t = Some []" "ss_released ?t"
    using assms by (simp_all add: include_pop_def Let_def)
  have "source_getc st = source_getc ?t"
    using assms by (subst source_getc.simps) simp
  also have "\<dots> = (Getc_Released, ?t)"
    using t by (subst source_getc.simps) simp
  finally show ?thesis by simp
qed

text \<open>A file that was pushed can be popped again, and the reader is back where it was.\<close>

definition stack_ok :: "source_stack \<Rightarrow> bool" where
  "stack_ok st \<longleftrightarrow>
     map fe_filename (rev (ss_stack st)) = ss_tracker st \<and> length (ss_stack st) \<le> MAX_INCLUDE_DEPTH \<and>
     (ss_stack st \<noteq> [] \<longrightarrow> ss_pos st \<noteq> None \<and> ss_filename st = fe_filename (hd (ss_stack st)))"

lemma include_push_ok:
  assumes "stack_ok st" "include_push filename content st = Inr st'"
  shows "stack_ok st'"
proof -
  have "length (ss_tracker st) = length (ss_stack st)"
    using assms(1) by (metis stack_ok_def length_map length_rev)
  then show ?thesis
    using assms by (cases "ss_stack st") (auto simp: include_push_def stack_ok_def Let_def split: if_splits)
qed

lemma include_pop_ok:
  assumes "stack_ok st"
  shows "stack_ok (snd (include_pop st))"
proof -
  have "butlast (ss_tracker st) = map fe_filename (rev (tl (ss_stack st)))"
  proof -
    have "ss_tracker st = map fe_filename (rev (ss_stack st))" using assms by (simp add: stack_ok_def)
    then show ?thesis by (cases "ss_stack st") simp_all
  qed
  with assms show ?thesis
    by (cases "ss_stack st"; cases "tl (ss_stack st)") (auto simp: include_pop_def stack_ok_def Let_def)
qed

lemma include_push_pop:
  assumes "stack_ok st" "ss_stack st \<noteq> []" "include_push filename content st = Inr st'"
  shows "ss_pos (snd (include_pop st')) = ss_pos st \<and> ss_line (snd (include_pop st')) = ss_line st
    \<and> ss_filename (snd (include_pop st')) = ss_filename st \<and> ss_tracker (snd (include_pop st')) = ss_tracker st"
proof -
  have len: "length (ss_tracker st) = length (ss_stack st)"
    using assms(1) by (metis stack_ok_def length_map length_rev)
  show ?thesis
    using assms len
    by (cases "ss_stack st")
      (auto simp: include_push_def include_pop_def stack_ok_def Let_def split: if_splits option.splits)
qed

end
