(* ===== verification/Preprocessor_Passes.thy ===== *)
theory Preprocessor_Passes
  imports Includes
begin

text \<open>
  The two passes of \<open>preprocess_macros\<close>: the first collects the macro definitions, the second
  produces the text, and the parsing of a whole source with them. A pass is a loop over lines;
  one line is a step. A step answers \<open>None\<close> when the code does not return from it.
\<close>

section \<open>Results\<close>

type_synonym 'a pp = "(pp_error + 'a) option"

definition pp_ok :: "'a \<Rightarrow> 'a pp" where
  "pp_ok v = Some (Inr v)"

definition pp_fail :: "pp_error \<Rightarrow> 'a pp" where
  "pp_fail e = Some (Inl e)"

definition pp_bind :: "'a pp \<Rightarrow> ('a \<Rightarrow> 'b pp) \<Rightarrow> 'b pp" where
  "pp_bind x f =
     (case x of None \<Rightarrow> None | Some (Inl e) \<Rightarrow> Some (Inl e) | Some (Inr v) \<Rightarrow> f v)"

lemma pp_bind_cong [fundef_cong]:
  "x = y \<Longrightarrow> (\<And>v. y = Some (Inr v) \<Longrightarrow> f v = g v) \<Longrightarrow> pp_bind x f = pp_bind y g"
  by (auto simp: pp_bind_def split: option.splits sum.splits)

section \<open>The lines of a macro\<close>

text \<open>The body up to the end directive or the end of the text. A body line of exactly 1023
  characters leaves no room for the line feed that is put behind it.\<close>

function read_macro_body :: "macro_state \<Rightarrow> string \<Rightarrow> (macro_state \<times> string) pp" where
  "read_macro_body st s =
     (if s = [] then pp_ok (st, [])
      else let (line, nl, rest) = read_line s in
        if nl \<and> length line = MAX_LINE_LENGTH - 1 then pp_fail Pp_Memory_Fault
        else if is_endm_directive line then pp_ok (macro_end_definition st, rest)
        else read_macro_body (macro_add_body_line line st) rest)"
  by pat_completeness auto
termination
  by (relation "measure (length \<circ> snd)") (auto dest: read_line_progress [OF sym])

function skip_macro_body :: "string \<Rightarrow> string" where
  "skip_macro_body s =
     (if s = [] then []
      else let (line, nl, rest) = read_line s in
        if is_endm_directive line then rest else skip_macro_body rest)"
  by pat_completeness auto
termination
  by (relation "measure length") (auto dest: read_line_progress [OF sym])

declare read_macro_body.simps [simp del] skip_macro_body.simps [simp del]

lemma read_macro_body_length: "read_macro_body st s = Some (Inr (st', r)) \<Longrightarrow> length r \<le> length s"
proof (induction st s rule: read_macro_body.induct)
  case (1 st s)
  show ?case
  proof (cases "s = []")
    case True
    with "1.prems" show ?thesis by (simp add: read_macro_body.simps pp_ok_def)
  next
    case False
    obtain line nl rest where l: "read_line s = (line, nl, rest)" by (cases "read_line s") auto
    note less = read_line_progress [OF l False]
    show ?thesis
    proof (cases "nl \<and> length line = MAX_LINE_LENGTH - 1 \<or> is_endm_directive line")
      case True
      with "1.prems" False l less show ?thesis
        by (subst (asm) read_macro_body.simps) (auto simp: pp_ok_def pp_fail_def split: if_splits)
    next
      case more: False
      with "1.prems" False l have "read_macro_body (macro_add_body_line line st) rest = Some (Inr (st', r))"
        by (subst (asm) read_macro_body.simps) auto
      with "1.IH" [OF False refl l [symmetric] refl] more less show ?thesis by fastforce
    qed
  qed
qed

lemma skip_macro_body_length: "length (skip_macro_body s) \<le> length s"
proof (induction s rule: skip_macro_body.induct)
  case (1 s)
  show ?case
  proof (cases "s = []")
    case False
    obtain line nl rest where l: "read_line s = (line, nl, rest)" by (cases "read_line s") auto
    from "1.IH" [OF False refl l [symmetric] refl] read_line_progress [OF l False] False l show ?thesis
      by (subst skip_macro_body.simps) (auto split: if_splits)
  qed (simp add: skip_macro_body.simps)
qed

section \<open>The first pass\<close>

text \<open>What a line does to the state, and the text that is left when the line opens a macro.\<close>

definition collect_macro :: "string \<Rightarrow> string \<Rightarrow> pp_state \<Rightarrow> (pp_state \<times> string) pp" where
  "collect_macro line rest st =
     (case parse_macro_directive line of
        None \<Rightarrow> None
      | Some None \<Rightarrow> pp_ok (st, rest)
      | Some (Some (name, params)) \<Rightarrow>
          (case macro_define name (pp_macros st) of
             Inl e \<Rightarrow> pp_fail e
           | Inr ms \<Rightarrow>
               pp_bind (read_macro_body (fold macro_add_param params ms) rest)
                 (\<lambda>(ms', rest'). pp_ok (st\<lparr>pp_macros := ms'\<rparr>, rest'))))"

definition collect_line :: "string \<Rightarrow> string \<Rightarrow> pp_state \<Rightarrow> (pp_state \<times> string) pp" where
  "collect_line line rest st =
     (case conditional_line line st of
        Some (Inl e) \<Rightarrow> pp_fail e
      | Some (Inr st') \<Rightarrow> pp_ok (st', rest)
      | None \<Rightarrow>
          (if \<not> pp_active st then pp_ok (st, rest)
           else case pp_parse_define_directive line of
             Inl e \<Rightarrow> pp_fail e
           | Inr (Some (name, v)) \<Rightarrow>
               (case pp_define_set (pp_defines st) name v of
                  Inl e \<Rightarrow> pp_fail e
                | Inr defs \<Rightarrow> pp_ok (st\<lparr>pp_defines := defs\<rparr>, rest))
           | Inr None \<Rightarrow> collect_macro line rest st))"

lemma collect_line_length:
  assumes "collect_line line rest st = Some (Inr (st', r))"
  shows "length r \<le> length rest"
  using assms
  by (auto simp: collect_line_def collect_macro_def pp_ok_def pp_fail_def pp_bind_def
      split: option.splits sum.splits if_splits dest: read_macro_body_length)

function collect_pass :: "string \<Rightarrow> pp_state \<Rightarrow> pp_state pp" where
  "collect_pass s st =
     (if s = [] then (if pp_conds st \<noteq> [] then pp_fail Pp_Syntax else pp_ok st)
      else let (line, nl, rest) = read_line s in
        pp_bind (collect_line line rest st) (\<lambda>(st', rest'). collect_pass rest' st'))"
  by pat_completeness auto
termination
  by (relation "measure (length \<circ> fst)")
    (auto dest!: collect_line_length dest: read_line_progress [OF sym] intro: le_less_trans)

section \<open>The second pass\<close>

definition add_output :: "string \<Rightarrow> pp_state \<Rightarrow> pp_state" where
  "add_output t st = st\<lparr>pp_output := pp_output st @ t\<rparr>"

text \<open>A line of program text: substitution, then \<open>times\<close>, a macro, or the line itself.\<close>

definition program_line :: "string \<Rightarrow> pp_state \<Rightarrow> pp_state pp" where
  "program_line line st =
     (case pp_substitute_defines line (pp_defines st) (MAX_LINE_LENGTH * 4) of
        None \<Rightarrow> pp_fail Pp_Constraint
      | Some t \<Rightarrow>
          (case parse_times_directive t of
             Some (n, inst) \<Rightarrow> pp_ok (add_output (concat (replicate n (inst @ [LF]))) st)
           | None \<Rightarrow>
               (case parse_macro_invocation (pp_macros st) t of
                  None \<Rightarrow> pp_ok (add_output (t @ [LF]) st)
                | Some (name, args) \<Rightarrow>
                    (case expand_macro name args (pp_macros st) of
                       Inl e \<Rightarrow> pp_fail e
                     | Inr (body, ms) \<Rightarrow>
                         (case pp_substitute_defines body (pp_defines st) (MAX_LINE_LENGTH * 8) of
                            None \<Rightarrow> pp_fail Pp_Constraint
                          | Some u \<Rightarrow> pp_ok (add_output u (st\<lparr>pp_macros := ms\<rparr>)))))))"

definition emit_line :: "string \<Rightarrow> string \<Rightarrow> pp_state \<Rightarrow> (pp_state \<times> string) pp" where
  "emit_line line rest st =
     (if \<not> pp_active st then pp_ok (st, rest)
      else case parse_macro_directive line of
        None \<Rightarrow> None
      | Some (Some _) \<Rightarrow> pp_ok (st, skip_macro_body rest)
      | Some None \<Rightarrow> pp_bind (program_line line st) (\<lambda>st'. pp_ok (st', rest)))"

definition output_line :: "string \<Rightarrow> string \<Rightarrow> pp_state \<Rightarrow> (pp_state \<times> string) pp" where
  "output_line line rest st =
     (case conditional_line line st of
        Some (Inl e) \<Rightarrow> pp_fail e
      | Some (Inr st') \<Rightarrow> pp_ok (st', rest)
      | None \<Rightarrow>
          (if pp_active st \<and> pp_parse_expr_directive line ''%error'' \<noteq> None then pp_fail Pp_Preprocessor
           else if pp_active st \<and> pp_parse_expr_directive line ''%warning'' \<noteq> None then pp_ok (st, rest)
           else case pp_parse_define_directive line of
             Inl e \<Rightarrow> pp_fail e
           | Inr d \<Rightarrow>
               (if pp_active st \<and> d \<noteq> None
                then (case pp_define_set (pp_defines st) (fst (the d)) (snd (the d)) of
                        Inl e \<Rightarrow> pp_fail e
                      | Inr defs \<Rightarrow> pp_ok (st\<lparr>pp_defines := defs\<rparr>, rest))
                else emit_line line rest st)))"

lemma output_line_length:
  assumes "output_line line rest st = Some (Inr (st', r))"
  shows "length r \<le> length rest"
  using assms skip_macro_body_length [of rest]
  by (auto simp: output_line_def emit_line_def pp_ok_def pp_fail_def pp_bind_def
      split: option.splits sum.splits if_splits)

function output_pass :: "string \<Rightarrow> pp_state \<Rightarrow> pp_state pp" where
  "output_pass s st =
     (if s = [] then (if pp_conds st \<noteq> [] then pp_fail Pp_Syntax else pp_ok st)
      else let (line, nl, rest) = read_line s in
        pp_bind (output_line line rest st) (\<lambda>(st', rest'). output_pass rest' st'))"
  by pat_completeness auto
termination
  by (relation "measure (length \<circ> fst)")
    (auto dest!: output_line_length dest: read_line_progress [OF sym] intro: le_less_trans)

declare collect_pass.simps [simp del] output_pass.simps [simp del]

section \<open>Both passes\<close>

text \<open>The names given on the command line; one without a value is 1. The second pass ignores the
  status.\<close>

fun seed_defines :: "(string \<times> string) list \<Rightarrow> define_table \<Rightarrow> pp_error + define_table" where
  "seed_defines [] defs = Inr defs"
| "seed_defines ((name, v) # ds) defs =
     (case pp_define_set defs name (if v = [] then ''1'' else v) of
        Inl e \<Rightarrow> Inl Pp_CLI
      | Inr defs' \<Rightarrow> seed_defines ds defs')"

definition start_pass :: "define_table \<Rightarrow> macro_state \<Rightarrow> pp_state" where
  "start_pass defs ms = \<lparr>pp_defines = defs, pp_conds = [], pp_active = True, pp_macros = ms, pp_output = []\<rparr>"

definition preprocess_macros ::
  "file_system \<Rightarrow> pp_config \<Rightarrow> string \<Rightarrow> include_state \<Rightarrow> (string \<times> macro_state \<times> include_state) pp" where
  "preprocess_macros files cfg source inc =
     (case expand_includes files cfg source inc of
        Inl e \<Rightarrow> pp_fail e
      | Inr (s, inc') \<Rightarrow>
          (case seed_defines (cfg_defines cfg) [] of
             Inl e \<Rightarrow> pp_fail e
           | Inr defs \<Rightarrow>
               pp_bind (collect_pass s (start_pass defs macro_reset)) (\<lambda>st1.
               pp_bind (output_pass s (start_pass defs (pp_macros st1))) (\<lambda>st2.
                 pp_ok (pp_output st2, pp_macros st2, inc')))))"

end
