(* ===== verification/Whole_Source.thy ===== *)
theory Whole_Source
  imports Preprocessor_Passes Instruction_Parser
begin

text \<open>
  Parsing a source text (\<open>parse_source_common\<close> of src/x86_64_parser.c): \<open>times\<close> is expanded
  first, then, with a context, includes, definitions and macros, and the result is parsed.
  The macro tables keep their bounds through both passes.
\<close>

section \<open>The whole of parsing\<close>

datatype source_error = Preprocessing_Failed pp_error | Parsing_Failed parse_error

definition parse_source ::
  "string \<Rightarrow> (parse_error + parsed_instruction list \<times> parser_state) option" where
  "parse_source source = parse_source_internal False False (parser_expand_times_only source)"

definition parse_source_with_context ::
  "file_system \<Rightarrow> pp_config \<Rightarrow> bool \<Rightarrow> bool \<Rightarrow> string \<Rightarrow> include_state
    \<Rightarrow> (source_error + parsed_instruction list \<times> parser_state) option" where
  "parse_source_with_context files cfg warn_all as_errors source inc =
     (case preprocess_macros files cfg (parser_expand_times_only source) inc of
        None \<Rightarrow> None
      | Some (Inl e) \<Rightarrow> Some (Inl (Preprocessing_Failed e))
      | Some (Inr (t, _)) \<Rightarrow>
          map_option (\<lambda>r. case r of Inl e \<Rightarrow> Inl (Parsing_Failed e) | Inr v \<Rightarrow> Inr v)
            (parse_source_internal warn_all as_errors t))"

section \<open>Bounds of the macro tables\<close>

definition macro_ok :: "macro \<Rightarrow> bool" where
  "macro_ok m \<longleftrightarrow>
     length (mc_name m) < MAX_LABEL_LENGTH \<and> length (mc_params m) \<le> MAX_MACRO_PARAMS \<and>
     length (mc_body m) \<le> MAX_MACRO_BODY_LINES \<and>
     (\<forall>p\<in>set (mc_params m). length p < MAX_LABEL_LENGTH) \<and>
     (\<forall>l\<in>set (mc_body m). length l < MAX_LINE_LENGTH)"

definition macros_ok :: "macro_state \<Rightarrow> bool" where
  "macros_ok st \<longleftrightarrow>
     length (macros st) + (if current_macro st = None then 0 else 1) \<le> MAX_MACROS
     \<and> (\<forall>m\<in>set (macros st). macro_ok m) \<and> (\<forall>m. current_macro st = Some m \<longrightarrow> macro_ok m)"

lemma macro_reset_ok: "macros_ok macro_reset"
  by (simp add: macros_ok_def macro_reset_def)

lemma macro_define_ok:
  "macros_ok st \<Longrightarrow> macro_define name st = Inr st' \<Longrightarrow> macros_ok st'"
  by (auto simp: macros_ok_def macro_define_def macro_ok_def length_copy_bounded_text split: if_splits)

lemma macro_add_param_ok: "macros_ok st \<Longrightarrow> macros_ok (macro_add_param name st)"
  by (auto simp: macros_ok_def macro_add_param_def macro_ok_def length_copy_bounded_text split: option.splits)

lemma macro_add_body_line_ok: "macros_ok st \<Longrightarrow> macros_ok (macro_add_body_line line st)"
  by (auto simp: macros_ok_def macro_add_body_line_def macro_ok_def length_copy_bounded_text split: option.splits)

lemma macro_end_definition_ok: "macros_ok st \<Longrightarrow> macros_ok (macro_end_definition st)"
  by (auto simp: macros_ok_def macro_end_definition_def split: option.splits)

lemma read_macro_body_ok:
  "macros_ok st \<Longrightarrow> read_macro_body st s = Some (Inr (st', r)) \<Longrightarrow> macros_ok st'"
proof (induction st s rule: read_macro_body.induct)
  case (1 st s)
  show ?case
  proof (cases "s = []")
    case True
    with "1.prems" show ?thesis by (simp add: read_macro_body.simps pp_ok_def)
  next
    case False
    obtain line nl rest where l: "read_line s = (line, nl, rest)" by (cases "read_line s") auto
    show ?thesis
    proof (cases "nl \<and> length line = MAX_LINE_LENGTH - 1 \<or> is_endm_directive line")
      case True
      with "1.prems" False l show ?thesis
        by (subst (asm) read_macro_body.simps)
          (auto simp: pp_ok_def pp_fail_def macro_end_definition_ok split: if_splits)
    next
      case more: False
      with "1.prems" False l have "read_macro_body (macro_add_body_line line st) rest = Some (Inr (st', r))"
        by (subst (asm) read_macro_body.simps) auto
      with "1.IH" [OF False refl l [symmetric] refl] more macro_add_body_line_ok [OF "1.prems"(1)]
      show ?thesis by blast
    qed
  qed
qed

lemma fold_add_param_ok: "macros_ok st \<Longrightarrow> macros_ok (fold macro_add_param ps st)"
  by (induction ps arbitrary: st) (auto simp: macro_add_param_ok)

lemma conditional_line_macros:
  "conditional_line line st = Some (Inr st') \<Longrightarrow> pp_macros st' = pp_macros st"
  by (auto simp: conditional_line_def open_cond_def push_cond_def else_branch_def end_branch_def Let_def
      split: option.splits sum.splits if_splits list.splits)

lemma collect_macro_ok:
  assumes "macros_ok (pp_macros st)" "collect_macro line rest st = Some (Inr (st', r))"
  shows "macros_ok (pp_macros st')"
proof -
  from assms(2) consider "st' = st"
    | name params ms ms' where "macro_define name (pp_macros st) = Inr ms"
        "read_macro_body (fold macro_add_param params ms) rest = Some (Inr (ms', r))" "pp_macros st' = ms'"
    by (auto simp: collect_macro_def pp_ok_def pp_fail_def pp_bind_def split: option.splits sum.splits)
  then show ?thesis
  proof cases
    case 2
    from read_macro_body_ok [OF fold_add_param_ok [OF macro_define_ok [OF assms(1) 2(1)]] 2(2)] 2(3)
    show ?thesis by simp
  qed (use assms(1) in simp)
qed

lemma collect_line_ok:
  assumes "macros_ok (pp_macros st)" "collect_line line rest st = Some (Inr (st', r))"
  shows "macros_ok (pp_macros st')"
  using assms
  by (auto simp: collect_line_def pp_ok_def pp_fail_def conditional_line_macros
      split: option.splits sum.splits if_splits intro: collect_macro_ok)

lemma collect_pass_ok:
  "macros_ok (pp_macros st) \<Longrightarrow> collect_pass s st = Some (Inr st') \<Longrightarrow> macros_ok (pp_macros st')"
proof (induction s st rule: collect_pass.induct)
  case (1 s st)
  show ?case
  proof (cases "s = []")
    case True
    with "1.prems" show ?thesis by (auto simp: collect_pass.simps pp_ok_def pp_fail_def split: if_splits)
  next
    case False
    obtain line nl rest where l: "read_line s = (line, nl, rest)" by (cases "read_line s") auto
    from "1.prems"(2) False l obtain st1 r where c: "collect_line line rest st = Some (Inr (st1, r))"
      "collect_pass r st1 = Some (Inr st')"
      by (subst (asm) collect_pass.simps) (auto simp: pp_bind_def split: option.splits sum.splits)
    from "1.IH" [OF False refl l [symmetric] refl c(1) refl collect_line_ok [OF "1.prems"(1) c(1)] c(2)]
    show ?thesis .
  qed
qed

end
