(* ===== verification/Source_Properties.thy ===== *)
theory Source_Properties
  imports Whole_Source
begin

text \<open>
  The properties of the rewriting of source text before it is parsed.
\<close>

section \<open>The times directive\<close>

lemma times_two: "parse_times_directive ''times 2 nop'' = Some (2, ''nop'')" by code_simp

lemma times_two_line: "read_line ''times 2 nop'' = (''times 2 nop'', False, [])" by code_simp

lemma times_two_expanded: "times_expanded ''times 2 nop'' = ''nop'' @ LF # ''nop'' @ [LF]"
  by (subst times_expanded.simps, subst times_expanded.simps)
    (simp add: times_two_line times_two expanded_line_def numeral_2_eq_2)

text \<open>C37 (equivalence). As long as the expanded text is shorter than four times the source, expanding the times
  directives into the fixed buffer gives every line of the source, with the instruction of each
  directive written as often as its count says.\<close>

theorem times_expansion_complete:
  assumes "length (times_expanded source) < 4 * length source"
  shows "parser_expand_times_only source = times_expanded source"
  using expand_times_lines_fits [of "[]" source "length source * 4 + 1"] assms
  by (simp add: parser_expand_times_only_def mult.commute)

lemma times_expansion_complete_witness:
  "parser_expand_times_only ''times 2 nop'' = ''nop'' @ LF # ''nop'' @ [LF]"
  using times_expansion_complete [of "''times 2 nop''"] by (simp add: times_two_expanded)

text \<open>Beyond that the copies that do not fit are dropped without a diagnostic: a hundred become twelve.\<close>

lemma times_hundred: "parse_times_directive ''times 100 nop'' = Some (100, ''nop'')" by code_simp

lemma times_hundred_line: "read_line ''times 100 nop'' = (''times 100 nop'', False, [])" by code_simp

lemma times_hundred_copies:
  "repeat_line 53 100 ''nop'' [] = concat (replicate 12 (''nop'' @ [LF]))" by code_simp

lemma times_hundred_truncated:
  "parser_expand_times_only ''times 100 nop'' = concat (replicate 12 (''nop'' @ [LF]))"
  unfolding parser_expand_times_only_def
  by (subst expand_times_lines.simps, subst expand_times_lines.simps)
    (simp add: times_hundred_line times_hundred times_hundred_copies)

end
