(* ===== verification/Output_Bytes.thy ===== *)
theory Output_Bytes
  imports Characters Dispatch
begin

text \<open>
  The byte level of the output writers of src/x86_64_asm.c: \<open>align_up\<close>, the checked appends to a
  bounded buffer, ULEB128 and SLEB128 with the decoding the DWARF standard gives for them,
  \<open>path_basename\<close> and \<open>path_dirname\<close>. An append that does not fit answers \<open>None\<close>; the writer
  gives up on the first one.
\<close>

section \<open>Alignment\<close>

definition align_up :: "u64 \<Rightarrow> u64 \<Rightarrow> u64" where
  "align_up v align = (if align = 0 then v else (v + align - 1) AND NOT (align - 1))"

section \<open>Checked appends\<close>

definition append_bytes_checked :: "nat \<Rightarrow> u8 list \<Rightarrow> u8 list \<Rightarrow> u8 list option" where
  "append_bytes_checked capacity src buf =
     (if capacity < length buf + length src then None else Some (buf @ src))"

definition append_u8_checked :: "nat \<Rightarrow> u8 \<Rightarrow> u8 list \<Rightarrow> u8 list option" where
  "append_u8_checked capacity v = append_bytes_checked capacity [v]"

definition append_le16_buf_checked :: "nat \<Rightarrow> u16 \<Rightarrow> u8 list \<Rightarrow> u8 list option" where
  "append_le16_buf_checked capacity v = append_bytes_checked capacity (le16 v)"

definition append_le32_buf_checked :: "nat \<Rightarrow> u32 \<Rightarrow> u8 list \<Rightarrow> u8 list option" where
  "append_le32_buf_checked capacity v = append_bytes_checked capacity (le32 v)"

definition append_le64_buf_checked :: "nat \<Rightarrow> u64 \<Rightarrow> u8 list \<Rightarrow> u8 list option" where
  "append_le64_buf_checked capacity v = append_bytes_checked capacity (le64 v)"

text \<open>The offset is checked against the capacity, not against the bytes in use.\<close>

definition write_le32_at_checked :: "nat \<Rightarrow> nat \<Rightarrow> u32 \<Rightarrow> u8 list \<Rightarrow> u8 list option" where
  "write_le32_at_checked capacity off v buf =
     (if capacity < off + 4 then None else Some (patch off (le32 v) buf))"

section \<open>LEB128\<close>

function append_uleb128_checked :: "nat \<Rightarrow> u32 \<Rightarrow> u8 list \<Rightarrow> u8 list option" where
  "append_uleb128_checked capacity v buf =
     (let byte = (ucast (v AND 0x7F) :: u8); rest = drop_bit 7 v in
      case append_u8_checked capacity (if rest \<noteq> 0 then byte OR 0x80 else byte) buf of
        None \<Rightarrow> None
      | Some buf' \<Rightarrow> if rest \<noteq> 0 then append_uleb128_checked capacity rest buf' else Some buf')"
  by pat_completeness auto

text \<open>The arithmetic shift of an \<open>int32_t\<close>.\<close>

function append_sleb128_checked :: "nat \<Rightarrow> u32 \<Rightarrow> u8 list \<Rightarrow> u8 list option" where
  "append_sleb128_checked capacity v buf =
     (let byte = (ucast (v AND 0x7F) :: u8); sign_bit = (byte AND 0x40 \<noteq> 0); rest = signed_drop_bit 7 v;
          more = \<not> ((rest = 0 \<and> \<not> sign_bit) \<or> (rest = -1 \<and> sign_bit)) in
      case append_u8_checked capacity (if more then byte OR 0x80 else byte) buf of
        None \<Rightarrow> None
      | Some buf' \<Rightarrow> if more then append_sleb128_checked capacity rest buf' else Some buf')"
  by pat_completeness auto

text \<open>The same in numbers: seven bits a byte, the top bit on all but the last.\<close>

lemma unat_drop7: "unat (drop_bit 7 (v :: u32)) = unat v div 128"
  by (rule trans [OF unat_drop_bit_eq]) (simp add: drop_bit_eq_div)

lemma drop7_less: "drop_bit 7 (v :: u32) \<noteq> 0 \<Longrightarrow> unat (drop_bit 7 v) < unat v"
proof -
  assume "drop_bit 7 v \<noteq> 0"
  then have "0 < unat v div 128" using unat_drop7 [of v] by (metis unat_eq_zero neq0_conv)
  then show ?thesis unfolding unat_drop7 by (metis div_less_dividend div_0 neq0_conv one_less_numeral_iff semiring_norm(76) less_numeral_extra(3))
qed

termination append_uleb128_checked
  by (relation "measure (\<lambda>(_, v, _). unat v)") (auto simp: drop7_less)

lemma sint_sdrop7: "sint (signed_drop_bit 7 (v :: u32)) = sint v div 128"
  by (simp add: sint_signed_drop_bit_eq drop_bit_eq_div)

lemma low7: "v AND 0x7F = take_bit 7 v" for v :: "'a::len word"
  by (simp add: take_bit_eq_mask mask_eq_exp_minus_1)

lemma unat_low7: "unat (ucast ((v :: u32) AND 0x7F) :: u8) = unat v mod 128"
  unfolding low7 unsigned_ucast_eq unsigned_take_bit_eq by (simp add: take_bit_eq_mod mod_mod_cancel)

lemma take_bit_byte: "unat (b :: u8) < 128 \<Longrightarrow> unat (b OR 0x80) = unat b + 128"
proof -
  assume b: "unat b < 128"
  have "list_all (\<lambda>n. unat ((word_of_nat n :: u8) OR 0x80) = n + 128) [0..<128]" by code_simp
  then have "\<forall>n\<in>{0..<128}. unat ((word_of_nat n :: u8) OR 0x80) = n + 128" by (simp only: list_all_iff set_upt)
  from bspec [OF this, of "unat b"] b show ?thesis by simp
qed

lemma sign_bit_byte: "unat (b :: u8) < 128 \<Longrightarrow> b AND 0x40 \<noteq> 0 \<longleftrightarrow> 64 \<le> unat b"
proof -
  assume b: "unat b < 128"
  have "list_all (\<lambda>n. ((word_of_nat n :: u8) AND 0x40 \<noteq> 0) = (64 \<le> n)) [0..<128]" by code_simp
  then have "\<forall>n\<in>{0..<128}. ((word_of_nat n :: u8) AND 0x40 \<noteq> 0) = (64 \<le> n)" by (simp only: list_all_iff set_upt)
  from bspec [OF this, of "unat b"] b show ?thesis by simp
qed

lemma low7_mod_int: "int (unat (ucast ((v :: u32) AND 0x7F) :: u8)) = sint v mod 128"
proof -
  have "int (unat v mod 128) = uint v mod 128" by (simp add: zmod_int)
  also have "\<dots> = sint v mod 128"
  proof -
    have "uint v = take_bit 32 (sint v)" using uint_sint [of v] by simp
    then show ?thesis by (simp add: take_bit_eq_mod mod_mod_cancel)
  qed
  finally show ?thesis unfolding unat_low7 .
qed

lemma sdrop7_less:
  fixes v :: u32
  assumes "\<not> (sint v div 128 = 0 \<and> sint v mod 128 < 64)" "\<not> (sint v div 128 = -1 \<and> 64 \<le> sint v mod 128)"
  shows "nat \<bar>sint v div 128\<bar> < nat \<bar>sint v\<bar>"
proof -
  have "sint v \<noteq> 0" "sint v \<noteq> -1" using assms by auto
  then show ?thesis by (cases "sint v < 0"; auto; linarith)
qed

definition sleb_more :: "int \<Rightarrow> bool" where
  "sleb_more i \<longleftrightarrow> \<not> ((i div 128 = 0 \<and> i mod 128 < 64) \<or> (i div 128 = -1 \<and> 64 \<le> i mod 128))"

lemma sleb_more_word:
  fixes v :: u32
  defines "byte \<equiv> (ucast (v AND 0x7F) :: u8)"
  shows "\<not> ((signed_drop_bit 7 v = 0 \<and> \<not> byte AND 0x40 \<noteq> 0) \<or> (signed_drop_bit 7 v = -1 \<and> byte AND 0x40 \<noteq> 0))
    \<longleftrightarrow> sleb_more (sint v)"
proof -
  have "unat byte < 128" unfolding byte_def unat_low7 by simp
  from sign_bit_byte [OF this] have "byte AND 0x40 \<noteq> 0 \<longleftrightarrow> 64 \<le> int (unat byte)" by presburger
  then have sign: "byte AND 0x40 \<noteq> 0 \<longleftrightarrow> 64 \<le> sint v mod 128"
    unfolding byte_def low7_mod_int .
  have "signed_drop_bit 7 v = 0 \<longleftrightarrow> sint (signed_drop_bit 7 v) = sint (0 :: u32)"
    "signed_drop_bit 7 v = -1 \<longleftrightarrow> sint (signed_drop_bit 7 v) = sint (-1 :: u32)"
    by (auto intro: signed_word_eqI)
  then have rest: "signed_drop_bit 7 v = 0 \<longleftrightarrow> sint v div 128 = 0" "signed_drop_bit 7 v = -1 \<longleftrightarrow> sint v div 128 = -1"
    unfolding sint_sdrop7 by simp_all
  show ?thesis unfolding rest sign sleb_more_def by auto
qed

termination append_sleb128_checked
proof (relation "measure (\<lambda>(_, v, _). nat \<bar>sint v\<bar>)", goal_cases)
  case (2 capacity v buf byte sign_bit rest more buf')
  have "sleb_more (sint v)" using 2(1-4,6) sleb_more_word [of v] by simp
  then have "nat \<bar>sint v div 128\<bar> < nat \<bar>sint v\<bar>"
    by (intro sdrop7_less) (auto simp: sleb_more_def)
  then show ?case using 2(3) by (simp add: sint_sdrop7)
qed simp

declare append_uleb128_checked.simps [simp del] append_sleb128_checked.simps [simp del]

lemma sleb_less: "sleb_more i \<Longrightarrow> nat \<bar>i div 128\<bar> < nat \<bar>i\<bar>"
proof -
  assume "sleb_more i"
  then have "i \<noteq> 0" "i \<noteq> -1" by (auto simp: sleb_more_def)
  then show ?thesis by (cases "i < 0"; auto; linarith)
qed

text \<open>The encodings of numbers, and the decoding.\<close>

fun uleb_bytes :: "nat \<Rightarrow> u8 list" where
  "uleb_bytes n = (if n < 128 then [word_of_nat n] else word_of_nat (n mod 128 + 128) # uleb_bytes (n div 128))"

function sleb_bytes :: "int \<Rightarrow> u8 list" where
  "sleb_bytes i =
     (if sleb_more i then word_of_int (i mod 128 + 128) # sleb_bytes (i div 128) else [word_of_int (i mod 128)])"
  by pat_completeness auto
termination
  by (relation "measure (\<lambda>i. nat \<bar>i\<bar>)") (auto simp only: in_measure sleb_less wf_measure)

declare uleb_bytes.simps [simp del] sleb_bytes.simps [simp del]

fun read_uleb :: "u8 list \<Rightarrow> (nat \<times> u8 list) option" where
  "read_uleb [] = None"
| "read_uleb (b # bs) =
     (if unat b < 128 then Some (unat b, bs)
      else map_option (\<lambda>(n, r). (unat b - 128 + 128 * n, r)) (read_uleb bs))"

fun read_sleb :: "u8 list \<Rightarrow> (int \<times> u8 list) option" where
  "read_sleb [] = None"
| "read_sleb (b # bs) =
     (if unat b < 64 then Some (int (unat b), bs)
      else if unat b < 128 then Some (int (unat b) - 128, bs)
      else map_option (\<lambda>(n, r). (int (unat b) - 128 + 128 * n, r)) (read_sleb bs))"

lemma unat_byte_nat: "n < 256 \<Longrightarrow> unat (word_of_nat n :: u8) = n"
  by (simp add: unsigned_of_nat take_bit_nat_eq_self)

lemma unat_byte_int: "0 \<le> i \<Longrightarrow> i < 256 \<Longrightarrow> unat (word_of_int i :: u8) = nat i"
  by (subst unsigned_of_int, subst take_bit_int_eq_self) simp_all

lemma read_uleb_bytes: "read_uleb (uleb_bytes n @ r) = Some (n, r)"
proof (induction n rule: uleb_bytes.induct)
  case (1 n)
  have "unat (word_of_nat (n mod 128 + 128) :: u8) = n mod 128 + 128"
    by (rule unat_byte_nat) simp
  with 1 show ?case
    by (cases "n < 128") (simp_all add: uleb_bytes.simps [of n] unat_byte_nat del: of_nat_add)
qed

lemma read_sleb_bytes: "read_sleb (sleb_bytes i @ r) = Some (i, r)"
proof (induction i rule: sleb_bytes.induct)
  case (1 i)
  have m: "0 \<le> i mod 128" "i mod 128 < 128" by simp_all
  show ?case
  proof (cases "sleb_more i")
    case True
    have "unat (word_of_int (i mod 128 + 128) :: u8) = nat (i mod 128) + 128"
      using m by (subst unat_byte_int) auto
    moreover have "sleb_bytes i = word_of_int (i mod 128 + 128) # sleb_bytes (i div 128)"
      using True by (subst sleb_bytes.simps) simp
    ultimately show ?thesis using "1.IH" [OF True] m by (simp del: of_int_add)
  next
    case False
    have "unat (word_of_int (i mod 128) :: u8) = nat (i mod 128)"
      using m by (subst unat_byte_int) auto
    moreover have "sleb_bytes i = [word_of_int (i mod 128)]"
      using False by (subst sleb_bytes.simps) simp
    ultimately have bytes: "read_sleb (sleb_bytes i @ r) =
        (if nat (i mod 128) < 64 then Some (int (nat (i mod 128)), r)
         else if nat (i mod 128) < 128 then Some (int (nat (i mod 128)) - 128, r)
         else map_option (\<lambda>(n, r). (int (nat (i mod 128)) - 128 + 128 * n, r)) (read_sleb r))"
      by (simp only: append.simps read_sleb.simps)
    have nat_mod: "int (nat (i mod 128)) = i mod 128" by simp
    have split: "128 * (i div 128) + i mod 128 = i" by simp
    from False consider "i div 128 = 0" "i mod 128 < 64" | "i div 128 = -1" "64 \<le> i mod 128"
      unfolding sleb_more_def by blast
    then show ?thesis
    proof cases
      case 1
      then have "nat (i mod 128) < 64" "i mod 128 = i" using m split by linarith+
      then show ?thesis unfolding bytes nat_mod by (simp only: if_True)
    next
      case 2
      then have "\<not> nat (i mod 128) < 64" "nat (i mod 128) < 128" "i mod 128 - 128 = i" using m split by linarith+
      then show ?thesis unfolding bytes nat_mod by (simp only: if_True if_False)
    qed
  qed
qed

lemma append_append:
  "append_bytes_checked capacity (a # as) buf =
     (case append_u8_checked capacity a buf of
        None \<Rightarrow> None | Some buf' \<Rightarrow> append_bytes_checked capacity as buf')"
  by (simp add: append_bytes_checked_def append_u8_checked_def)

lemma append_uleb128:
  "append_uleb128_checked capacity v buf = append_bytes_checked capacity (uleb_bytes (unat v)) buf"
proof (induction capacity v buf rule: append_uleb128_checked.induct)
  case (1 capacity v buf)
  let ?byte = "ucast (v AND 0x7F) :: u8"
  have small: "unat ?byte < 128" unfolding unat_low7 by simp
  have zero: "drop_bit 7 v = 0 \<longleftrightarrow> unat v < 128"
    using unat_drop7 [of v] by (metis div_less div_eq_0_iff unat_eq_zero zero_neq_numeral)
  show ?case
  proof (cases "unat v < 128")
    case True
    then have "?byte = word_of_nat (unat v)"
      using unat_low7 [of v] unat_byte_nat [of "unat v"] by (simp add: word_unat_eq_iff)
    with True zero show ?thesis
      by (subst append_uleb128_checked.simps, subst uleb_bytes.simps)
        (auto simp: append_u8_checked_def split: option.splits)
  next
    case False
    have byte: "?byte OR 0x80 = word_of_nat (unat v mod 128 + 128)"
    proof -
      have "unat (?byte OR 0x80) = unat v mod 128 + 128"
        using take_bit_byte [OF small] unfolding unat_low7 .
      moreover have "unat (word_of_nat (unat v mod 128 + 128) :: u8) = unat v mod 128 + 128"
        by (rule unat_byte_nat) simp
      ultimately show ?thesis unfolding word_unat_eq_iff by simp
    qed
    have "append_uleb128_checked capacity v buf =
        (case append_u8_checked capacity (?byte OR 0x80) buf of
           None \<Rightarrow> None
         | Some buf' \<Rightarrow> append_bytes_checked capacity (uleb_bytes (unat v div 128)) buf')"
      using False zero "1.IH"
      by (subst append_uleb128_checked.simps) (auto simp: Let_def unat_drop7 split: option.splits)
    with False byte show ?thesis
      by (subst uleb_bytes.simps) (simp add: append_append)
  qed
qed

lemma sleb_byte:
  fixes v :: u32
  defines "byte \<equiv> (ucast (v AND 0x7F) :: u8)"
  shows "(if sleb_more (sint v) then byte OR 0x80 else byte) =
      word_of_int (if sleb_more (sint v) then sint v mod 128 + 128 else sint v mod 128)"
proof -
  have small: "unat byte < 128" unfolding byte_def unat_low7 by simp
  have byte: "int (unat byte) = sint v mod 128" unfolding byte_def by (rule low7_mod_int)
  have "byte = word_of_int (sint v mod 128)" unfolding byte [symmetric] by simp
  moreover have "byte OR 0x80 = word_of_int (sint v mod 128 + 128)"
  proof -
    have "int (unat (byte OR 0x80)) = sint v mod 128 + 128"
      using take_bit_byte [OF small] byte by simp
    moreover have "unat (word_of_int (sint v mod 128 + 128) :: u8) = nat (sint v mod 128 + 128)"
      by (rule unat_byte_int) auto
    ultimately have "unat (byte OR 0x80) = unat (word_of_int (sint v mod 128 + 128) :: u8)" by arith
    then show ?thesis unfolding word_unat_eq_iff .
  qed
  ultimately show ?thesis by (simp only: if_distrib [where f = word_of_int])
qed

lemma append_sleb_step:
  "append_sleb128_checked capacity v buf =
     (case append_u8_checked capacity
        (word_of_int (if sleb_more (sint v) then sint v mod 128 + 128 else sint v mod 128)) buf of
        None \<Rightarrow> None
      | Some buf' \<Rightarrow>
          if sleb_more (sint v) then append_sleb128_checked capacity (signed_drop_bit 7 v) buf' else Some buf')"
  unfolding append_sleb128_checked.simps [of capacity v buf] Let_def sleb_more_word sleb_byte by (rule refl)

lemma append_sleb128:
  "append_sleb128_checked capacity v buf = append_bytes_checked capacity (sleb_bytes (sint v)) buf"
proof (induction "sint v" arbitrary: v buf rule: sleb_bytes.induct)
  case 1
  show ?case
  proof (cases "sleb_more (sint v)")
    case False
    then show ?thesis
      unfolding append_sleb_step [of capacity v] sleb_bytes.simps [of "sint v"]
      by (simp add: append_u8_checked_def split: option.splits)
  next
    case True
    have "append_sleb128_checked capacity (signed_drop_bit 7 v) buf' =
        append_bytes_checked capacity (sleb_bytes (sint v div 128)) buf'" for buf'
      using "1.hyps" [OF True, of "signed_drop_bit 7 v"] by (simp add: sint_sdrop7)
    with True show ?thesis
      unfolding append_sleb_step [of capacity v] sleb_bytes.simps [of "sint v"]
      by (simp only: if_True append_append)
  qed
qed

section \<open>Paths\<close>

definition path_basename :: "string \<Rightarrow> string" where
  "path_basename path =
     (if path = [] then ''<memory>'' else rev (takeWhile (\<lambda>c. c \<noteq> CHR ''/'') (rev path)))"

definition path_dirname :: "nat \<Rightarrow> string \<Rightarrow> string" where
  "path_dirname out_size path =
     (if CHR ''/'' \<notin> set path then ''.''
      else
        let dir = rev (tl (dropWhile (\<lambda>c. c \<noteq> CHR ''/'') (rev path)))
        in if dir = [] then ''/'' else copy_bounded_text out_size dir)"

end
