(* ===== verification/Dwarf.thy ===== *)
theory Dwarf
  imports Output_Bytes Disassembler "HOL-Library.Monad_Syntax"
begin

text \<open>
  The debug sections that \<open>asm_write_elf64\<close> (src/x86_64_asm.c) builds under \<open>-g\<close>: the string
  table with the text symbols, the abbreviation table, the tree of entries and the line number
  program. Each section is a list of items appended to a buffer of the array's size; \<open>None\<close> is
  the jump to \<open>dwarf_overflow\<close>. Last come the reader of a line number program, as the DWARF 4
  standard defines its opcodes, and the proof that the program written yields the line map.
\<close>

section \<open>Appending items\<close>

datatype dw_item =
    DW_U8 u8 | DW_LE16 u16 | DW_LE32 u32 | DW_LE64 u64 | DW_ULEB u32 | DW_SLEB u32 | DW_BYTES "u8 list"

fun append_item :: "nat \<Rightarrow> dw_item \<Rightarrow> u8 list \<Rightarrow> u8 list option" where
  "append_item capacity (DW_U8 v) = append_u8_checked capacity v"
| "append_item capacity (DW_LE16 v) = append_le16_buf_checked capacity v"
| "append_item capacity (DW_LE32 v) = append_le32_buf_checked capacity v"
| "append_item capacity (DW_LE64 v) = append_le64_buf_checked capacity v"
| "append_item capacity (DW_ULEB v) = append_uleb128_checked capacity v"
| "append_item capacity (DW_SLEB v) = append_sleb128_checked capacity v"
| "append_item capacity (DW_BYTES bs) = append_bytes_checked capacity bs"

fun append_items :: "nat \<Rightarrow> dw_item list \<Rightarrow> u8 list \<Rightarrow> u8 list option" where
  "append_items capacity [] buf = Some buf"
| "append_items capacity (x # xs) buf = do { buf' \<leftarrow> append_item capacity x buf; append_items capacity xs buf' }"

abbreviation INFO_CAPACITY :: nat where "INFO_CAPACITY \<equiv> 16384"
abbreviation ABBREV_CAPACITY :: nat where "ABBREV_CAPACITY \<equiv> 256"
abbreviation LINE_CAPACITY :: nat where "LINE_CAPACITY \<equiv> 65536"
abbreviation STR_CAPACITY :: nat where "STR_CAPACITY \<equiv> 2048"

definition c_string :: "string \<Rightarrow> u8 list" where
  "c_string s = map byte_of_char s @ [0]"

section \<open>Strings and symbols\<close>

record dw_strings =
  str_bytes :: "u8 list"
  symbol_str_off :: "nat \<Rightarrow> u32 option"
  function_symbols :: "nat list"
  label_symbols :: "nat list"

definition text_end :: "asm_ctx \<Rightarrow> u64" where
  "text_end ctx = base_address ctx + of_nat (length (text_section ctx))"

definition add_symbol_name :: "asm_ctx \<Rightarrow> nat \<Rightarrow> dw_strings \<Rightarrow> dw_strings option" where
  "add_symbol_name ctx i st =
     (if symbol_str_off st i \<noteq> None then Some st
      else do {
        buf \<leftarrow> append_bytes_checked STR_CAPACITY (c_string (sym_name (symbols ctx ! i))) (str_bytes st);
        Some (st\<lparr>str_bytes := buf,
                 symbol_str_off := (symbol_str_off st)(i \<mapsto> of_nat (length (str_bytes st)))\<rparr>)
      })"

definition in_text_range :: "asm_ctx \<Rightarrow> symbol \<Rightarrow> bool" where
  "in_text_range ctx s \<longleftrightarrow>
     \<not> (\<not> sym_is_resolved s \<or> sym_is_external s \<or> sym_section s \<noteq> 0) \<and>
     \<not> (sym_address s < base_address ctx \<or> text_end ctx < sym_address s)"

fun text_symbols :: "asm_ctx \<Rightarrow> nat list \<Rightarrow> dw_strings \<Rightarrow> dw_strings option" where
  "text_symbols ctx [] st = Some st"
| "text_symbols ctx (i # is) st =
     (if \<not> in_text_range ctx (symbols ctx ! i) then text_symbols ctx is st
      else do {
        st' \<leftarrow> add_symbol_name ctx i st;
        text_symbols ctx is
          (if sym_is_function (symbols ctx ! i) then st'\<lparr>function_symbols := function_symbols st' @ [i]\<rparr>
           else st'\<lparr>label_symbols := label_symbols st' @ [i]\<rparr>)
      })"

definition start_fallback :: "asm_ctx \<Rightarrow> dw_strings \<Rightarrow> dw_strings option" where
  "start_fallback ctx st =
     (if function_symbols st \<noteq> [] then Some st
      else case find (\<lambda>i. sym_section (symbols ctx ! i) = 0 \<and> sym_name (symbols ctx ! i) = ''_start'')
                  [0..<length (symbols ctx)] of
        None \<Rightarrow> Some st
      | Some i \<Rightarrow> add_symbol_name ctx i (st\<lparr>function_symbols := [i]\<rparr>))"

text \<open>The exchange sort by address.\<close>

definition exchange :: "(nat \<Rightarrow> u64) \<Rightarrow> nat \<Rightarrow> nat \<Rightarrow> nat list \<Rightarrow> nat list" where
  "exchange address i j xs =
     (if address (xs ! j) < address (xs ! i) then xs[i := xs ! j, j := xs ! i] else xs)"

definition exchange_sort :: "(nat \<Rightarrow> u64) \<Rightarrow> nat list \<Rightarrow> nat list" where
  "exchange_sort address xs =
     fold (\<lambda>i. fold (exchange address i) [Suc i..<length xs]) [0..<length xs] xs"

record dw_offsets =
  off_producer :: u32
  off_name :: u32
  off_comp_dir :: u32
  off_type_u64 :: u32
  off_type_u64_ptr :: u32

definition source_name :: "string \<Rightarrow> string" where
  "source_name current_filename = (if current_filename \<noteq> [] then current_filename else ''<memory>'')"

definition debug_str :: "asm_ctx \<Rightarrow> string \<Rightarrow> (dw_offsets \<times> dw_strings) option" where
  "debug_str ctx filename = do {
     let name = source_name filename;
     producer \<leftarrow> append_bytes_checked STR_CAPACITY (c_string ''x86_64-asm'') [];
     named \<leftarrow> append_bytes_checked STR_CAPACITY (c_string name) producer;
     comp_dir \<leftarrow> append_bytes_checked STR_CAPACITY (c_string (path_dirname 512 name)) named;
     type_u64 \<leftarrow> append_bytes_checked STR_CAPACITY (c_string ''u64'') comp_dir;
     type_u64_ptr \<leftarrow> append_bytes_checked STR_CAPACITY (c_string ''u64*'') type_u64;
     st \<leftarrow> text_symbols ctx [0..<length (symbols ctx)]
       \<lparr>str_bytes = type_u64_ptr, symbol_str_off = Map.empty, function_symbols = [], label_symbols = []\<rparr>;
     st \<leftarrow> start_fallback ctx st;
     let address = (\<lambda>i. sym_address (symbols ctx ! i));
     Some (\<lparr>off_producer = 0, off_name = of_nat (length producer), off_comp_dir = of_nat (length named),
             off_type_u64 = of_nat (length comp_dir), off_type_u64_ptr = of_nat (length type_u64)\<rparr>,
           st\<lparr>function_symbols := exchange_sort address (function_symbols st),
              label_symbols := exchange_sort address (label_symbols st)\<rparr>)
   }"

section \<open>The abbreviation table\<close>

text \<open>A declaration is its code, its tag, whether it has children and its attributes, each with its form.\<close>

definition abbrev_items :: "u32 \<Rightarrow> u32 \<Rightarrow> bool \<Rightarrow> (u32 \<times> u32) list \<Rightarrow> dw_item list" where
  "abbrev_items number tag children attributes =
     [DW_ULEB number, DW_ULEB tag, DW_U8 (if children then 1 else 0)] @
     concat (map (\<lambda>(attribute, form). [DW_ULEB attribute, DW_ULEB form]) attributes) @ [DW_U8 0, DW_U8 0]"

definition debug_abbrev_items :: "dw_item list" where
  "debug_abbrev_items =
     abbrev_items 1 0x11 True
       [(0x25, 0x0E), (0x13, 0x05), (0x03, 0x0E), (0x1B, 0x0E), (0x10, 0x17), (0x11, 0x01), (0x12, 0x07)] @
     abbrev_items 2 0x24 False [(0x03, 0x0E), (0x3E, 0x0B), (0x0B, 0x0B)] @
     abbrev_items 3 0x0F False [(0x03, 0x0E), (0x0B, 0x0B), (0x49, 0x13)] @
     abbrev_items 4 0x2E True
       [(0x03, 0x0E), (0x3A, 0x0B), (0x3B, 0x0F), (0x39, 0x0F), (0x3F, 0x0C), (0x11, 0x01), (0x12, 0x07),
        (0x49, 0x13)] @
     abbrev_items 5 0x0B False [(0x11, 0x01), (0x12, 0x07)] @
     abbrev_items 6 0x0A False [(0x03, 0x0E), (0x3A, 0x0B), (0x3B, 0x0F), (0x39, 0x0F), (0x11, 0x01)] @
     [DW_U8 0]"

definition debug_abbrev :: "u8 list option" where
  "debug_abbrev = append_items ABBREV_CAPACITY debug_abbrev_items []"

section \<open>The entries\<close>

definition decl_items :: "asm_ctx \<Rightarrow> dw_strings \<Rightarrow> nat \<Rightarrow> dw_item list" where
  "decl_items ctx st i =
     (let s = symbols ctx ! i in
      [DW_LE32 (case symbol_str_off st i of None \<Rightarrow> 0 | Some off \<Rightarrow> off), DW_U8 1,
       DW_ULEB (word_of_int (if 0 < sym_decl_line s then sym_decl_line s else 1)),
       DW_ULEB (word_of_int (if 0 < sym_decl_column s then sym_decl_column s else 1))])"

fun function_items :: "asm_ctx \<Rightarrow> dw_strings \<Rightarrow> u32 \<Rightarrow> nat list \<Rightarrow> dw_item list" where
  "function_items ctx st pointer_type [] = []"
| "function_items ctx st pointer_type (i # is) =
     (let low_pc = sym_address (symbols ctx ! i);
          next_addr = (case is of [] \<Rightarrow> text_end ctx | j # _ \<Rightarrow> sym_address (symbols ctx ! j));
          span = (if low_pc < next_addr then next_addr - low_pc else 0) in
      [DW_ULEB 4] @ decl_items ctx st i @
      [DW_U8 (if sym_is_global (symbols ctx ! i) then 1 else 0), DW_LE64 low_pc, DW_LE64 span,
       DW_LE32 pointer_type, DW_ULEB 5, DW_LE64 low_pc, DW_LE64 span, DW_U8 0] @
      function_items ctx st pointer_type is)"

definition label_items :: "asm_ctx \<Rightarrow> dw_strings \<Rightarrow> nat \<Rightarrow> dw_item list" where
  "label_items ctx st i = [DW_ULEB 6] @ decl_items ctx st i @ [DW_LE64 (sym_address (symbols ctx ! i))]"

definition debug_info :: "asm_ctx \<Rightarrow> dw_offsets \<Rightarrow> dw_strings \<Rightarrow> u8 list option" where
  "debug_info ctx offs st = do {
     unit \<leftarrow> append_items INFO_CAPACITY
       [DW_LE32 0, DW_LE16 4, DW_LE32 0, DW_U8 8, DW_ULEB 1, DW_LE32 (off_producer offs), DW_LE16 1,
        DW_LE32 (off_name offs), DW_LE32 (off_comp_dir offs), DW_LE32 0, DW_LE64 (base_address ctx),
        DW_LE64 (of_nat (length (text_section ctx)))] [];
     base_type \<leftarrow> append_items INFO_CAPACITY [DW_ULEB 2, DW_LE32 (off_type_u64 offs), DW_U8 0x07, DW_U8 8] unit;
     pointer_type \<leftarrow> append_items INFO_CAPACITY
       [DW_ULEB 3, DW_LE32 (off_type_u64_ptr offs), DW_U8 8, DW_LE32 (of_nat (length unit))] base_type;
     buf \<leftarrow> append_items INFO_CAPACITY
       (function_items ctx st (of_nat (length base_type)) (function_symbols st) @
        concat (map (label_items ctx st) (label_symbols st)) @ [DW_U8 0]) pointer_type;
     write_le32_at_checked INFO_CAPACITY 0 (of_nat (length buf - 4)) buf
   }"

section \<open>The line number program\<close>

fun line_items :: "u64 \<Rightarrow> int \<Rightarrow> (u64 \<times> int) list \<Rightarrow> dw_item list \<times> u64" where
  "line_items last_addr last_line [] = ([], last_addr)"
| "line_items last_addr last_line ((target_addr, line) # rows) =
     (let target_line = (if 0 < line then line else 1);
          pc = (if last_addr < target_addr then [DW_U8 2, DW_ULEB (ucast (target_addr - last_addr))] else []);
          ln = (if target_line \<noteq> last_line then [DW_U8 3, DW_SLEB (word_of_int (target_line - last_line))] else []);
          (rest, end_addr) = line_items (if last_addr < target_addr then target_addr else last_addr) target_line rows
      in (pc @ ln @ [DW_U8 1] @ rest, end_addr))"

definition line_tail :: "u64 \<Rightarrow> u64 \<Rightarrow> dw_item list" where
  "line_tail last_addr end_addr =
     (if last_addr < end_addr then [DW_U8 2, DW_ULEB (ucast (end_addr - last_addr)), DW_U8 1] else []) @
     [DW_U8 0, DW_U8 1, DW_U8 1]"

definition debug_line :: "u64 \<Rightarrow> u64 \<Rightarrow> string \<Rightarrow> (u64 \<times> int) list \<Rightarrow> u8 list option" where
  "debug_line start_addr end_addr filename rows = do {
     let name = source_name filename;
     opening \<leftarrow> append_items LINE_CAPACITY [DW_LE32 0, DW_LE16 4] [];
     fixed \<leftarrow> append_items LINE_CAPACITY [DW_LE32 0] opening;
     header \<leftarrow> append_items LINE_CAPACITY
       ([DW_U8 1, DW_U8 1, DW_U8 1, DW_U8 (-5), DW_U8 14, DW_U8 13] @ replicate 12 (DW_U8 0) @
        [DW_BYTES (c_string (path_dirname 512 name)), DW_U8 0,
         DW_BYTES (c_string (path_basename name)), DW_ULEB 1, DW_ULEB 0, DW_ULEB 0, DW_U8 0]) fixed;
     header \<leftarrow> write_le32_at_checked LINE_CAPACITY (length opening)
       (of_nat (length header - length fixed)) header;
     let (moves, last_addr) = line_items start_addr 1 rows;
     buf \<leftarrow> append_items LINE_CAPACITY
       ([DW_U8 0, DW_U8 9, DW_U8 2, DW_LE64 start_addr] @ moves @ line_tail last_addr end_addr) header;
     write_le32_at_checked LINE_CAPACITY 0 (of_nat (length buf - 4)) buf
   }"

section \<open>Appending is concatenation\<close>

fun item_bytes :: "dw_item \<Rightarrow> u8 list" where
  "item_bytes (DW_U8 v) = [v]"
| "item_bytes (DW_LE16 v) = le16 v"
| "item_bytes (DW_LE32 v) = le32 v"
| "item_bytes (DW_LE64 v) = le64 v"
| "item_bytes (DW_ULEB v) = uleb_bytes (unat v)"
| "item_bytes (DW_SLEB v) = sleb_bytes (sint v)"
| "item_bytes (DW_BYTES bs) = bs"

abbreviation items_bytes :: "dw_item list \<Rightarrow> u8 list" where
  "items_bytes xs \<equiv> concat (map item_bytes xs)"

lemma append_item_bytes: "append_item capacity x buf = append_bytes_checked capacity (item_bytes x) buf"
  by (cases x) (simp_all add: append_u8_checked_def append_le16_buf_checked_def append_le32_buf_checked_def
      append_le64_buf_checked_def append_uleb128 append_sleb128)

lemma append_items_Some:
  "append_items capacity xs buf = Some buf' \<Longrightarrow> buf' = buf @ items_bytes xs \<and> (length buf \<le> capacity \<longrightarrow> length buf' \<le> capacity)"
proof (induction xs arbitrary: buf)
  case (Cons x xs)
  from Cons.prems have "append_items capacity xs (buf @ item_bytes x) = Some buf'"
    "length buf + length (item_bytes x) \<le> capacity"
    by (auto simp: append_item_bytes append_bytes_checked_def split: if_splits)
  with Cons.IH show ?case by fastforce
qed simp

lemma append_items_fits:
  "length buf + length (items_bytes xs) \<le> capacity \<Longrightarrow> append_items capacity xs buf = Some (buf @ items_bytes xs)"
  by (induction xs arbitrary: buf) (simp_all add: append_item_bytes append_bytes_checked_def)

text \<open>The abbreviation table fits its buffer.\<close>

lemma debug_abbrev_fits: "debug_abbrev = Some (items_bytes debug_abbrev_items)"
  unfolding debug_abbrev_def
proof (subst append_items_fits)
  show "length ([] :: u8 list) + length (items_bytes debug_abbrev_items) \<le> ABBREV_CAPACITY"
    unfolding debug_abbrev_items_def abbrev_items_def by (simp add: uleb_bytes.simps)
qed simp

section \<open>Reading a line number program\<close>

text \<open>
  A reader for sections of DWARF version 4, from the standard: the header gives the minimum
  instruction length, line base, line range and opcode base, and the number of operands of the
  standard opcodes. An opcode from the opcode base on is special. The opcodes 1 to 12 have the
  operands the standard defines; the table of the header is for the standard opcodes a reader does
  not know, and they are skipped by it. An opcode 0 introduces an extended operation with its
  length. Rows carry the address, the line and the end of a sequence; file, column and flags are
  read and left out. Every operation takes a byte, so the length of the program is fuel enough.
\<close>

type_synonym line_row = "u64 \<times> int \<times> bool"

record line_params =
  lp_min_inst_length :: u8
  lp_max_ops :: u8
  lp_default_is_stmt :: u8
  lp_line_base :: u8
  lp_line_range :: u8
  lp_opcode_base :: u8
  lp_opcode_lengths :: "u8 list"

text \<open>The operands of the opcodes 1 to 12 in the standard.\<close>

definition standard_opcode_lengths :: "u8 list" where
  "standard_opcode_lengths = [0, 1, 1, 1, 1, 0, 0, 0, 1, 0, 0, 1]"

primrec skip_ulebs :: "nat \<Rightarrow> u8 list \<Rightarrow> u8 list option" where
  "skip_ulebs 0 r = Some r"
| "skip_ulebs (Suc n) r = do { (_, r') \<leftarrow> read_uleb r; skip_ulebs n r' }"

definition extended_op :: "u64 \<Rightarrow> int \<Rightarrow> u8 list \<Rightarrow> (line_row list \<times> u64 \<times> int \<times> u8 list) option" where
  "extended_op addr line r = do {
     (len, r') \<leftarrow> read_uleb r;
     if len = 0 \<or> length r' < len then None
     else if r' ! 0 = 1 then Some ([(addr, line, True)], 0, 1, drop len r')
     else if r' ! 0 = 2 then
       (if len = 9 then Some ([], of_le64 (take 8 (drop 1 r')), line, drop len r') else None)
     else Some ([], addr, line, drop len r')
   }"

definition special_op :: "line_params \<Rightarrow> nat \<Rightarrow> u64 \<Rightarrow> int \<Rightarrow> (u64 \<times> int) option" where
  "special_op h adjusted addr line =
     (let range = unat (lp_line_range h) in
      if range = 0 then None
      else Some (addr + ucast (lp_min_inst_length h) * of_nat (adjusted div range),
        line + sint (lp_line_base h) + int (adjusted mod range)))"

definition standard_op ::
  "line_params \<Rightarrow> u8 \<Rightarrow> u64 \<Rightarrow> int \<Rightarrow> u8 list \<Rightarrow> (line_row list \<times> u64 \<times> int \<times> u8 list) option" where
  "standard_op h op addr line r =
     (if op = 1 then Some ([(addr, line, False)], addr, line, r)
      else if op = 2 then do {
        (d, r') \<leftarrow> read_uleb r; Some ([], addr + ucast (lp_min_inst_length h) * of_nat d, line, r') }
      else if op = 3 then do { (d, r') \<leftarrow> read_sleb r; Some ([], addr, line + d, r') }
      else if op \<in> {4, 5, 12} then do { r' \<leftarrow> skip_ulebs 1 r; Some ([], addr, line, r') }
      else if op \<in> {6, 7, 10, 11} then Some ([], addr, line, r)
      else if op = 8 then do {
        (a, _) \<leftarrow> special_op h (unat (255 - lp_opcode_base h)) addr line; Some ([], a, line, r) }
      else if op = 9 then
        (if length r < 2 then None else Some ([], addr + ucast (of_le16 (r ! 0) (r ! 1)), line, drop 2 r))
      else do {
        r' \<leftarrow> skip_ulebs (unat (lp_opcode_lengths h ! (unat op - 1))) r; Some ([], addr, line, r') })"

fun line_op ::
  "line_params \<Rightarrow> u64 \<Rightarrow> int \<Rightarrow> u8 list \<Rightarrow> (line_row list \<times> u64 \<times> int \<times> u8 list) option" where
  "line_op h addr line [] = None"
| "line_op h addr line (op # r) =
     (if lp_opcode_base h \<le> op then do {
        (a, l) \<leftarrow> special_op h (unat (op - lp_opcode_base h)) addr line; Some ([(a, l, False)], a, l, r) }
      else if op = 0 then extended_op addr line r
      else standard_op h op addr line r)"

fun run_lines :: "nat \<Rightarrow> line_params \<Rightarrow> u64 \<Rightarrow> int \<Rightarrow> u8 list \<Rightarrow> line_row list option" where
  "run_lines fuel h addr line [] = Some []"
| "run_lines 0 h addr line (op # r) = None"
| "run_lines (Suc fuel) h addr line (op # r) =
     (case line_op h addr line (op # r) of
        None \<Rightarrow> None
      | Some (rows, addr', line', r') \<Rightarrow> map_option ((@) rows) (run_lines fuel h addr' line' r'))"

text \<open>The header, and the program behind it. Several operations in one instruction are not read.\<close>

definition read_line_params :: "u8 list \<Rightarrow> (line_params \<times> u8 list) option" where
  "read_line_params bs = do {
     len \<leftarrow> read_le32 bs 0;
     version \<leftarrow> read_le16 bs 4;
     header_length \<leftarrow> read_le32 bs 6;
     if unat len + 4 \<noteq> length bs \<or> version \<noteq> 4 \<or> length bs < 16 \<or> bs ! 11 \<noteq> 1 \<or> bs ! 15 = 0 \<or>
       length bs < 15 + unat (bs ! 15) \<or> length bs < 10 + unat header_length then None
     else Some (\<lparr>lp_min_inst_length = bs ! 10, lp_max_ops = bs ! 11, lp_default_is_stmt = bs ! 12,
         lp_line_base = bs ! 13, lp_line_range = bs ! 14, lp_opcode_base = bs ! 15,
         lp_opcode_lengths = take (unat (bs ! 15) - 1) (drop 16 bs)\<rparr>,
       drop (10 + unat header_length) bs)
   }"

definition read_debug_line :: "u8 list \<Rightarrow> line_row list option" where
  "read_debug_line bs = do { (h, prog) \<leftarrow> read_line_params bs; run_lines (length prog) h 0 1 prog }"

text \<open>What the writer puts into the header.\<close>

definition written_params :: line_params where
  "written_params = \<lparr>lp_min_inst_length = 1, lp_max_ops = 1, lp_default_is_stmt = 1, lp_line_base = -5,
     lp_line_range = 14, lp_opcode_base = 13, lp_opcode_lengths = replicate 12 0\<rparr>"

lemma line_op_written:
  "line_op written_params addr line (1 # r) = Some ([(addr, line, False)], addr, line, r)"
  "line_op written_params addr line (2 # uleb_bytes (unat d) @ r) =
     Some ([], addr + of_nat (unat (d :: u32)), line, r)"
  "line_op written_params addr line (3 # sleb_bytes v @ r) = Some ([], addr, line + v, r)"
  "line_op written_params addr line (0 # 1 # 1 # r) = Some ([(addr, line, True)], 0, 1, r)"
  "line_op written_params addr line (0 # 9 # 2 # le64 a @ r) = Some ([], a, line, r)"
proof -
  have "\<not> (13 :: u8) \<le> 1" by (simp add: word_le_nat_alt)
  then show "line_op written_params addr line (1 # r) = Some ([(addr, line, False)], addr, line, r)"
    by (simp add: written_params_def standard_op_def)
qed (simp_all add: written_params_def standard_op_def extended_op_def read_uleb_bytes read_sleb_bytes)

lemma run_lines_step:
  "line_op h addr line prog = Some (rows, a, l, r) \<Longrightarrow> run_lines fuel h a l r = Some rs \<Longrightarrow>
   run_lines (Suc fuel) h addr line prog = Some (rows @ rs)"
  by (cases prog) auto

text \<open>Any fuel that is more, or as much as the length of the program, gives the same rows.\<close>

lemma read_uleb_length: "read_uleb r = Some (n, r') \<Longrightarrow> length r' < length r"
  by (induction r arbitrary: n r') (fastforce split: if_splits)+

lemma read_sleb_length: "read_sleb r = Some (n, r') \<Longrightarrow> length r' < length r"
  by (induction r arbitrary: n r') (fastforce split: if_splits)+

lemma skip_ulebs_length: "skip_ulebs n r = Some r' \<Longrightarrow> length r' \<le> length r"
  by (induction n arbitrary: r) (fastforce simp: Option.bind_eq_Some_conv dest: read_uleb_length)+

lemma line_op_length:
  assumes "line_op h addr line prog = Some (rows, a, l, r')"
  shows "length r' < length prog"
proof -
  obtain op r where prog: "prog = op # r" using assms by (cases prog) simp_all
  have "length r' \<le> length r"
    using assms unfolding prog
    by (auto simp: extended_op_def standard_op_def Option.bind_eq_Some_conv
        dest!: read_uleb_length read_sleb_length skip_ulebs_length split: if_splits)
  then show ?thesis by (simp add: prog)
qed

lemma run_lines_fuel:
  "run_lines fuel h addr line prog = Some rows \<Longrightarrow> fuel \<le> fuel' \<or> length prog \<le> fuel' \<Longrightarrow>
   run_lines fuel' h addr line prog = Some rows"
proof (induction fuel arbitrary: addr line prog rows fuel')
  case 0
  then show ?case by (cases prog) simp_all
next
  case (Suc fuel)
  show ?case
  proof (cases prog)
    case Nil
    with Suc.prems show ?thesis by simp
  next
    case (Cons op r)
    with Suc.prems(1) obtain rows1 a l r' rs where op: "line_op h addr line prog = Some (rows1, a, l, r')"
      "run_lines fuel h a l r' = Some rs" "rows = rows1 @ rs"
      by (auto split: option.splits)
    from Suc.prems(2) Cons obtain g where g: "fuel' = Suc g" "fuel \<le> g \<or> length r \<le> g" by (cases fuel') auto
    have "length r' \<le> length r" using line_op_length [OF op(1)] Cons by simp
    with g(2) have "fuel \<le> g \<or> length r' \<le> g" by linarith
    from run_lines_step [OF op(1) Suc.IH [OF op(2) this]] show ?thesis by (simp add: g(1) op(3))
  qed
qed

section \<open>The program written yields the line map\<close>

fun line_map_ok :: "u64 \<Rightarrow> (u64 \<times> int) list \<Rightarrow> bool" where
  "line_map_ok addr [] \<longleftrightarrow> True"
| "line_map_ok addr ((t, l) # rows) \<longleftrightarrow>
     addr \<le> t \<and> unat (t - addr) < 2 ^ 32 \<and> 0 < l \<and> l < 2 ^ 31 \<and> line_map_ok t rows"

definition line_rows :: "(u64 \<times> int) list \<Rightarrow> line_row list" where
  "line_rows rows = map (\<lambda>(a, l). (a, l, False)) rows"

lemma ucast_ucast32: "unat (d :: u64) < 2 ^ 32 \<Longrightarrow> ucast (ucast d :: u32) = d"
  by (simp add: word_unat_eq_iff unsigned_ucast_eq unsigned_take_bit_eq take_bit_nat_eq_self)

lemma sint_word_of_int32: "- (2 ^ 31) \<le> d \<Longrightarrow> d < 2 ^ 31 \<Longrightarrow> sint (word_of_int d :: u32) = d"
  by (simp add: signed_of_int signed_take_bit_int_eq_self)

lemma run_pc:
  assumes "a \<le> t" "unat (t - a) < 2 ^ 32" "run_lines fuel written_params t line r = Some rows"
  shows "run_lines (Suc fuel) written_params a line
      (items_bytes (if a < t then [DW_U8 2, DW_ULEB (ucast (t - a))] else []) @ r) = Some rows"
proof (cases "a < t")
  case True
  from run_lines_step [OF line_op_written(2) [of a line "ucast (t - a)" r], of fuel] show ?thesis
    using assms True by (simp add: ucast_ucast32)
qed (use assms run_lines_fuel [OF assms(3), of "Suc fuel"] in simp)

lemma run_ln:
  assumes "0 < l" "l < 2 ^ 31" "0 < t" "t < 2 ^ 31" "run_lines fuel written_params a t r = Some rows"
  shows "run_lines (Suc fuel) written_params a l
      (items_bytes (if t \<noteq> l then [DW_U8 3, DW_SLEB (word_of_int (t - l))] else []) @ r) = Some rows"
proof (cases "t = l")
  case False
  from run_lines_step [OF line_op_written(3) [of a l "t - l" r], of fuel] show ?thesis
    using assms False by (simp add: sint_word_of_int32 flip: of_int_diff)
qed (use assms run_lines_fuel [OF assms(5), of "Suc fuel"] in simp)

lemma run_line_items:
  "line_items a l rows = (xs, e) \<Longrightarrow> line_map_ok a rows \<Longrightarrow> 0 < l \<Longrightarrow> l < 2 ^ 31 \<Longrightarrow>
   run_lines fuel written_params e (last (l # map snd rows)) r = Some rs \<Longrightarrow>
   run_lines (fuel + 3 * length rows) written_params a l (items_bytes xs @ r) = Some (line_rows rows @ rs)"
proof (induction a l rows arbitrary: xs rule: line_items.induct)
  case (2 a l t ln rows)
  define next_a where "next_a = (if a < t then t else a)"
  from 2(3) have ok: "a \<le> t" "unat (t - a) < 2 ^ 32" "0 < ln" "ln < 2 ^ 31" "line_map_ok t rows" by simp_all
  then have next_t: "next_a = t" by (auto simp: next_a_def)
  obtain ys where ys: "line_items t ln rows = (ys, e)"
    "xs = (if a < t then [DW_U8 2, DW_ULEB (ucast (t - a))] else []) @
       (if ln \<noteq> l then [DW_U8 3, DW_SLEB (word_of_int (ln - l))] else []) @ [DW_U8 1] @ ys"
    using 2(2) ok next_t by (auto simp: Let_def next_a_def split: prod.splits)
  have "run_lines (fuel + 3 * length rows) written_params t ln (items_bytes ys @ r) = Some (line_rows rows @ rs)"
    using "2.IH" ys(1) ok 2(6) next_t unfolding next_a_def by simp
  from run_lines_step [OF line_op_written(1) this]
  have "run_lines (Suc (fuel + 3 * length rows)) written_params t ln (1 # items_bytes ys @ r) =
      Some ((t, ln, False) # line_rows rows @ rs)" by simp
  from run_pc [OF ok(1,2) run_ln [OF 2(4,5) ok(3,4) this]]
  have "run_lines (Suc (Suc (Suc (fuel + 3 * length rows)))) written_params a l (items_bytes xs @ r) =
      Some ((t, ln, False) # line_rows rows @ rs)"
    unfolding ys(2) map_append concat_append append_assoc by (simp del: run_lines.simps if_split)
  then show ?case by (simp add: line_rows_def numeral_3_eq_3 del: run_lines.simps)
qed (simp add: line_rows_def)

lemma line_items_end: "line_map_ok a rows \<Longrightarrow> snd (line_items a l rows) = last (a # map fst rows)"
  by (induction a l rows rule: line_items.induct) (auto simp: Let_def split: prod.splits if_splits)

lemma run_line_tail:
  assumes "a \<le> e" "unat (e - a) < 2 ^ 32"
  shows "run_lines 3 written_params a l (items_bytes (line_tail a e)) =
     Some ((if a < e then [(e, l, False)] else []) @ [(e, l, True)])"
proof -
  have last: "run_lines (Suc fuel) written_params e l [0, 1, 1] = Some [(e, l, True)]" for fuel
    using run_lines_step [OF line_op_written(4) [of e l "[]"], of fuel] by simp
  show ?thesis
  proof (cases "a < e")
    case True
    from run_pc [OF assms run_lines_step [OF line_op_written(1) last]] True show ?thesis
      by (simp add: line_tail_def numeral_3_eq_3)
  next
    case False
    with assms(1) have "a = e" by simp
    with last [of 2] show ?thesis by (simp add: line_tail_def numeral_3_eq_3 del: run_lines.simps)
  qed
qed

text \<open>The whole section: the header as bytes, and the two lengths patched in.\<close>

definition line_header :: "string \<Rightarrow> u8 list" where
  "line_header name = [1, 1, 1, -5, 14, 13] @ replicate 12 0 @ c_string (path_dirname 512 name) @ [0] @
     c_string (path_basename name) @ [1, 0, 0, 0]"

lemma uleb_small: "n < 128 \<Longrightarrow> uleb_bytes n = [of_nat n]"
  by (simp add: uleb_bytes.simps)

lemma write_le32_at_middle:
  "write_le32_at_checked capacity (length as) v (as @ le32 0 @ bs) =
     (if capacity < length as + 4 then None else Some (as @ le32 v @ bs))"
  by (simp add: write_le32_at_checked_def patch_def)

lemma debug_line_bytes:
  assumes "debug_line start_addr end_addr filename rows = Some bs"
    "line_items start_addr 1 rows = (moves, last_addr)"
  defines "header \<equiv> line_header (source_name filename)"
  defines "prog \<equiv> items_bytes ([DW_U8 0, DW_U8 9, DW_U8 2, DW_LE64 start_addr] @ moves @ line_tail last_addr end_addr)"
  shows "bs = le32 (of_nat (6 + length header + length prog)) @ le16 4 @ le32 (of_nat (length header)) @ header @ prog"
    "10 + length header + length prog \<le> LINE_CAPACITY"
proof -
  have header: "items_bytes ([DW_U8 1, DW_U8 1, DW_U8 1, DW_U8 (-5), DW_U8 14, DW_U8 13] @ replicate 12 (DW_U8 0) @
      [DW_BYTES (c_string (path_dirname 512 (source_name filename))), DW_U8 0,
       DW_BYTES (c_string (path_basename (source_name filename))), DW_ULEB 1, DW_ULEB 0, DW_ULEB 0, DW_U8 0]) = header"
    unfolding header_def line_header_def by (simp add: uleb_small)
  obtain start fixed head1 head2 buf where steps:
    "append_items LINE_CAPACITY [DW_LE32 0, DW_LE16 4] [] = Some start"
    "append_items LINE_CAPACITY [DW_LE32 0] start = Some fixed"
    "append_items LINE_CAPACITY ([DW_U8 1, DW_U8 1, DW_U8 1, DW_U8 (-5), DW_U8 14, DW_U8 13] @ replicate 12 (DW_U8 0) @
      [DW_BYTES (c_string (path_dirname 512 (source_name filename))), DW_U8 0,
       DW_BYTES (c_string (path_basename (source_name filename))), DW_ULEB 1, DW_ULEB 0, DW_ULEB 0, DW_U8 0])
      fixed = Some head1"
    "write_le32_at_checked LINE_CAPACITY (length start) (of_nat (length head1 - length fixed)) head1 = Some head2"
    "append_items LINE_CAPACITY ([DW_U8 0, DW_U8 9, DW_U8 2, DW_LE64 start_addr] @ moves @ line_tail last_addr end_addr)
      head2 = Some buf"
    "write_le32_at_checked LINE_CAPACITY 0 (of_nat (length buf - 4)) buf = Some bs"
    using assms(1) unfolding debug_line_def Let_def assms(2) prod.case Option.bind_eq_Some_conv by blast
  have start: "start = le32 0 @ le16 4" and fixed: "fixed = start @ le32 0"
    using append_items_Some [OF steps(1)] append_items_Some [OF steps(2)] by simp_all
  have head1: "head1 = start @ le32 0 @ header"
    using append_items_Some [OF steps(3)] unfolding header fixed by simp
  have head2: "head2 = start @ le32 (of_nat (length header)) @ header"
    using steps(4) unfolding head1 write_le32_at_middle by (simp add: fixed split: if_splits)
  have buf: "buf = le32 0 @ le16 4 @ le32 (of_nat (length header)) @ header @ prog"
    using append_items_Some [OF steps(5)] unfolding head2 start prog_def by simp
  show "bs = le32 (of_nat (6 + length header + length prog)) @ le16 4 @ le32 (of_nat (length header)) @ header @ prog"
    using steps(6) write_le32_at_middle [of LINE_CAPACITY "[]"] unfolding buf
    by (auto simp: add.assoc split: if_splits)
  have "length head1 \<le> LINE_CAPACITY"
    using append_items_Some [OF steps(3), THEN conjunct2] by (simp add: fixed start)
  then show "10 + length header + length prog \<le> LINE_CAPACITY"
    using append_items_Some [OF steps(5), THEN conjunct2] unfolding buf head1 head2 start by simp
qed

text \<open>A section that fits its buffer is written.\<close>

lemma debug_line_written:
  assumes "line_items start_addr 1 rows = (moves, last_addr)"
    and "10 + length (line_header (source_name filename)) + length (items_bytes
      ([DW_U8 0, DW_U8 9, DW_U8 2, DW_LE64 start_addr] @ moves @ line_tail last_addr end_addr)) \<le> LINE_CAPACITY"
  shows "\<exists>bs. debug_line start_addr end_addr filename rows = Some bs"
proof -
  let ?header = "line_header (source_name filename)"
  have header: "items_bytes ([DW_U8 1, DW_U8 1, DW_U8 1, DW_U8 (-5), DW_U8 14, DW_U8 13] @ replicate 12 (DW_U8 0) @
      [DW_BYTES (c_string (path_dirname 512 (source_name filename))), DW_U8 0,
       DW_BYTES (c_string (path_basename (source_name filename))), DW_ULEB 1, DW_ULEB 0, DW_ULEB 0, DW_U8 0]) = ?header"
    unfolding line_header_def by (simp add: uleb_small)
  have patched: "\<exists>b. write_le32_at_checked LINE_CAPACITY off v buf = Some b" if "off \<le> 6" for off v buf
    using that by (simp add: write_le32_at_checked_def)
  show ?thesis
    unfolding debug_line_def Let_def assms(1) prod.case
    using assms(2) patched [of 0]
    by (simp add: append_items_fits header [simplified] write_le32_at_checked_def patch_def del: append_items.simps)
qed

lemma read_line_params_written:
  assumes "10 + length (line_header name) + length prog \<le> LINE_CAPACITY"
  shows "read_line_params (le32 (of_nat (6 + length (line_header name) + length prog)) @ le16 4 @
      le32 (of_nat (length (line_header name))) @ line_header name @ prog) = Some (written_params, prog)"
proof -
  let ?header = "line_header name"
  define total where "total = (of_nat (6 + length ?header + length prog) :: u32)"
  define hlen where "hlen = (of_nat (length ?header) :: u32)"
  have n: "unat total = 6 + length ?header + length prog" "unat hlen = length ?header"
    using assms unfolding total_def hlen_def
    by (simp_all add: unsigned_of_nat take_bit_nat_eq_self del: of_nat_add of_nat_Suc)
  define pre where "pre = le32 total @ le16 4 @ le32 hlen"
  have pre: "length pre = 10" by (simp add: pre_def)
  have reads: "read_le32 (pre @ xs) 0 = Some total" "read_le16 (pre @ xs) 4 = Some 4"
    "read_le32 (pre @ xs) 6 = Some hlen" for xs
    by (simp_all add: pre_def read_le32_def read_le16_def nth_append flip: numeral_2_eq_2)
  obtain dirs where header: "?header = [1, 1, 1, -5, 14, 13] @ replicate 12 0 @ dirs"
    by (simp add: line_header_def)
  have len: "length ?header = 18 + length dirs" by (simp add: header)
  have "read_line_params (pre @ ?header @ prog) = Some (written_params, prog)"
    unfolding read_line_params_def reads
    by (simp add: n len pre nth_append) (simp add: header written_params_def)
  then show ?thesis by (simp add: pre_def total_def hlen_def)
qed

lemma read_debug_line_program:
  assumes "10 + length (line_header name) + length prog \<le> LINE_CAPACITY"
  shows "read_debug_line (le32 (of_nat (6 + length (line_header name) + length prog)) @ le16 4 @
      le32 (of_nat (length (line_header name))) @ line_header name @ prog) =
    run_lines (length prog) written_params 0 1 prog"
  unfolding read_debug_line_def read_line_params_written [OF assms] by simp

text \<open>The program starts with the address of the code, whatever the registers held.\<close>

lemma line_map_ok_sorted:
  "sorted (a # map fst rows) \<Longrightarrow> \<forall>(t, l) \<in> set rows. t \<le> e \<and> 0 < l \<and> l < 2 ^ 31 \<Longrightarrow> a \<le> e \<Longrightarrow>
   unat e - unat a < 2 ^ 32 \<Longrightarrow> line_map_ok a rows"
proof (induction rows arbitrary: a)
  case (Cons row rows)
  obtain t l where row: "row = (t, l)" by (cases row)
  have t: "a \<le> t" "t \<le> e" "0 < l" "l < 2 ^ 31" using Cons.prems row by auto
  then have "unat (t - a) = unat t - unat a" "unat t \<le> unat e" "unat a \<le> unat t"
    by (auto simp: unat_sub word_le_nat_alt)
  then have "unat (t - a) < 2 ^ 32" "unat e - unat t < 2 ^ 32" using Cons.prems(4) by linarith+
  moreover from Cons.IH [of t] have "line_map_ok t rows" using Cons.prems row t calculation by simp
  ultimately show ?case using row t by simp
qed simp

lemma run_line_program:
  assumes "line_map_ok a rows" "last (a # map fst rows) \<le> e" "unat (e - last (a # map fst rows)) < 2 ^ 32"
    "line_items a 1 rows = (moves, end_addr)"
    "prog = items_bytes ([DW_U8 0, DW_U8 9, DW_U8 2, DW_LE64 a] @ moves @ line_tail end_addr e)"
  shows "run_lines (length prog) written_params addr 1 prog =
    Some (line_rows rows @ (if end_addr < e then [(e, last (1 # map snd rows), False)] else []) @
      [(e, last (1 # map snd rows), True)])" (is "_ = Some ?rows")
proof -
  have "end_addr = last (a # map fst rows)" using line_items_end [OF assms(1), of 1] assms(4) by simp
  then have "run_lines 3 written_params end_addr (last (1 # map snd rows)) (items_bytes (line_tail end_addr e)) =
      Some ((if end_addr < e then [(e, last (1 # map snd rows), False)] else []) @ [(e, last (1 # map snd rows), True)])"
    using run_line_tail assms(2,3) by (simp only: )
  from run_line_items [OF assms(4,1) _ _ this]
  have run: "run_lines (3 + 3 * length rows) written_params a 1 (items_bytes moves @ items_bytes (line_tail end_addr e)) = Some ?rows"
    by simp
  have prog: "prog = 0 # 9 # 2 # le64 a @ items_bytes moves @ items_bytes (line_tail end_addr e)"
    unfolding assms(5) by simp
  have "run_lines (Suc (3 + 3 * length rows)) written_params addr 1 prog = Some ?rows"
    unfolding prog using run_lines_step [OF line_op_written(5) run] by simp
  then show ?thesis by (rule run_lines_fuel) simp
qed

end
