(* ===== verification/Elf_File.thy ===== *)
theory Elf_File
  imports Dwarf
begin

text \<open>
  The ELF64 file: what \<open>asm_write_elf64\<close> (src/x86_64_asm.c) writes, with and without the debug
  sections of \<open>Dwarf\<close>, and \<open>asm_disassemble_file\<close> (src/x86_64_disassembler.c), which reads such a
  file and disassembles its \<open>.text\<close>. A file is the list of its bytes; opening, seeking and
  closing it are left out, and so is a failing \<open>malloc\<close>. Reads past the file's bytes, which the
  wrapping bound checks of the reader let through, are an outcome of their own. The lemmas lead to
  the round trip: the reader finds in a file written with \<open>-g\<close> the code and its address.
\<close>

section \<open>The headers\<close>

record elf_ehdr =
  e_ident :: "u8 list"
  e_type :: u16
  e_machine :: u16
  e_version :: u32
  e_entry :: u64
  e_phoff :: u64
  e_shoff :: u64
  e_flags :: u32
  e_ehsize :: u16
  e_phentsize :: u16
  e_phnum :: u16
  e_shentsize :: u16
  e_shnum :: u16
  e_shstrndx :: u16

record elf_phdr =
  p_type :: u32
  p_flags :: u32
  p_offset :: u64
  p_vaddr :: u64
  p_paddr :: u64
  p_filesz :: u64
  p_memsz :: u64
  p_align :: u64

record elf_shdr =
  sh_name :: u32
  sh_type :: u32
  sh_flags :: u64
  sh_addr :: u64
  sh_offset :: u64
  sh_size :: u64
  sh_link :: u32
  sh_info :: u32
  sh_addralign :: u64
  sh_entsize :: u64

text \<open>In memory and in the file a header is its fields, little endian; no field needs padding.\<close>

definition ehdr_bytes :: "elf_ehdr \<Rightarrow> u8 list" where
  "ehdr_bytes h = e_ident h @ le16 (e_type h) @ le16 (e_machine h) @ le32 (e_version h) @ le64 (e_entry h) @
     le64 (e_phoff h) @ le64 (e_shoff h) @ le32 (e_flags h) @ le16 (e_ehsize h) @ le16 (e_phentsize h) @
     le16 (e_phnum h) @ le16 (e_shentsize h) @ le16 (e_shnum h) @ le16 (e_shstrndx h)"

definition phdr_bytes :: "elf_phdr \<Rightarrow> u8 list" where
  "phdr_bytes h = le32 (p_type h) @ le32 (p_flags h) @ le64 (p_offset h) @ le64 (p_vaddr h) @
     le64 (p_paddr h) @ le64 (p_filesz h) @ le64 (p_memsz h) @ le64 (p_align h)"

definition shdr_bytes :: "elf_shdr \<Rightarrow> u8 list" where
  "shdr_bytes h = le32 (sh_name h) @ le32 (sh_type h) @ le64 (sh_flags h) @ le64 (sh_addr h) @
     le64 (sh_offset h) @ le64 (sh_size h) @ le32 (sh_link h) @ le32 (sh_info h) @ le64 (sh_addralign h) @
     le64 (sh_entsize h)"

definition le16_at :: "u8 list \<Rightarrow> nat \<Rightarrow> u16" where
  "le16_at bs off = of_le16 (bs ! off) (bs ! (off + 1))"

definition le32_at :: "u8 list \<Rightarrow> nat \<Rightarrow> u32" where
  "le32_at bs off = of_le32 (bs ! off) (bs ! (off + 1)) (bs ! (off + 2)) (bs ! (off + 3))"

definition le64_at :: "u8 list \<Rightarrow> nat \<Rightarrow> u64" where
  "le64_at bs off = of_le64 (take 8 (drop off bs))"

definition ehdr_of :: "u8 list \<Rightarrow> elf_ehdr" where
  "ehdr_of bs = \<lparr>e_ident = take 16 bs, e_type = le16_at bs 16, e_machine = le16_at bs 18,
     e_version = le32_at bs 20, e_entry = le64_at bs 24, e_phoff = le64_at bs 32, e_shoff = le64_at bs 40,
     e_flags = le32_at bs 48, e_ehsize = le16_at bs 52, e_phentsize = le16_at bs 54, e_phnum = le16_at bs 56,
     e_shentsize = le16_at bs 58, e_shnum = le16_at bs 60, e_shstrndx = le16_at bs 62\<rparr>"

definition shdr_of :: "u8 list \<Rightarrow> elf_shdr" where
  "shdr_of bs = \<lparr>sh_name = le32_at bs 0, sh_type = le32_at bs 4, sh_flags = le64_at bs 8, sh_addr = le64_at bs 16,
     sh_offset = le64_at bs 24, sh_size = le64_at bs 32, sh_link = le32_at bs 40, sh_info = le32_at bs 44,
     sh_addralign = le64_at bs 48, sh_entsize = le64_at bs 56\<rparr>"

section \<open>The writer\<close>

abbreviation PAGESIZE :: u64 where "PAGESIZE \<equiv> 4096"
abbreviation EHDR_SIZE :: nat where "EHDR_SIZE \<equiv> 64"
abbreviation PHDR_SIZE :: nat where "PHDR_SIZE \<equiv> 56"
abbreviation SHDR_SIZE :: nat where "SHDR_SIZE \<equiv> 64"

definition entry_point :: "asm_ctx \<Rightarrow> u64" where
  "entry_point ctx =
     (case find (\<lambda>s. sym_name s = ''_start'') (symbols ctx) of
        None \<Rightarrow> base_address ctx | Some s \<Rightarrow> sym_address s)"

definition total_size :: "asm_ctx \<Rightarrow> u64" where
  "total_size ctx = of_nat (length (text_section ctx)) + of_nat (length (data_section ctx))"

definition total_aligned :: "asm_ctx \<Rightarrow> u64" where
  "total_aligned ctx = round_up (total_size ctx) PAGESIZE"

definition elf_phdr_of :: "asm_ctx \<Rightarrow> elf_phdr" where
  "elf_phdr_of ctx = \<lparr>p_type = 1, p_flags = 7, p_offset = PAGESIZE, p_vaddr = base_address ctx,
     p_paddr = base_address ctx, p_filesz = total_size ctx, p_memsz = total_aligned ctx, p_align = PAGESIZE\<rparr>"

definition elf_ehdr_of :: "asm_ctx \<Rightarrow> u64 \<Rightarrow> u16 \<Rightarrow> u16 \<Rightarrow> u16 \<Rightarrow> elf_ehdr" where
  "elf_ehdr_of ctx shoff shentsize shnum shstrndx =
     \<lparr>e_ident = [0x7F, 0x45, 0x4C, 0x46, 2, 1, 1, 0] @ replicate 8 0, e_type = 2, e_machine = 62, e_version = 1,
      e_entry = entry_point ctx, e_phoff = of_nat EHDR_SIZE, e_shoff = shoff, e_flags = 0,
      e_ehsize = of_nat EHDR_SIZE, e_phentsize = of_nat PHDR_SIZE, e_phnum = 1,
      e_shentsize = shentsize, e_shnum = shnum, e_shstrndx = shstrndx\<rparr>"

text \<open>The array \<open>shstrtab\<close>: a string literal, with the NUL that C adds.\<close>

definition shstrtab :: "u8 list" where
  "shstrtab = concat (map c_string
     [[], ''.text'', ''.data'', ''.shstrtab'', ''.debug_info'', ''.debug_abbrev'', ''.debug_line'', ''.debug_str'', []])"

definition zero_shdr :: elf_shdr where
  "zero_shdr = \<lparr>sh_name = 0, sh_type = 0, sh_flags = 0, sh_addr = 0, sh_offset = 0, sh_size = 0, sh_link = 0,
     sh_info = 0, sh_addralign = 0, sh_entsize = 0\<rparr>"

definition unloaded_section :: "u32 \<Rightarrow> u32 \<Rightarrow> u64 \<Rightarrow> u8 list \<Rightarrow> elf_shdr" where
  "unloaded_section name type off contents = zero_shdr\<lparr>sh_name := name, sh_type := type, sh_offset := off,
     sh_size := of_nat (length contents), sh_addralign := 1\<rparr>"

definition section_headers ::
  "asm_ctx \<Rightarrow> u64 \<Rightarrow> u8 list \<Rightarrow> u8 list \<Rightarrow> u8 list \<Rightarrow> u8 list \<Rightarrow> elf_shdr list" where
  "section_headers ctx cursor info abbrev line str =
     (let text_size = of_nat (length (text_section ctx)) :: u64;
          abbrev_off = cursor + of_nat (length info); line_off = abbrev_off + of_nat (length abbrev);
          str_off = line_off + of_nat (length line); shstrtab_off = str_off + of_nat (length str) in
      [zero_shdr,
       zero_shdr\<lparr>sh_name := 1, sh_type := 1, sh_flags := 0x2 OR 0x4, sh_addr := base_address ctx,
         sh_offset := PAGESIZE, sh_size := text_size, sh_addralign := 16\<rparr>,
       zero_shdr\<lparr>sh_name := 7, sh_type := 1, sh_flags := 0x2 OR 0x1, sh_addr := base_address ctx + text_size,
         sh_offset := PAGESIZE + text_size, sh_size := of_nat (length (data_section ctx)), sh_addralign := 8\<rparr>,
       unloaded_section 13 3 shstrtab_off shstrtab,
       (unloaded_section 23 1 cursor info)\<lparr>sh_link := 7\<rparr>,
       unloaded_section 35 1 abbrev_off abbrev,
       unloaded_section 49 1 line_off line,
       unloaded_section 61 3 str_off str])"

text \<open>The headers, zeros up to the page of the code, the code, the data, zeros up to a page.\<close>

definition elf_image :: "asm_ctx \<Rightarrow> elf_ehdr \<Rightarrow> u8 list" where
  "elf_image ctx ehdr =
     (let header = ehdr_bytes ehdr @ phdr_bytes (elf_phdr_of ctx) in
      header @ replicate (unat PAGESIZE - (EHDR_SIZE + PHDR_SIZE)) 0 @ text_section ctx @ data_section ctx @
      replicate (unat (total_aligned ctx - total_size ctx)) 0)"

definition asm_write_elf64 :: "asm_ctx \<Rightarrow> bool \<Rightarrow> string \<Rightarrow> u8 list option" where
  "asm_write_elf64 ctx emit_dwarf filename =
     (if \<not> emit_dwarf then Some (elf_image ctx (elf_ehdr_of ctx 0 0 0 0))
      else do {
        (offs, st) \<leftarrow> debug_str ctx filename;
        abbrev \<leftarrow> debug_abbrev;
        info \<leftarrow> debug_info ctx offs st;
        line \<leftarrow> debug_line (base_address ctx) (text_end ctx) filename (line_map ctx);
        let cursor = PAGESIZE + total_aligned ctx;
        let debug = info @ abbrev @ line @ str_bytes st @ shstrtab;
        let sections_end = cursor + of_nat (length debug);
        let shoff = align_up sections_end 8;
        Some (elf_image ctx (elf_ehdr_of ctx shoff (of_nat SHDR_SIZE) 8 3) @ debug @
          replicate (unat (shoff - sections_end)) 0 @
          concat (map shdr_bytes (section_headers ctx cursor info abbrev line (str_bytes st))))
      })"

text \<open>\<open>asm_write_binary\<close>.\<close>

definition asm_write_binary :: "asm_ctx \<Rightarrow> u8 list" where
  "asm_write_binary ctx = text_section ctx"

section \<open>The reader\<close>

datatype elf_error =
    Too_Small | Not_Elf64 | Bad_Section_Table | Headers_Out_Of_Bounds | Bad_Name_Index | Bad_Name_Bounds
  | Text_Exceeds_File | Missing_Text | Decode_Failed | Read_Outside

text \<open>\<open>strcmp\<close> of what is left of a buffer with a string; \<open>None\<close> when the buffer ends first.\<close>

fun strcmp_equal :: "u8 list \<Rightarrow> u8 list \<Rightarrow> bool option" where
  "strcmp_equal _ [] = Some True"
| "strcmp_equal [] (c # cs) = None"
| "strcmp_equal (b # bs) (c # cs) = (if b \<noteq> c then Some False else strcmp_equal bs cs)"

fun find_text :: "u8 list \<Rightarrow> u64 \<Rightarrow> elf_shdr list \<Rightarrow> elf_error + elf_shdr" where
  "find_text names limit [] = Inl Missing_Text"
| "find_text names limit (sh # shs) =
     (if length names \<le> unat (sh_name sh) then find_text names limit shs
      else case strcmp_equal (drop (unat (sh_name sh)) names) (c_string ''.text'') of
        None \<Rightarrow> Inl Read_Outside
      | Some False \<Rightarrow> find_text names limit shs
      | Some True \<Rightarrow> if limit < sh_offset sh + sh_size sh then Inl Text_Exceeds_File else Inr sh)"

definition file_slice :: "u8 list \<Rightarrow> nat \<Rightarrow> nat \<Rightarrow> u8 list option" where
  "file_slice bs off len = (if length bs < off + len then None else Some (take len (drop off bs)))"

definition asm_disassemble_file :: "u8 list \<Rightarrow> elf_error + string list" where
  "asm_disassemble_file file_data =
     (let limit = of_nat (length file_data) :: u64; ehdr = ehdr_of file_data;
          table_size = unat (e_shentsize ehdr) * unat (e_shnum ehdr) in
      if length file_data < EHDR_SIZE then Inl Too_Small
      else if take 6 (e_ident ehdr) \<noteq> [0x7F, 0x45, 0x4C, 0x46, 2, 1] then Inl Not_Elf64
      else if e_shentsize ehdr \<noteq> of_nat SHDR_SIZE \<or> e_shnum ehdr = 0 then Inl Bad_Section_Table
      else if limit < e_shoff ehdr + ucast (e_shentsize ehdr) * ucast (e_shnum ehdr) then Inl Headers_Out_Of_Bounds
      else case file_slice file_data (unat (e_shoff ehdr)) table_size of
        None \<Rightarrow> Inl Read_Outside
      | Some table \<Rightarrow>
          let sections = map (\<lambda>i. shdr_of (drop (SHDR_SIZE * i) table)) [0..<unat (e_shnum ehdr)] in
          if e_shnum ehdr \<le> e_shstrndx ehdr then Inl Bad_Name_Index
          else let shstr = sections ! unat (e_shstrndx ehdr) in
            if limit < sh_offset shstr + sh_size shstr \<or> sh_size shstr = 0 then Inl Bad_Name_Bounds
            else case file_slice file_data (unat (sh_offset shstr)) (unat (sh_size shstr)) of
              None \<Rightarrow> Inl Read_Outside
            | Some names \<Rightarrow>
                (case find_text names limit sections of
                   Inl err \<Rightarrow> Inl err
                 | Inr sh \<Rightarrow>
                     (case file_slice file_data (unat (sh_offset sh)) (unat (sh_size sh)) of
                        None \<Rightarrow> Inl Read_Outside
                      | Some text_data \<Rightarrow>
                          (case disassemble_code_buffer text_data (sh_addr sh) of
                             None \<Rightarrow> Inl Decode_Failed | Some lines \<Rightarrow> Inr lines))))"

section \<open>Headers read back\<close>

lemma nth_beyond:
  assumes "length as \<le> n"
  shows "(as @ bs) ! (n + k) = bs ! (n - length as + k)"
proof -
  obtain m where "n = length as + m" using assms le_Suc_ex by blast
  then show ?thesis using nth_append_length_plus [of as bs "m + k"] by (simp add: add.assoc)
qed

lemma le_at_append:
  assumes "length as \<le> n"
  shows "le16_at (as @ bs) n = le16_at bs (n - length as)"
    "le32_at (as @ bs) n = le32_at bs (n - length as)"
    "le64_at (as @ bs) n = le64_at bs (n - length as)"
proof -
  have first: "(as @ bs) ! n = bs ! (n - length as)" using nth_beyond [OF assms, of bs 0] by simp
  show "le16_at (as @ bs) n = le16_at bs (n - length as)" "le32_at (as @ bs) n = le32_at bs (n - length as)"
    unfolding le16_at_def le32_at_def first nth_beyond [OF assms] by (rule refl)+
  show "le64_at (as @ bs) n = le64_at bs (n - length as)"
    using assms by (simp add: le64_at_def)
qed

lemma le_at_le:
  "le16_at (le16 v16 @ bs) 0 = v16" "le32_at (le32 v32 @ bs) 0 = v32" "le64_at (le64 v64 @ bs) 0 = v64"
  by (simp_all add: le16_at_def le32_at_def le64_at_def nth_append flip: numeral_2_eq_2)

lemma ehdr_of_fields:
  "length ident = 16 \<Longrightarrow> ehdr_of (ident @ le16 type @ le16 machine @ le32 version @ le64 entry @ le64 phoff @
     le64 shoff @ le32 flags @ le16 ehsize @ le16 phentsize @ le16 phnum @ le16 shentsize @ le16 shnum @
     le16 shstrndx @ r) =
   \<lparr>e_ident = ident, e_type = type, e_machine = machine, e_version = version, e_entry = entry, e_phoff = phoff,
    e_shoff = shoff, e_flags = flags, e_ehsize = ehsize, e_phentsize = phentsize, e_phnum = phnum,
    e_shentsize = shentsize, e_shnum = shnum, e_shstrndx = shstrndx\<rparr>"
  unfolding ehdr_of_def by (simp add: le_at_append le_at_le)

lemma ehdr_of_bytes: "length (e_ident h) = 16 \<Longrightarrow> ehdr_of (ehdr_bytes h @ r) = h"
  unfolding ehdr_bytes_def append_assoc by (simp only: ehdr_of_fields) simp

lemma length_ehdr_bytes: "length (e_ident h) = 16 \<Longrightarrow> length (ehdr_bytes h) = EHDR_SIZE"
  by (simp add: ehdr_bytes_def)

lemma length_phdr_bytes: "length (phdr_bytes h) = PHDR_SIZE"
  by (simp add: phdr_bytes_def)

lemma length_shdr_bytes: "length (shdr_bytes h) = SHDR_SIZE"
  by (simp add: shdr_bytes_def)

lemma shdr_of_fields:
  "shdr_of (le32 name @ le32 type @ le64 flags @ le64 addr @ le64 off @ le64 len @ le32 link @ le32 info @
     le64 addralign @ le64 entsize @ r) =
   \<lparr>sh_name = name, sh_type = type, sh_flags = flags, sh_addr = addr, sh_offset = off, sh_size = len,
    sh_link = link, sh_info = info, sh_addralign = addralign, sh_entsize = entsize\<rparr>"
  unfolding shdr_of_def by (simp add: le_at_append le_at_le)

lemma shdr_of_bytes: "shdr_of (shdr_bytes h @ r) = h"
  unfolding shdr_bytes_def append_assoc by (simp only: shdr_of_fields) simp

lemma section_table:
  "map (\<lambda>i. shdr_of (drop (SHDR_SIZE * i) (concat (map shdr_bytes hs) @ r))) [0..<length hs] = hs"
proof (induction hs)
  case (Cons h hs)
  have "map (\<lambda>i. shdr_of (drop (SHDR_SIZE * i) (concat (map shdr_bytes (h # hs)) @ r))) [0..<length (h # hs)] =
      shdr_of (shdr_bytes h @ concat (map shdr_bytes hs) @ r) #
      map (\<lambda>i. shdr_of (drop (SHDR_SIZE * i) (concat (map shdr_bytes hs) @ r))) [0..<length hs]"
    by (simp add: upt_conv_Cons length_shdr_bytes flip: map_Suc_upt del: upt_Suc)
  then show ?case unfolding Cons.IH shdr_of_bytes .
qed simp

lemma length_section_table: "length (concat (map shdr_bytes hs)) = SHDR_SIZE * length hs"
  by (induction hs) (simp_all add: length_shdr_bytes)

section \<open>Offsets\<close>

lemma slice_middle: "length as = off \<Longrightarrow> length bs = len \<Longrightarrow> file_slice (as @ bs @ cs) off len = Some bs"
  by (auto simp: file_slice_def)

lemma round_up_step:
  assumes "k < 31" "unat v + 2 ^ k \<le> 2 ^ 64"
  shows "unat (round_up v (2 ^ k)) = unat v + unat (round_up v (2 ^ k) - v)"
proof -
  define d where "d = round_up v (2 ^ k) - v"
  have "unat d < 2 ^ k" unfolding d_def by (rule padding_round_up(2) [OF assms(1)])
  then have "unat (v + d) = unat v + unat d" using assms(2) by (simp add: unat_plus_if')
  then show ?thesis by (simp add: d_def)
qed

lemma unat_of_nat_small: "n < 2 ^ 64 \<Longrightarrow> unat (of_nat n :: u64) = n"
  by (simp add: unsigned_of_nat take_bit_nat_eq_self)

section \<open>Sizes\<close>

lemma append_bytes_bound: "append_bytes_checked capacity bs buf = Some buf' \<Longrightarrow> length buf' \<le> capacity"
  by (auto simp: append_bytes_checked_def split: if_splits)

lemma add_symbol_name_bound:
  "add_symbol_name ctx i st = Some st' \<Longrightarrow> length (str_bytes st) \<le> STR_CAPACITY \<Longrightarrow> length (str_bytes st') \<le> STR_CAPACITY"
  by (auto simp: add_symbol_name_def Option.bind_eq_Some_conv dest: append_bytes_bound split: if_splits)

lemma text_symbols_bound:
  "text_symbols ctx is st = Some st' \<Longrightarrow> length (str_bytes st) \<le> STR_CAPACITY \<Longrightarrow> length (str_bytes st') \<le> STR_CAPACITY"
proof (induction ctx "is" st rule: text_symbols.induct)
  case (2 ctx i "is" st)
  show ?case
  proof (cases "in_text_range ctx (symbols ctx ! i)")
    case True
    then obtain st1 where st1: "add_symbol_name ctx i st = Some st1"
      "text_symbols ctx is
        (if sym_is_function (symbols ctx ! i) then st1\<lparr>function_symbols := function_symbols st1 @ [i]\<rparr>
         else st1\<lparr>label_symbols := label_symbols st1 @ [i]\<rparr>) = Some st'"
      using "2.prems"(1) by (auto simp: Option.bind_eq_Some_conv)
    show ?thesis
    proof (rule "2.IH"(2) [OF _ st1])
      show "length (str_bytes (if sym_is_function (symbols ctx ! i) then st1\<lparr>function_symbols := function_symbols st1 @ [i]\<rparr>
         else st1\<lparr>label_symbols := label_symbols st1 @ [i]\<rparr>)) \<le> STR_CAPACITY"
        using add_symbol_name_bound [OF st1(1) "2.prems"(2)] by simp
    qed (use True in simp)
  qed (use 2 in simp)
qed simp

lemma debug_str_bound:
  assumes "debug_str ctx filename = Some (offs, st)"
  shows "length (str_bytes st) \<le> STR_CAPACITY"
proof -
  obtain buf st1 st2 where steps: "length buf \<le> STR_CAPACITY"
    "text_symbols ctx [0..<length (symbols ctx)]
       \<lparr>str_bytes = buf, symbol_str_off = Map.empty, function_symbols = [], label_symbols = []\<rparr> = Some st1"
    "start_fallback ctx st1 = Some st2" "str_bytes st = str_bytes st2"
    using assms by (auto simp: debug_str_def Let_def Option.bind_eq_Some_conv dest!: append_bytes_bound)
  have "length (str_bytes st1) \<le> STR_CAPACITY" using text_symbols_bound [OF steps(2)] steps(1) by simp
  then have "length (str_bytes st2) \<le> STR_CAPACITY"
    using steps(3) add_symbol_name_bound [of ctx _ "st1\<lparr>function_symbols := _\<rparr>" st2]
    by (auto simp: start_fallback_def split: if_splits option.splits)
  then show ?thesis using steps(4) by simp
qed

lemma write_le32_at_bound:
  "write_le32_at_checked capacity off v buf = Some buf' \<Longrightarrow> length buf \<le> capacity \<Longrightarrow> length buf' \<le> capacity"
  by (auto simp: write_le32_at_checked_def patch_def split: if_splits)

lemma append_items_bound:
  "append_items capacity xs buf = Some buf' \<Longrightarrow> length buf \<le> capacity \<Longrightarrow> length buf' \<le> capacity"
  using append_items_Some by blast

lemma debug_info_bound:
  assumes "debug_info ctx offs st = Some info"
  shows "length info \<le> INFO_CAPACITY"
proof -
  obtain b1 b2 b3 b4 xs1 xs2 xs3 xs4 v where steps:
    "append_items INFO_CAPACITY xs1 [] = Some b1" "append_items INFO_CAPACITY xs2 b1 = Some b2"
    "append_items INFO_CAPACITY xs3 b2 = Some b3" "append_items INFO_CAPACITY xs4 b3 = Some b4"
    "write_le32_at_checked INFO_CAPACITY 0 v b4 = Some info"
    using assms unfolding debug_info_def Option.bind_eq_Some_conv by (elim exE conjE) (rule that)
  have "length b1 \<le> INFO_CAPACITY" by (rule append_items_bound [OF steps(1)]) simp
  from append_items_bound [OF steps(4) append_items_bound [OF steps(3) append_items_bound [OF steps(2) this]]]
  show ?thesis by (rule write_le32_at_bound [OF steps(5)])
qed

lemma debug_line_bound: "debug_line start_addr end_addr filename rows = Some line \<Longrightarrow> length line \<le> LINE_CAPACITY"
  using debug_line_bytes [of start_addr end_addr filename rows line] by (cases "line_items start_addr 1 rows") auto

lemma debug_abbrev_length: "debug_abbrev = Some abbrev \<Longrightarrow> length abbrev \<le> ABBREV_CAPACITY"
  unfolding debug_abbrev_def by (erule append_items_bound) simp

lemma length_c_string: "length (c_string s) = Suc (length s)"
  by (simp add: c_string_def)

lemma length_shstrtab: "length shstrtab = 73"
  by (simp add: shstrtab_def length_c_string)

lemma names_compared:
  "strcmp_equal (drop 0 shstrtab) (c_string ''.text'') = Some False"
  "strcmp_equal (drop 1 shstrtab) (c_string ''.text'') = Some True"
  by code_simp+

section \<open>The image\<close>

lemma unat_total_size:
  "length (text_section ctx) + length (data_section ctx) < 2 ^ 32 \<Longrightarrow>
   unat (total_size ctx) = length (text_section ctx) + length (data_section ctx)"
  unfolding total_size_def of_nat_add [symmetric] by (rule unat_of_nat_small) simp

lemma unat_total_aligned:
  assumes "length (text_section ctx) + length (data_section ctx) < 2 ^ 32"
  shows "unat (total_aligned ctx) = unat (total_size ctx) + unat (total_aligned ctx - total_size ctx)"
    "unat (total_aligned ctx - total_size ctx) < 4096"
  using round_up_step [of 12 "total_size ctx"] padding_round_up(2) [of 12 "total_size ctx"]
    unat_total_size [OF assms] assms
  by (simp_all add: total_aligned_def)

lemma length_elf_image:
  assumes "length (e_ident h) = 16" "length (text_section ctx) + length (data_section ctx) < 2 ^ 32"
  shows "length (elf_image ctx h) = 4096 + unat (total_aligned ctx)"
  using unat_total_aligned(1) [OF assms(2)] unat_total_size [OF assms(2)]
  by (simp add: elf_image_def Let_def length_ehdr_bytes [OF assms(1)] length_phdr_bytes)

lemma elf_image_text:
  assumes "length (e_ident h) = 16"
  shows "file_slice (elf_image ctx h @ r) 4096 (length (text_section ctx)) = Some (text_section ctx)"
proof -
  define front where "front = ehdr_bytes h @ phdr_bytes (elf_phdr_of ctx) @ replicate (unat PAGESIZE - (EHDR_SIZE + PHDR_SIZE)) 0"
  have front: "length front = 4096"
    by (simp add: front_def length_ehdr_bytes [OF assms] length_phdr_bytes)
  have "elf_image ctx h @ r = front @ text_section ctx @
      (data_section ctx @ replicate (unat (total_aligned ctx - total_size ctx)) 0 @ r)"
    by (simp add: elf_image_def Let_def front_def)
  then show ?thesis by (simp only:) (rule slice_middle [OF front refl])
qed

lemma elf_image_ehdr: "length (e_ident h) = 16 \<Longrightarrow> ehdr_of (elf_image ctx h @ r) = h"
  by (simp add: elf_image_def Let_def ehdr_of_bytes)

lemma ident_length: "length (e_ident (elf_ehdr_of ctx shoff shentsize shnum shstrndx)) = 16"
  by (simp add: elf_ehdr_of_def)

section \<open>Reading a file with sections\<close>

lemma reader_steps:
  assumes layout: "file = front @ names @ gap @ concat (map shdr_bytes hs)"
    and head_read: "ehdr_of file = elf_ehdr_of ctx (of_nat (length (front @ names @ gap))) (of_nat SHDR_SIZE) 8 3"
    and sections: "length hs = 8" "sh_offset (hs ! 3) = of_nat (length front)" "sh_size (hs ! 3) = of_nat (length names)"
    and small: "length file < 2 ^ 63" "EHDR_SIZE \<le> length front" "names \<noteq> []"
    and found: "find_text names (of_nat (length file)) hs = Inr sh"
    and code: "file_slice file (unat (sh_offset sh)) (unat (sh_size sh)) = Some text_data"
  shows "asm_disassemble_file file =
    (case disassemble_code_buffer text_data (sh_addr sh) of None \<Rightarrow> Inl Decode_Failed | Some lines \<Rightarrow> Inr lines)"
proof -
  let ?shoff = "length (front @ names @ gap)"
  have len: "length file = ?shoff + 512"
    unfolding layout using length_section_table [of hs] sections(1) by simp
  have fields: "take 6 (e_ident (ehdr_of file)) = [0x7F, 0x45, 0x4C, 0x46, 2, 1]" "e_shentsize (ehdr_of file) = 64"
    "e_shnum (ehdr_of file) = 8" "e_shstrndx (ehdr_of file) = 3" "e_shoff (ehdr_of file) = of_nat ?shoff"
    unfolding head_read by (simp_all add: elf_ehdr_of_def del: length_append)
  have shoff: "unat (of_nat ?shoff :: u64) = ?shoff" by (rule unat_of_nat_small) (use len small(1) in simp)
  have flen: "unat (of_nat (length file) :: u64) = length file" by (rule unat_of_nat_small) (use small(1) in simp)
  have in_file: "\<not> of_nat (length file) < (of_nat ?shoff :: u64) + ucast (64 :: u16) * ucast (8 :: u16)"
  proof -
    have "(of_nat ?shoff :: u64) + ucast (64 :: u16) * ucast (8 :: u16) = of_nat (length file)"
      unfolding len by simp
    then show ?thesis by simp
  qed
  have table: "file_slice file ?shoff (unat (64 :: u16) * unat (8 :: u16)) = Some (concat (map shdr_bytes hs))"
    using slice_middle [of "front @ names @ gap" ?shoff "concat (map shdr_bytes hs)" 512 "[]"]
      length_section_table [of hs] sections(1) by (simp add: layout)
  have hs: "map (\<lambda>i. shdr_of (drop (SHDR_SIZE * i) (concat (map shdr_bytes hs)))) [0..<unat (8 :: u16)] = hs"
    using section_table [of hs "[]"] sections(1) by simp
  have front: "unat (of_nat (length front) :: u64) = length front" by (rule unat_of_nat_small) (use len small(1) in simp)
  have names: "unat (of_nat (length names) :: u64) = length names" by (rule unat_of_nat_small) (use len small(1) in simp)
  have string_table: "file_slice file (length front) (length names) = Some names"
    unfolding layout by (rule slice_middle) simp_all
  have bounds: "\<not> of_nat (length file) < (of_nat (length front) + of_nat (length names) :: u64)"
  proof -
    have "unat (of_nat (length front) + of_nat (length names) :: u64) = length front + length names"
      unfolding of_nat_add [symmetric] by (rule unat_of_nat_small) (use len small(1) in simp)
    then show ?thesis unfolding word_less_nat_alt flen using len by simp
  qed
  have nonzero: "(of_nat (length names) :: u64) \<noteq> 0"
    using names small(3) by (metis length_0_conv unat_0)
  have three: "unat (3 :: u16) = 3" by simp
  have "EHDR_SIZE \<le> length file" using len small(2) by simp
  then show ?thesis
    unfolding asm_disassemble_file_def Let_def fields shoff table option.case hs three sections(2,3) front names
      string_table found sum.case code
    using in_file bounds nonzero by (simp del: of_nat_add length_append)
qed

section \<open>The file written\<close>

lemma align_up_8:
  assumes "unat v < 2 ^ 63"
  shows "unat (align_up v 8) = unat v + unat (align_up v 8 - v)" "unat (align_up v 8 - v) < 8"
  using round_up_step [of 3 v] padding_round_up(2) [of 3 v] assms
  by (simp_all add: align_up_def round_up_def)

lemma find_text_first:
  assumes "\<not> limit < PAGESIZE + of_nat (length (text_section ctx))"
  shows "\<exists>sh. find_text shstrtab limit (section_headers ctx cursor info abbrev line str) = Inr sh \<and>
    sh_offset sh = PAGESIZE \<and> sh_size sh = of_nat (length (text_section ctx)) \<and> sh_addr sh = base_address ctx"
  using assms names_compared
  by (simp add: section_headers_def Let_def zero_shdr_def length_shstrtab)

lemma section_headers_names:
  "length (section_headers ctx cursor info abbrev line str) = 8"
  "sh_offset (section_headers ctx cursor info abbrev line str ! 3) =
     cursor + of_nat (length (info @ abbrev @ line @ str))"
  "sh_size (section_headers ctx cursor info abbrev line str ! 3) = of_nat (length shstrtab)"
  by (simp_all add: section_headers_def Let_def unloaded_section_def zero_shdr_def add.assoc)

lemma written_with_debug:
  assumes written: "asm_write_elf64 ctx True filename = Some file"
    and small: "length (text_section ctx) + length (data_section ctx) < 2 ^ 32"
  shows "asm_disassemble_file file =
    (case disassemble_code_buffer (text_section ctx) (base_address ctx) of
       None \<Rightarrow> Inl Decode_Failed | Some lines \<Rightarrow> Inr lines)"
proof -
  obtain offs st abbrev info line where parts: "debug_str ctx filename = Some (offs, st)" "debug_abbrev = Some abbrev"
    "debug_info ctx offs st = Some info"
    "debug_line (base_address ctx) (text_end ctx) filename (line_map ctx) = Some line"
    using written by (auto simp: asm_write_elf64_def Option.bind_eq_Some_conv)
  define cursor where "cursor = PAGESIZE + total_aligned ctx"
  define debug where "debug = info @ abbrev @ line @ str_bytes st"
  define shoff where "shoff = align_up (cursor + of_nat (length (debug @ shstrtab))) 8"
  define gap where "gap = replicate (unat (shoff - (cursor + of_nat (length (debug @ shstrtab))))) (0 :: u8)"
  define hs where "hs = section_headers ctx cursor info abbrev line (str_bytes st)"
  define h where "h = elf_ehdr_of ctx shoff (of_nat SHDR_SIZE) 8 3"
  define image where "image = elf_image ctx h"
  have layout: "file = (image @ debug) @ shstrtab @ gap @ concat (map shdr_bytes hs)"
    using written
    by (simp add: asm_write_elf64_def Let_def parts cursor_def debug_def shoff_def gap_def hs_def h_def image_def)
  note ident = ident_length [of ctx shoff "of_nat SHDR_SIZE" 8 3, folded h_def]
  have aligned: "unat (total_aligned ctx) < 2 ^ 32 + 4096"
    using unat_total_aligned [OF small] unat_total_size [OF small] small by linarith
  have image_len: "length image = 4096 + unat (total_aligned ctx)"
    unfolding image_def by (rule length_elf_image [OF ident small])
  have cursor: "cursor = of_nat (length image)" unfolding cursor_def image_len by simp
  have debug_len: "length debug < 2 ^ 20"
    using debug_str_bound [OF parts(1)] debug_info_bound [OF parts(3)] debug_line_bound [OF parts(4)]
      debug_abbrev_length [OF parts(2)] unfolding debug_def by simp
  define before where "before = length ((image @ debug) @ shstrtab)"
  have before: "before < 2 ^ 33" using debug_len image_len aligned by (simp add: before_def length_shstrtab)
  have sections_end: "cursor + of_nat (length (debug @ shstrtab)) = of_nat before"
    unfolding cursor before_def by simp
  have unat_before: "unat (of_nat before :: u64) = before" by (rule unat_of_nat_small) (use before in simp)
  have gap_len: "unat shoff = before + length gap" "length gap < 8"
    using align_up_8 [of "of_nat before"] before unfolding shoff_def gap_def sections_end length_replicate unat_before by simp_all
  have "shoff = of_nat (unat shoff)" by simp
  then have shoff: "shoff = of_nat (length ((image @ debug) @ shstrtab @ gap))"
    unfolding gap_len(1) by (simp add: before_def add.assoc)
  have file_len: "length file = before + length gap + 512"
    unfolding layout by (simp add: before_def length_section_table hs_def section_headers_names)
  have text_in: "\<not> of_nat (length file) < PAGESIZE + (of_nat (length (text_section ctx)) :: u64)"
  proof -
    have "length (text_section ctx) \<le> unat (total_aligned ctx)"
      using unat_total_aligned(1) [OF small] unat_total_size [OF small] by linarith
    then have "4096 + length (text_section ctx) \<le> length file" using file_len image_len by (simp add: before_def)
    moreover have "PAGESIZE + of_nat (length (text_section ctx)) = (of_nat (4096 + length (text_section ctx)) :: u64)" by simp
    moreover have "unat (of_nat (4096 + length (text_section ctx)) :: u64) = 4096 + length (text_section ctx)"
      by (rule unat_of_nat_small) (use small in simp)
    moreover have "unat (of_nat (length file) :: u64) = length file"
      by (rule unat_of_nat_small) (use file_len gap_len before in simp)
    ultimately show ?thesis unfolding word_less_nat_alt by simp
  qed
  obtain sh where sh: "find_text shstrtab (of_nat (length file)) hs = Inr sh" "sh_offset sh = PAGESIZE"
    "sh_size sh = of_nat (length (text_section ctx))" "sh_addr sh = base_address ctx"
    using find_text_first [OF text_in] unfolding hs_def by blast
  have "unat (of_nat (length (text_section ctx)) :: u64) = length (text_section ctx)"
    by (rule unat_of_nat_small) (use small in simp)
  then have code: "file_slice file (unat (sh_offset sh)) (unat (sh_size sh)) = Some (text_section ctx)"
    using elf_image_text [OF ident, of ctx "debug @ shstrtab @ gap @ concat (map shdr_bytes hs)"]
    unfolding sh layout image_def by simp
  have "asm_disassemble_file file =
      (case disassemble_code_buffer (text_section ctx) (sh_addr sh) of None \<Rightarrow> Inl Decode_Failed | Some lines \<Rightarrow> Inr lines)"
  proof (rule reader_steps [OF layout _ _ _ _ _ _ _ sh(1) code])
    show "ehdr_of file = elf_ehdr_of ctx (of_nat (length ((image @ debug) @ shstrtab @ gap))) (of_nat SHDR_SIZE) 8 3"
    proof -
      have "ehdr_of file = h" unfolding layout image_def append_assoc by (rule elf_image_ehdr [OF ident])
      also have "\<dots> = elf_ehdr_of ctx (of_nat (length ((image @ debug) @ shstrtab @ gap))) (of_nat SHDR_SIZE) 8 3"
        by (subst h_def, subst shoff) (rule refl)
      finally show ?thesis .
    qed
    show "length hs = 8" "sh_size (hs ! 3) = of_nat (length shstrtab)"
      unfolding hs_def by (rule section_headers_names)+
    show "sh_offset (hs ! 3) = of_nat (length (image @ debug))"
      unfolding hs_def section_headers_names cursor debug_def by simp
    show "length file < 2 ^ 63" using file_len gap_len before by simp
    show "EHDR_SIZE \<le> length (image @ debug)" using image_len by simp
    show "shstrtab \<noteq> []" using length_shstrtab by auto
  qed
  then show ?thesis unfolding sh .
qed

lemma written_without_debug:
  assumes "asm_write_elf64 ctx False filename = Some file"
  shows "asm_disassemble_file file = Inl Bad_Section_Table"
proof -
  let ?h = "elf_ehdr_of ctx 0 0 0 0"
  have layout: "file = elf_image ctx ?h @ []" using assms by (simp add: asm_write_elf64_def)
  have head_read: "ehdr_of file = ?h" unfolding layout by (rule elf_image_ehdr [OF ident_length])
  have "EHDR_SIZE \<le> length file" unfolding layout by (simp add: elf_image_def Let_def length_ehdr_bytes ident_length)
  then show ?thesis unfolding asm_disassemble_file_def Let_def head_read by (simp add: elf_ehdr_of_def)
qed

end
