(* ===== verification/Output_Properties.thy ===== *)
theory Output_Properties
  imports Elf_File
begin

text \<open>
  The properties of the files the assembler writes.
\<close>

section \<open>The line table\<close>

text \<open>C38 (roundtrip). A line number section that was written reads back as the line map itself, row by row,
  followed by the end of the code: for a line map whose addresses do not decrease and lie in the
  code. The reader is that of DWARF 4: it takes the minimum instruction length, the line base and
  range and the opcode base from the header and gives the standard opcodes the operands the standard
  defines. Known defect: the table of the header that should repeat the numbers of these operands
  holds zeros only, so a reader that goes by this table does not read the program.\<close>

theorem debug_line_reads_back:
  assumes "debug_line start_addr end_addr filename rows = Some bs"
    and "sorted (start_addr # map fst rows)"
    and "\<forall>(a, l) \<in> set rows. a \<le> end_addr \<and> 0 < l \<and> l < 2 ^ 31"
    and "start_addr \<le> end_addr" "unat end_addr - unat start_addr < 2 ^ 32"
  shows "map_option (lp_opcode_lengths \<circ> fst) (read_line_params bs) = Some (replicate 12 0) \<and>
    replicate 12 0 \<noteq> standard_opcode_lengths \<and> read_debug_line bs =
    Some (map (\<lambda>(a, l). (a, l, False)) rows @
      (if last (start_addr # map fst rows) < end_addr then [(end_addr, last (1 # map snd rows), False)] else []) @
      [(end_addr, last (1 # map snd rows), True)])"
proof -
  obtain moves last_addr where items: "line_items start_addr 1 rows = (moves, last_addr)" by fastforce
  have ok: "line_map_ok start_addr rows" using line_map_ok_sorted [OF assms(2,3,4,5)] .
  have last: "last_addr = last (start_addr # map fst rows)"
    using line_items_end [OF ok, of 1] items by simp
  have in_rows: "last (start_addr # map fst rows) \<in> set (start_addr # map fst rows)" by (rule last_in_set) simp
  then have low: "last (start_addr # map fst rows) \<le> end_addr" using assms(3,4) by auto
  have "start_addr \<le> last (start_addr # map fst rows)"
    using assms(2) in_rows by auto
  then have span: "unat (end_addr - last (start_addr # map fst rows)) < 2 ^ 32"
    using low assms(5) by (simp add: unat_sub word_le_nat_alt)
  let ?prog = "items_bytes ([DW_U8 0, DW_U8 9, DW_U8 2, DW_LE64 start_addr] @ moves @ line_tail last_addr end_addr)"
  note bytes = debug_line_bytes [OF assms(1) items]
  have params: "read_line_params bs = Some (written_params, ?prog)"
    by (subst bytes(1)) (rule read_line_params_written [OF bytes(2)])
  have "read_debug_line bs = run_lines (length ?prog) written_params 0 1 ?prog"
    by (subst bytes(1)) (rule read_debug_line_program [OF bytes(2)])
  also note run_line_program [OF ok low span items refl]
  finally have rows: "read_debug_line bs = Some (line_rows rows @
      (if last_addr < end_addr then [(end_addr, last (1 # map snd rows), False)] else []) @
      [(end_addr, last (1 # map snd rows), True)])" .
  have "map_option (lp_opcode_lengths \<circ> fst) (read_line_params bs) = Some (replicate 12 0)"
    unfolding params by (simp add: written_params_def)
  moreover have "replicate 12 0 \<noteq> standard_opcode_lengths"
    by (simp add: standard_opcode_lengths_def eval_nat_numeral)
  ultimately show ?thesis using rows unfolding line_rows_def last by (intro conjI)
qed

definition two_rows :: "(u64 \<times> int) list" where
  "two_rows = [(0x400000, 3), (0x400005, 7)]"

lemma two_rows_written:
  "\<exists>bs. debug_line 0x400000 0x400007 ''a.s'' two_rows = Some bs"
proof -
  have items: "line_items 0x400000 1 two_rows =
      ([DW_U8 3, DW_SLEB 2, DW_U8 1, DW_U8 2, DW_ULEB 5, DW_U8 3, DW_SLEB 4, DW_U8 1], 0x400005)"
    by (simp add: two_rows_def)
  show ?thesis
    by (rule debug_line_written [OF items])
      (simp add: line_header_def source_name_def path_dirname_def path_basename_def c_string_def line_tail_def
        uleb_bytes.simps sleb_bytes.simps sleb_more_def)
qed

lemma debug_line_reads_back_witness:
  "\<exists>bs. debug_line 0x400000 0x400007 ''a.s'' two_rows = Some bs
    \<and> read_debug_line bs = Some [(0x400000, 3, False), (0x400005, 7, False), (0x400007, 7, False), (0x400007, 7, True)]"
proof -
  obtain bs where bs: "debug_line 0x400000 0x400007 ''a.s'' two_rows = Some bs" using two_rows_written by blast
  show ?thesis
    using bs debug_line_reads_back [OF bs] by (simp add: two_rows_def)
qed

section \<open>The file\<close>

text \<open>C39 (roundtrip). A file written with the debug option holds what the disassembler looks for: reading it disassembles
  the code of the context from its base address on. A file written without the option has no section
  headers, and the disassembler rejects it.\<close>

theorem elf_file_reads_back:
  assumes "asm_write_elf64 ctx emit_dwarf filename = Some file"
    and "length (text_section ctx) + length (data_section ctx) < 2 ^ 32"
  shows "asm_disassemble_file file =
    (if emit_dwarf
     then (case disassemble_code_buffer (text_section ctx) (base_address ctx) of
             None \<Rightarrow> Inl Decode_Failed | Some lines \<Rightarrow> Inr lines)
     else Inl Bad_Section_Table)"
proof (cases emit_dwarf)
  case True
  then show ?thesis using written_with_debug [of ctx filename "file"] assms by simp
next
  case False
  then show ?thesis using written_without_debug [of ctx filename "file"] assms by simp
qed

definition ret_ctx :: asm_ctx where
  "ret_ctx = asm_init\<lparr>text_section := [0xC3]\<rparr>"

lemma ret_ctx_fields:
  "text_section ret_ctx = [0xC3]" "data_section ret_ctx = []" "symbols ret_ctx = []" "line_map ret_ctx = []"
  "base_address ret_ctx = 0x400000" "text_end ret_ctx = 0x400001"
  by (simp_all add: ret_ctx_def asm_init_def text_end_def)

lemma ret_written: "\<exists>file. asm_write_elf64 ret_ctx True ''a.s'' = Some file"
proof -
  have str: "\<exists>offs st. debug_str ret_ctx ''a.s'' = Some (offs, st) \<and> function_symbols st = [] \<and> label_symbols st = []"
    by (simp add: debug_str_def Let_def ret_ctx_fields source_name_def path_dirname_def append_bytes_checked_def
        length_c_string start_fallback_def exchange_sort_def)
  then obtain offs st where st: "debug_str ret_ctx ''a.s'' = Some (offs, st)" "function_symbols st = []" "label_symbols st = []"
    by blast
  have "\<exists>info. debug_info ret_ctx offs st = Some info"
    by (simp add: debug_info_def st append_items_fits uleb_small write_le32_at_checked_def del: append_items.simps)
  moreover have "\<exists>line. debug_line 0x400000 0x400001 ''a.s'' [] = Some line"
    by (rule debug_line_written [where moves = "[]" and last_addr = "0x400000"])
      (simp_all add: line_header_def source_name_def path_dirname_def path_basename_def length_c_string line_tail_def
        uleb_small)
  ultimately show ?thesis
    by (auto simp: asm_write_elf64_def st debug_abbrev_fits ret_ctx_fields Let_def)
qed

lemma elf_file_reads_back_witness:
  "\<exists>file. asm_write_elf64 ret_ctx True ''a.s'' = Some file \<and>
    asm_disassemble_file file =
      (case disassemble_code_buffer [0xC3] 0x400000 of None \<Rightarrow> Inl Decode_Failed | Some lines \<Rightarrow> Inr lines)"
proof -
  obtain bs where written: "asm_write_elf64 ret_ctx True ''a.s'' = Some bs" using ret_written by blast
  show ?thesis using written elf_file_reads_back [OF written] by (simp add: ret_ctx_fields)
qed

end
