(* ===== verification/Reports.thy ===== *)
theory Reports
  imports Includes Disassembler
begin

text \<open>
  The text files of src/x86_64_asm.c: the hex file, the debug map, the listing and the two dumps, as
  the characters written; the escape of diagnostics in JSON and the capacity estimate of
  src/x86_64_parser.c. A writer whose file name does not fit answers \<open>None\<close>.
\<close>

section \<open>Formats\<close>

text \<open>\<open>%d\<close> and \<open>%zu\<close>, \<open>%-Ns\<close>, and \<open>%0Nlx\<close>.\<close>

fun decimal :: "nat \<Rightarrow> string" where
  "decimal n = (if n < 10 then [char_of (48 + n)] else decimal (n div 10) @ [char_of (48 + n mod 10)])"

declare decimal.simps [simp del]

definition decimal_int :: "int \<Rightarrow> string" where
  "decimal_int i = (if i < 0 then ''-'' @ decimal (nat (- i)) else decimal (nat i))"

definition pad_right :: "nat \<Rightarrow> string \<Rightarrow> string" where
  "pad_right n s = s @ replicate (n - length s) CHR '' ''"

definition hex_padded :: "nat \<Rightarrow> u64 \<Rightarrow> string" where
  "hex_padded n v = (let s = hex_of (unat v) in replicate (n - length s) CHR ''0'' @ s)"

definition flag_digit :: "bool \<Rightarrow> string" where
  "flag_digit b = (if b then ''1'' else ''0'')"

definition section_label :: "symbol \<Rightarrow> string" where
  "section_label s = (if sym_section s = 0 then ''text'' else ''data'')"

section \<open>The hex file\<close>

definition asm_write_hex :: "asm_ctx \<Rightarrow> string" where
  "asm_write_hex ctx =
     concat (map (\<lambda>(i, b). hex_byte b @ (if (i + 1) mod 16 = 0 then [LF] else '' ''))
       (enumerate 0 (text_section ctx))) @
     (if length (text_section ctx) mod 16 \<noteq> 0 then [LF] else [])"

section \<open>The debug map\<close>

definition debug_map_row :: "symbol \<Rightarrow> string" where
  "debug_map_row s = sym_name s @ '',0x'' @ hex_of (unat (sym_address s)) @ '','' @ section_label s @ '','' @
     flag_digit (sym_is_global s) @ '','' @ flag_digit (sym_is_external s) @ [LF]"

definition asm_write_debug_map :: "asm_ctx \<Rightarrow> string \<Rightarrow> (string \<times> string) option" where
  "asm_write_debug_map ctx filename =
     (if MAX_FILEPATH_LENGTH \<le> length (filename @ ''.dbg'') then None
      else Some (filename @ ''.dbg'',
        ''# x86_64-asm debug map (non-DWARF)'' @ [LF] @
        ''# base_address=0x'' @ hex_of (unat (base_address ctx)) @ [LF] @
        ''# text_size='' @ decimal (length (text_section ctx)) @ '' data_size='' @
          decimal (length (data_section ctx)) @ [LF] @ [LF] @
        ''SYMBOLS'' @ [LF] @ ''name,address,section,global,external'' @ [LF] @
        concat (map debug_map_row (symbols ctx))))"

section \<open>The listing\<close>

text \<open>At most sixteen bytes of an instruction are shown, and a line feed at the end of the source is left out.\<close>

definition listing_bytes :: "u8 list \<Rightarrow> string" where
  "listing_bytes bs = concat (map (\<lambda>(j, b). (if 0 < j then '' '' else []) @ hex_byte b) (enumerate 0 (take 16 bs)))"

definition listing_source :: "string \<Rightarrow> string" where
  "listing_source line =
     (let t = copy_bounded_text MAX_LINE_LENGTH line in if t \<noteq> [] \<and> last t = LF then butlast t else t)"

definition listing_row :: "string \<Rightarrow> string \<Rightarrow> string \<Rightarrow> string \<Rightarrow> string" where
  "listing_row a b c d = pad_right 6 a @ '' '' @ pad_right 8 b @ '' '' @ pad_right 32 c @ '' '' @ d @ [LF]"

definition listing_entry_row :: "listing_entry \<Rightarrow> string" where
  "listing_entry_row e = listing_row (decimal_int (le_line_number e)) (hex_of (unat (le_address e)))
     (listing_bytes (le_bytes e)) (listing_source (le_source_line e))"

definition listing_symbol_row :: "string \<Rightarrow> string \<Rightarrow> string \<Rightarrow> string" where
  "listing_symbol_row a b c = ''; '' @ pad_right 30 a @ '' '' @ pad_right 16 b @ '' '' @ c @ [LF]"

definition asm_write_listing :: "asm_ctx \<Rightarrow> string \<Rightarrow> string \<Rightarrow> (string \<times> string) option" where
  "asm_write_listing ctx current_filename filename =
     (if MAX_FILEPATH_LENGTH \<le> length (filename @ ''.lst'') then None
      else Some (filename @ ''.lst'',
        ''; x86_64-asm listing file'' @ [LF] @ ''; Source: '' @ current_filename @ [LF] @
        ''; base_address=0x'' @ hex_of (unat (base_address ctx)) @ [LF] @ [LF] @
        listing_row ''Line'' ''Address'' ''Machine Code'' ''Source'' @
        listing_row ''----'' ''-------'' ''------------'' ''------'' @
        concat (map listing_entry_row (listing_entries ctx)) @
        [LF] @ ''; Symbol Table'' @ [LF] @
        listing_symbol_row ''Name'' ''Address'' ''Section'' @ listing_symbol_row ''----'' ''-------'' ''-------'' @
        concat (map (\<lambda>s. ''; '' @ pad_right 30 (sym_name s) @ '' 0x'' @ hex_padded 16 (sym_address s) @ '' '' @
          section_label s @ [LF]) (symbols ctx))))"

section \<open>The dumps\<close>

definition flag_letter :: "bool \<Rightarrow> string \<Rightarrow> string" where
  "flag_letter b letter = (if b then letter else '' '')"

definition dump_symbol_row :: "symbol \<Rightarrow> string" where
  "dump_symbol_row s = pad_right 30 (sym_name s) @ '' 0x'' @ hex_padded 16 (sym_address s) @ '' '' @
     flag_letter (sym_is_global s) ''G'' @ ''      '' @ flag_letter (sym_is_external s) ''E'' @ ''      '' @
     flag_letter (sym_is_weak s) ''W'' @ ''    '' @ flag_letter (sym_is_hidden s) ''H'' @ ''      '' @
     section_label s @ [LF]"

definition dump_symbol_head :: "string list \<Rightarrow> string" where
  "dump_symbol_head cs = pad_right 30 (cs ! 0) @ '' '' @ pad_right 16 (cs ! 1) @
     concat (map (\<lambda>c. '' '' @ c) (drop 2 cs)) @ [LF]"

definition asm_dump_symbols :: "asm_ctx \<Rightarrow> string" where
  "asm_dump_symbols ctx = ''Symbol Table:'' @ [LF] @
     dump_symbol_head [''Name'', ''Address'', ''Global'', ''Extern'', ''Weak'', ''Hidden'', ''Section''] @
     dump_symbol_head [''----'', ''-------'', ''------'', ''------'', ''----'', ''------'', ''-------''] @
     concat (map dump_symbol_row (symbols ctx))"

definition dump_char :: "u8 \<Rightarrow> char" where
  "dump_char b = (if 32 \<le> b \<and> b < 127 then char_of_byte b else CHR ''.'')"

definition dump_row :: "u64 \<Rightarrow> u8 list \<Rightarrow> string" where
  "dump_row addr bs = ''0x'' @ hex_padded 8 addr @ '' | '' @ concat (map (\<lambda>b. hex_byte b @ '' '') bs) @
     concat (replicate (16 - length bs) ''   '') @ ''| '' @ map dump_char bs @ [LF]"

function dump_rows :: "u64 \<Rightarrow> u8 list \<Rightarrow> string" where
  "dump_rows addr bs = (if bs = [] then [] else dump_row addr (take 16 bs) @ dump_rows (addr + 16) (drop 16 bs))"
  by pat_completeness auto
termination
  by (relation "measure (\<lambda>(_, bs). length bs)") auto

declare dump_rows.simps [simp del]

definition asm_dump_output :: "asm_ctx \<Rightarrow> string" where
  "asm_dump_output ctx = [LF] @ ''Generated Code ('' @ decimal (length (text_section ctx)) @ '' bytes):'' @ [LF] @
     ''Address    | Hex                                      | ASCII'' @ [LF] @
     ''-----------|------------------------------------------|------'' @ [LF] @
     dump_rows (base_address ctx) (text_section ctx)"

section \<open>Diagnostics in JSON\<close>

fun json_escape :: "nat \<Rightarrow> nat \<Rightarrow> string \<Rightarrow> string" where
  "json_escape out_size j [] = []"
| "json_escape out_size j (c # cs) =
     (if out_size \<le> j + 1 then []
      else if c = DQUOTE \<or> c = BACKSLASH then
        (if out_size \<le> j + 2 then [] else [BACKSLASH, c] @ json_escape out_size (j + 2) cs)
      else if code c < 32 then
        (if out_size \<le> j + 6 then []
         else BACKSLASH # ''u00'' @ [hex_digit (code c div 16), hex_digit (code c)] @ json_escape out_size (j + 6) cs)
      else c # json_escape out_size (j + 1) cs)"

definition json_escape_string :: "nat \<Rightarrow> string \<Rightarrow> string" where
  "json_escape_string out_size s = json_escape out_size 0 s"

text \<open>The result fits its buffer with the NUL.\<close>

lemma json_escape_fits: "j < out_size \<Longrightarrow> j + length (json_escape out_size j s) < out_size"
proof (induction out_size j s rule: json_escape.induct)
  case (2 out_size j c cs)
  then show ?case by (auto simp: not_le)
qed simp

section \<open>Capacity\<close>

definition estimate_instruction_capacity :: "string \<Rightarrow> nat" where
  "estimate_instruction_capacity source =
     (let line_count = 1 + length (filter (\<lambda>c. c = LF) source) in
      if source = [] then 64 else if line_count < 256 then 256 else line_count + line_count div 8 + 32)"

end
