(* ===== verification/Command_Line.thy ===== *)
theory Command_Line
  imports Includes
begin

text \<open>
  The options of src/asm.c: the scan of the arguments, the second scan that collects include paths
  and definitions, \<open>parse_cli_define\<close>, and the setters of src/x86_64_asm.c it calls.
\<close>

section \<open>Definitions\<close>

text \<open>\<open>parse_cli_define\<close>: the name and value of \<open>NAME[=VALUE]\<close>, cut to their buffers.\<close>

definition parse_cli_define :: "nat \<Rightarrow> nat \<Rightarrow> string \<Rightarrow> (string \<times> string) option" where
  "parse_cli_define name_size value_size str =
     (let name = take (name_size - 1) (takeWhile (\<lambda>c. c \<noteq> CHR ''='') str);
          after = dropWhile (\<lambda>c. c \<noteq> CHR ''='') str;
          v = take (value_size - 1) (tl after) in
      if name = [] \<or> \<not> pp_is_ident_start (hd name) \<or> \<not> list_all word_char (tl name) then None
      else Some (name, v))"

abbreviation (input) MAX_INCLUDE_PATHS :: nat where "MAX_INCLUDE_PATHS \<equiv> 32"
abbreviation (input) MAX_CLI_DEFINES :: nat where "MAX_CLI_DEFINES \<equiv> 64"

definition asm_ctx_add_include_path :: "string \<Rightarrow> pp_config \<Rightarrow> pp_config option" where
  "asm_ctx_add_include_path path cfg =
     (if MAX_INCLUDE_PATHS \<le> length (cfg_include_paths cfg) \<or> MAX_FILEPATH_LENGTH \<le> length path then None
      else Some (cfg\<lparr>cfg_include_paths := cfg_include_paths cfg @ [path]\<rparr>))"

definition asm_ctx_add_cli_define :: "string \<Rightarrow> string \<Rightarrow> pp_config \<Rightarrow> pp_config option" where
  "asm_ctx_add_cli_define name v cfg =
     (if MAX_CLI_DEFINES \<le> length (cfg_defines cfg) \<or> MAX_LABEL_LENGTH \<le> length name \<or> MAX_LINE_LENGTH \<le> length v
      then None
      else Some (cfg\<lparr>cfg_defines := cfg_defines cfg @ [(name, v)]\<rparr>))"

section \<open>The first scan\<close>

record cli_options =
  opt_input :: "string option"
  opt_output :: string
  opt_format :: string
  opt_disassemble :: "string option"
  opt_dump :: bool
  opt_debug_map :: bool
  opt_listing :: bool
  opt_gen_deps :: bool
  opt_gen_deps_local :: bool
  opt_preprocess_only :: bool
  opt_warn :: bool
  opt_warn_all :: bool
  opt_warn_error :: bool
  opt_json :: bool

definition default_options :: cli_options where
  "default_options = \<lparr>opt_input = None, opt_output = ''a.out'', opt_format = ''elf64'', opt_disassemble = None,
     opt_dump = False, opt_debug_map = False, opt_listing = False, opt_gen_deps = False, opt_gen_deps_local = False,
     opt_preprocess_only = False, opt_warn = False, opt_warn_all = False, opt_warn_error = False, opt_json = False\<rparr>"

text \<open>An option with an argument of its own, a flag, or the end of the scan with an exit status.\<close>

definition flag_option :: "string \<Rightarrow> cli_options \<Rightarrow> int + cli_options" where
  "flag_option a opts =
     (if a = ''-g'' then Inr (opts\<lparr>opt_debug_map := True\<rparr>)
      else if a = ''-l'' then Inr (opts\<lparr>opt_listing := True\<rparr>)
      else if a = ''-d'' then Inr (opts\<lparr>opt_dump := True\<rparr>)
      else if take 2 a = ''-I'' \<and> 2 < length a \<or> take 2 a = ''-D'' \<and> 2 < length a then Inr opts
      else if a = ''-M'' then Inr (opts\<lparr>opt_gen_deps := True\<rparr>)
      else if a = ''-MM'' then Inr (opts\<lparr>opt_gen_deps_local := True\<rparr>)
      else if a = ''-E'' then Inr (opts\<lparr>opt_preprocess_only := True\<rparr>)
      else if a = ''-W'' then Inr (opts\<lparr>opt_warn := True\<rparr>)
      else if a = ''-Wall'' then Inr (opts\<lparr>opt_warn_all := True\<rparr>)
      else if a = ''-Werror'' then Inr (opts\<lparr>opt_warn_error := True\<rparr>)
      else if take 15 a = ''--error-format='' then
        (if drop 15 a = ''json'' then Inr (opts\<lparr>opt_json := True\<rparr>)
         else if drop 15 a = ''text'' then Inr opts else Inl 1)
      else if a = ''-h'' \<or> a = ''--help'' then Inl 0
      else if a = [] \<or> hd a \<noteq> CHR ''-'' then Inr (opts\<lparr>opt_input := Some a\<rparr>)
      else Inl 1)"

fun scan_args :: "string list \<Rightarrow> cli_options \<Rightarrow> int + cli_options" where
  "scan_args [] opts = Inr opts"
| "scan_args [a] opts = flag_option a opts"
| "scan_args (a # b # as) opts =
     (if a = ''-o'' then scan_args as (opts\<lparr>opt_output := b\<rparr>)
      else if a = ''-f'' then scan_args as (opts\<lparr>opt_format := b\<rparr>)
      else if a = ''-I'' \<or> a = ''-D'' then scan_args as opts
      else if a = ''--disassemble'' then scan_args as (opts\<lparr>opt_disassemble := Some b\<rparr>)
      else case flag_option a opts of Inl status \<Rightarrow> Inl status | Inr opts' \<Rightarrow> scan_args (b # as) opts')"

section \<open>The second scan\<close>

text \<open>A path or definition that does not fit is left out with a warning; an ill-formed definition
  ends the program.\<close>

definition collect_path :: "string \<Rightarrow> pp_config \<Rightarrow> pp_config" where
  "collect_path path cfg = (case asm_ctx_add_include_path path cfg of None \<Rightarrow> cfg | Some cfg' \<Rightarrow> cfg')"

definition collect_define :: "string \<Rightarrow> pp_config \<Rightarrow> pp_config option" where
  "collect_define str cfg =
     (case parse_cli_define MAX_LABEL_LENGTH MAX_LINE_LENGTH str of
        None \<Rightarrow> None
      | Some (name, v) \<Rightarrow>
          Some (case asm_ctx_add_cli_define name v cfg of None \<Rightarrow> cfg | Some cfg' \<Rightarrow> cfg'))"

definition collect_joined :: "string \<Rightarrow> pp_config \<Rightarrow> pp_config option" where
  "collect_joined a cfg =
     (if take 2 a = ''-I'' \<and> 2 < length a then Some (collect_path (drop 2 a) cfg)
      else if take 2 a = ''-D'' \<and> 2 < length a then collect_define (drop 2 a) cfg
      else Some cfg)"

fun collect_args :: "string list \<Rightarrow> pp_config \<Rightarrow> pp_config option" where
  "collect_args [] cfg = Some cfg"
| "collect_args [a] cfg = collect_joined a cfg"
| "collect_args (a # b # as) cfg =
     (if a = ''-I'' then collect_args as (collect_path b cfg)
      else if a = ''-D'' then (case collect_define b cfg of None \<Rightarrow> None | Some cfg' \<Rightarrow> collect_args as cfg')
      else case collect_joined a cfg of None \<Rightarrow> None | Some cfg' \<Rightarrow> collect_args (b # as) cfg')"

text \<open>Names cut to the size of the buffer are accepted by the context, so only a full table drops a
  definition; the second scan does not know the arguments of other options and takes them too.\<close>

lemma collect_define_kept:
  assumes "parse_cli_define MAX_LABEL_LENGTH MAX_LINE_LENGTH str = Some (name, v)"
    and "length (cfg_defines cfg) < MAX_CLI_DEFINES"
  shows "collect_define str cfg = Some (cfg\<lparr>cfg_defines := cfg_defines cfg @ [(name, v)]\<rparr>)"
proof -
  have "length name < MAX_LABEL_LENGTH" "length v < MAX_LINE_LENGTH"
    using assms(1) by (auto simp: parse_cli_define_def Let_def split: if_splits)
  then show ?thesis using assms by (simp add: collect_define_def asm_ctx_add_cli_define_def)
qed

lemma output_name_taken_as_path:
  "collect_args [''-o'', ''-Iout''] cfg = Some (collect_path ''out'' cfg)"
  by (simp add: collect_joined_def)

end
