(* ===== verification/Spec2Isabelle.thy ===== *)
theory Spec2Isabelle
  imports Pass_Properties Format_Properties Name_Properties Assembly_Properties
    Parser_Properties Source_Properties Output_Properties Reports Command_Line
begin

text \<open>
  An assembler for x86-64 and its disassembler, as a model of the C sources under src/src and
  src/include, with the theorems about it. Paths below are relative to the repository's src
  directory (src/x86_64_asm.c and so on), include/ is the directory of the public headers.

  THE PROGRAM

  src/asm.c reads the options and calls the library. The library takes a source text through these
  steps, which all work on one \<open>assembler_context_t\<close>:

    \<^item> src/x86_64_parser.c expands \<open>times\<close>, includes, conditionals, definitions and macros, in text,
      then splits the result into tokens and parses lines into an array of \<open>parsed_instruction_t\<close>;
    \<^item> src/x86_64_asm.c renames local and anonymous labels, gives every label a first address from
      estimated sizes, resolves \<open>equ\<close>, relaxes the layout for short branches, encodes the text until
      no label moves, encodes the data, and resolves the recorded fixups;
    \<^item> src/x86_64_encoding_core.c, src/x86_64_encoder.c and src/x86_64_controlflow.c turn one
      instruction into bytes and fixups, called by the dispatcher \<open>encode_instruction\<close>;
    \<^item> src/x86_64_asm.c writes the result: ELF with or without DWARF, binary, hex, debug map, listing;
    \<^item> src/x86_64_disassembler.c reads an ELF file back and prints its code.

  THE MODEL

  A C struct is a record, an enum a datatype, an integer a word of its width, a C string the list of
  the characters in front of its NUL. Operations on the context are functions from the context to an
  outcome and the new context, so that what a failing operation has already changed is in the model.
  Diagnostics keep their category. What the program asks of its surroundings is a parameter: the
  file that \<open>incbin\<close> reads and the file system of the includes.

    \<^item> Asm_Prelude, Asm_Types: words, byte order, bounded strings, the theorem collections, and the
      data of include/x86_64_asm/x86_64_asm.h and src/x86_64_asm.h.
    \<^item> Symbols (src/x86_64_asm.c: hash table, symbol array, equ, fixup recorders). The locale
      \<open>symbol_map\<close> is the contract of the table, that of a finite map; the hash table interprets it.
    \<^item> Emission, Encoding_Core (src/x86_64_encoding_core.c: emitters, listing, registers, REX, ModRM,
      SIB) with the contracts \<open>emitter\<close>, \<open>emits\<close> and \<open>safe\<close>, each closed under sequencing.
    \<^item> Encoder_GP, Encoder_SSE (src/x86_64_encoder.c, include/x86_64_asm/opcode_lookup.h),
      Control_Flow (src/x86_64_controlflow.c). Every encoder is an interpretation of the locale
      \<open>instruction_encoder\<close>.
    \<^item> Dispatch (sections, data directives, \<open>incbin\<close>, the dispatch switch; the dispatcher interprets
      \<open>section_writer\<close>), Layout (size estimates, label pass, relaxation), Fixups (resolution),
      Assembly (the driver \<open>asm_assemble\<close> behind the parser): src/x86_64_asm.c.
    \<^item> Labels (local and anonymous labels), Name_Distance (suggestions): src/x86_64_asm.c.
    \<^item> Characters, Lexer, Operand_Parser, Instruction_Parser (src/x86_64_parser.c: characters and
      UTF-8, tokens, operands, lines and the loop \<open>parse_source_internal\<close>).
    \<^item> Source_Lines, Macros, Preprocessor, Includes, Preprocessor_Passes, Whole_Source
      (src/x86_64_parser.c: \<open>times\<close>, macros, conditionals and definitions, includes and the stack of
      sources, both passes of \<open>preprocess_macros\<close>, \<open>parse_source_common\<close>).
    \<^item> Output_Bytes, Dwarf, Elf_File, Reports (src/x86_64_asm.c: LEB128 and bounded buffers, the debug
      sections, the ELF file, the text reports); Elf_File also has \<open>asm_disassemble_file\<close>.
    \<^item> Disassembler (src/x86_64_disassembler.c: the decoder and printer of a code buffer).
    \<^item> Command_Line (src/asm.c: both scans of the arguments, \<open>-D\<close>).
\<close>

text \<open>
  WHAT THE LEMMAS SHOW

    \<^item> Pass_Properties, over Emission, the encoders, Dispatch, Fixups and Branches: any instruction only
      appends, keeps addresses equal to the base plus the bytes and stays in its buffers; align
      reaches its boundary; resolution writes exactly the fields, with the right values, fails for two
      reasons only and succeeds otherwise; single branches lead to their labels in the resolved text.
    \<^item> Convergence, Final_Layout, Linked_Branches, Table_Refinement, Assembled_Program and with them
      Assembly_Properties: the whole assembly. When the last text pass moved no label, every branch of
      the finished text reads back as a branch to the labelled instruction; the hash table, which is
      read when code is emitted, agrees with the symbol array, which is the reference; the addresses
      a pass leaves are those of the bytes.
    \<^item> Decode_Facts, Operand_Forms, Roundtrip and with them Format_Properties: the decoder stays inside
      its buffers and partitions the code; register names, operand forms, mov, arithmetic and stack
      instructions decode to what was encoded. The operand forms that do not (an index without a base, an
      index on rbp or r13 without a displacement, an index r12) are stated as well, and so is the overrun
      behind fifteen or more prefixes.
    \<^item> Label_Binding, Label_Types and with them Name_Properties: references bind to the definition of
      their scope, names keep their bounds, the two-row distance is the least cost of an edit script.
    \<^item> Parser_Progress, Token_Streams, Printed_Operands, Printed_Lines and with them Parser_Properties:
      when parsing returns and when it does not, and that the parser reads the lines the
      disassembler prints. Source_Properties: the buffer-limited expansion of \<open>times\<close> is the
      unlimited one as long as it fits.
    \<^item> Output_Properties: the line program written reads back as the line map, by a DWARF 4 reader that takes
      the header's parameters and the standard's operands of the standard opcodes, and
      the disassembler finds the code in an ELF file written with debug sections.

  Sample_States holds the contexts and instructions on which the general theorems are applied.

  BOUNDS AND FUEL

  The bounds are those of the code: names of 255 characters (\<open>MAX_LABEL_LENGTH\<close>), the capacities of the
  section buffers and of the fixup and symbol arrays, eight rounds of relaxation, six text passes
  with forward short branches and six without, nested includes up to the limit of the code, the sizes
  of the macro tables, the buffers of the debug sections (256, 2048, 16384 and 65536 bytes), 15 bytes
  and 192 characters per decoded instruction. No fuel is added to them, except in the specification
  \<open>run_lines\<close> of Dwarf, which reads a line program and takes its length: every opcode uses at least
  one byte. Loops of the code that need not end are partial functions: the loop over the lines of
  \<open>parse_source_internal\<close> and the loop over the parameters of a macro. When the first returns is a
  theorem. All other recursions are total with their termination proofs.

  NOT MODELLED

    \<^item> Opening, reading and writing files through stdio and its failures, and failing allocations.
    \<^item> The wording of diagnostics and of the usage text; their category is kept.
    \<^item> The profiling counters of the parser and src/tools/profile_parser.c, which change no output.
    \<^item> Creation, release and the one-field accessors of the context, and the sequence of library calls in
      \<open>main\<close> behind the option scans.
    \<^item> What a processor does with the code: that a form denotes an operand is stated through the
      decoder and, where the decoder and the manual part, through the bits of the form.
\<close>

end
